(* ===== verification/Prelude.thy ===== *)
theory Prelude
  imports Main "HOL-Library.Word" "HOL-Library.Sublist" "HOL-Library.Multiset"
begin

text \<open>
  Shared vocabulary of the development: the machine integers of the C++ sources, the
  faults a C++ function can end in, \<open>std::map\<close> as a key-sorted association list with
  positions as iterators, and the part of \<open>std::string\<close> and \<open>std::ostream\<close> the sources
  use (searching, decimal output).  The lemmas here are the ones several components share;
  the collections \<open>omap_simps\<close> and \<open>str_simps\<close> carry them into the component proofs.
\<close>

named_theorems omap_simps "facts on ordered maps"
named_theorems str_simps "facts on strings and decimal output"

section \<open>Machine integers and faults\<close>

type_synonym u8 = "8 word"
type_synonym u32 = "32 word"
type_synonym u64 = "64 word"
type_synonym bytes = "u8 list"

text \<open>
  How a C++ function can fail to return.  The first three are the exception classes
  that \<open>dispatch\<close> in manager.cc catches, \<open>Ios_failure\<close> is the exception of a
  \<open>stringstream\<close> with \<open>failbit\<close> enabled (utils.h), \<open>Fatal_check\<close> stands for a failed
  check inside protobuf (\<open>Map::at\<close> of a missing key), and the others are undefined
  behaviour: dereferencing a null pointer, reading freed memory, leaving a range, writing
  past the end of a buffer.
  \<open>Blocked\<close> is a system call that never returns.
\<close>

datatype fault =
    Runtime_error string
  | Json_exception string
  | Http_exception string
  | Ios_failure
  | Fatal_check
  | Null_deref
  | Use_after_free
  | Out_of_range
  | Buffer_overrun
  | Blocked

text \<open>Faults that are C++ exceptions derived from \<open>std::runtime_error\<close>, json or http.\<close>

fun catchable :: "fault \<Rightarrow> bool" where
  "catchable (Runtime_error _) = True"
| "catchable (Json_exception _) = True"
| "catchable (Http_exception _) = True"
| "catchable _ = False"

section \<open>std::map: ordered maps with iterators\<close>

text \<open>
  A \<open>std::map<K,V>\<close> is the list of its entries in key order.  An iterator is a position
  in that list: \<open>0\<close> is \<open>begin()\<close>, the length is \<open>end()\<close>, \<open>std::prev\<close> subtracts one.
\<close>

type_synonym ('k, 'v) omap = "('k \<times> 'v) list"

definition okeys :: "('k::linorder, 'v) omap \<Rightarrow> bool" where
  "okeys m \<longleftrightarrow> sorted_wrt (<) (map fst m)"

fun omap_put :: "'k::linorder \<Rightarrow> 'v \<Rightarrow> ('k, 'v) omap \<Rightarrow> ('k, 'v) omap" where
  "omap_put k v [] = [(k, v)]"
| "omap_put k v ((a, b) # m) =
     (if k < a then (k, v) # (a, b) # m
      else if k = a then (k, v) # m
      else (a, b) # omap_put k v m)"

fun omap_erase :: "'k::linorder \<Rightarrow> ('k, 'v) omap \<Rightarrow> ('k, 'v) omap" where
  "omap_erase k [] = []"
| "omap_erase k ((a, b) # m) = (if k = a then m else (a, b) # omap_erase k m)"

fun upper_bound :: "'k::linorder \<Rightarrow> ('k, 'v) omap \<Rightarrow> nat" where
  "upper_bound k [] = 0"
| "upper_bound k ((a, b) # m) = (if k < a then 0 else Suc (upper_bound k m))"

fun omap_find :: "'k::linorder \<Rightarrow> ('k, 'v) omap \<Rightarrow> nat" where
  "omap_find k [] = 0"
| "omap_find k ((a, b) # m) = (if k = a then 0 else Suc (omap_find k m))"

lemma okeys_Nil [simp]: "okeys []"
  by (simp add: okeys_def)

lemma okeys_Cons [simp]: "okeys (p # m) \<longleftrightarrow> (\<forall>q \<in> set m. fst p < fst q) \<and> okeys m"
  by (auto simp: okeys_def)

lemma set_omap_put: "okeys m \<Longrightarrow> set (omap_put k v m) = insert (k, v) {p \<in> set m. fst p \<noteq> k}"
  by (induction k v m rule: omap_put.induct) auto

lemma okeys_put [simp]: "okeys m \<Longrightarrow> okeys (omap_put k v m)"
  by (induction k v m rule: omap_put.induct) (auto simp: set_omap_put)

lemma set_omap_erase: "okeys m \<Longrightarrow> set (omap_erase k m) = {p \<in> set m. fst p \<noteq> k}"
  by (induction k m rule: omap_erase.induct) auto

lemma okeys_erase [simp]: "okeys m \<Longrightarrow> okeys (omap_erase k m)"
  by (induction k m rule: omap_erase.induct) (auto simp: set_omap_erase)

lemma omap_erase_absent: "k \<notin> fst ` set m \<Longrightarrow> omap_erase k m = m"
  by (induction k m rule: omap_erase.induct) auto

lemma omap_put_less: "\<forall>q \<in> set m. k < fst q \<Longrightarrow> omap_put k v m = (k, v) # m"
  by (cases m) auto

lemma omap_put_erase: "okeys m \<Longrightarrow> omap_put k v (omap_erase k m) = omap_put k v m"
proof (induction k m rule: omap_erase.induct)
  case (2 k a b m)
  show ?case
  proof (cases "k < a")
    case True
    with "2.prems" have "k \<notin> fst ` set m" by auto
    with True show ?thesis by (auto simp: omap_erase_absent)
  next
    case False
    with 2 show ?thesis by (auto simp: omap_put_less)
  qed
qed simp

lemma map_of_put [omap_simps]: "map_of (omap_put k v m) = (map_of m)(k \<mapsto> v)"
  by (induction k v m rule: omap_put.induct) auto

lemma map_of_erase [omap_simps]: "okeys m \<Longrightarrow> map_of (omap_erase k m) = (map_of m)(k := None)"
proof (induction k m rule: omap_erase.induct)
  case (2 k a b m)
  show ?case
  proof (cases "k = a")
    case True
    with "2.prems" have "map_of m k = None"
      by (force simp: map_of_eq_None_iff)
    with True show ?thesis by (auto simp: fun_eq_iff)
  next
    case False
    with 2 show ?thesis by (auto simp: fun_eq_iff)
  qed
qed simp

lemma okeys_unique: "okeys m \<Longrightarrow> (k, v) \<in> set m \<Longrightarrow> (k, w) \<in> set m \<Longrightarrow> v = w"
  by (induction m) force+

lemma okeys_map_of: "okeys m \<Longrightarrow> map_of m k = Some v \<longleftrightarrow> (k, v) \<in> set m"
  by (metis map_of_SomeD weak_map_of_SomeI okeys_unique)

lemma upper_bound_le [simp]: "upper_bound k m \<le> length m"
  by (induction k m rule: upper_bound.induct) auto

lemma upper_bound_before:
  "okeys m \<Longrightarrow> i < upper_bound k m \<Longrightarrow> fst (m ! i) \<le> k"
proof (induction k m arbitrary: i rule: upper_bound.induct)
  case (2 k a b m)
  then show ?case by (cases i) (auto split: if_splits)
qed simp

lemma upper_bound_after:
  "okeys m \<Longrightarrow> upper_bound k m \<le> i \<Longrightarrow> i < length m \<Longrightarrow> k < fst (m ! i)"
proof (induction k m arbitrary: i rule: upper_bound.induct)
  case (2 k a b m)
  show ?case
  proof (cases i)
    case 0
    with 2 show ?thesis by (simp split: if_splits)
  next
    case (Suc j)
    with 2 show ?thesis by (auto split: if_splits dest: less_trans nth_mem)
  qed
qed simp

text \<open>What the two entries around an upper bound are, in terms of the set of entries.\<close>

lemma upper_bound_prev:
  assumes "okeys m" and "upper_bound k m \<noteq> 0"
  shows "m ! (upper_bound k m - 1) \<in> set m"
    and "fst (m ! (upper_bound k m - 1)) \<le> k"
    and "\<And>q. q \<in> set m \<Longrightarrow> fst q \<le> k \<Longrightarrow> fst q \<le> fst (m ! (upper_bound k m - 1))"
proof -
  let ?i = "upper_bound k m - 1"
  have i: "?i < upper_bound k m" "?i < length m"
    using assms(2) upper_bound_le [of k m] by linarith+
  show "m ! ?i \<in> set m" using i by simp
  show "fst (m ! ?i) \<le> k" using assms(1) i by (blast intro: upper_bound_before)
  fix q assume q: "q \<in> set m" "fst q \<le> k"
  then obtain j where j: "j < length m" "q = m ! j" by (metis in_set_conv_nth)
  have "j \<le> ?i"
  proof (rule ccontr)
    assume "\<not> j \<le> ?i"
    then have "upper_bound k m \<le> j" by linarith
    with assms(1) j q(2) show False using upper_bound_after leD by blast
  qed
  with assms(1) i j show "fst q \<le> fst (m ! ?i)"
    unfolding okeys_def by (cases "j = ?i") (auto simp: sorted_wrt_iff_nth_less order.order_iff_strict)
qed

lemma upper_bound_first:
  assumes "okeys m" and "upper_bound k m = 0" and "q \<in> set m"
  shows "k < fst q"
  using assms by (metis in_set_conv_nth upper_bound_after zero_le)

lemma upper_bound_next:
  assumes "okeys m" and "upper_bound k m < length m"
  shows "m ! upper_bound k m \<in> set m"
    and "k < fst (m ! upper_bound k m)"
    and "\<And>q. q \<in> set m \<Longrightarrow> k < fst q \<Longrightarrow> fst (m ! upper_bound k m) \<le> fst q"
proof -
  let ?i = "upper_bound k m"
  show "m ! ?i \<in> set m" using assms(2) by simp
  show "k < fst (m ! ?i)" using assms by (simp add: upper_bound_after)
  fix q assume q: "q \<in> set m" "k < fst q"
  then obtain j where j: "j < length m" "q = m ! j" by (metis in_set_conv_nth)
  have "?i \<le> j"
  proof (rule ccontr)
    assume "\<not> ?i \<le> j"
    with assms(1) have "fst (m ! j) \<le> k" by (simp add: upper_bound_before)
    with j q(2) show False by simp
  qed
  with assms(1) j show "fst (m ! ?i) \<le> fst q"
    unfolding okeys_def by (cases "j = ?i") (auto simp: sorted_wrt_iff_nth_less order.order_iff_strict)
qed

lemma upper_bound_end:
  assumes "okeys m" and "upper_bound k m = length m" and "q \<in> set m"
  shows "fst q \<le> k"
  using assms by (metis in_set_conv_nth upper_bound_before)

lemma omap_find_absent: "k \<notin> fst ` set m \<Longrightarrow> omap_find k m = length m"
  by (induction k m rule: omap_find.induct) auto

lemma omap_find_end_iff: "omap_find k m = length m \<longleftrightarrow> k \<notin> fst ` set m"
  by (induction k m rule: omap_find.induct) auto

lemma omap_find_nth: "omap_find k m < length m \<Longrightarrow> fst (m ! omap_find k m) = k"
  by (induction k m rule: omap_find.induct) auto

lemma omap_find_le [simp]: "omap_find k m \<le> length m"
  by (induction k m rule: omap_find.induct) auto

section \<open>Decimal output and string search\<close>

text \<open>Output of an unsigned or signed integer to a \<open>std::ostream\<close> in base ten.\<close>

definition digit_char :: "nat \<Rightarrow> char" where
  "digit_char d = char_of (48 + d)"

fun show_nat :: "nat \<Rightarrow> string" where
  "show_nat n = (if n < 10 then [digit_char n] else show_nat (n div 10) @ [digit_char (n mod 10)])"

declare show_nat.simps [simp del]

definition show_int :: "int \<Rightarrow> string" where
  "show_int i = (if i < 0 then CHR ''-'' # show_nat (nat (- i)) else show_nat (nat i))"

definition digit_val :: "char \<Rightarrow> nat" where
  "digit_val c = of_char c - 48"

definition read_nat :: "string \<Rightarrow> nat" where
  "read_nat s = foldl (\<lambda>a c. 10 * a + digit_val c) 0 s"

definition is_digit :: "char \<Rightarrow> bool" where
  "is_digit c \<longleftrightarrow> 48 \<le> (of_char c :: nat) \<and> (of_char c :: nat) < 58"

definition is_space :: "char \<Rightarrow> bool" where
  "is_space c \<longleftrightarrow> (of_char c :: nat) = 32 \<or> (9 \<le> (of_char c :: nat) \<and> (of_char c :: nat) \<le> 13)"

lemma digit_val_char [str_simps]: "d < 10 \<Longrightarrow> digit_val (digit_char d) = d"
  by (simp add: digit_val_def digit_char_def)

lemma is_digit_char [str_simps]: "d < 10 \<Longrightarrow> is_digit (digit_char d)"
  by (simp add: is_digit_def digit_char_def)

lemma show_nat_nonempty [simp]: "show_nat n \<noteq> []"
  by (subst show_nat.simps) simp

lemma show_nat_digits: "c \<in> set (show_nat n) \<Longrightarrow> is_digit c"
proof (induction n rule: show_nat.induct)
  case (1 n)
  then show ?case
    by (cases "n < 10") (auto simp: show_nat.simps [of n] str_simps)
qed

lemma read_show_nat [simp]: "read_nat (show_nat n) = n"
proof (induction n rule: show_nat.induct)
  case (1 n)
  show ?case
  proof (cases "n < 10")
    case True
    then show ?thesis by (simp add: show_nat.simps [of n] read_nat_def str_simps)
  next
    case False
    with 1 have "foldl (\<lambda>a c. 10 * a + digit_val c) 0 (show_nat (n div 10)) = n div 10"
      by (simp add: read_nat_def)
    with False show ?thesis
      by (simp add: show_nat.simps [of n] read_nat_def str_simps)
  qed
qed

lemma show_nat_inj [simp]: "show_nat m = show_nat n \<longleftrightarrow> m = n"
  by (metis read_show_nat)

lemma show_nat_no_char: "\<not> is_digit c \<Longrightarrow> c \<notin> set (show_nat n)"
  using show_nat_digits by blast

text \<open>
  Two texts around a separator that the left one does not contain determine both: the
  shape of every composite name the sources build.
\<close>

lemma separator_unique:
  assumes "a @ c # b = a' @ c # b'" and "c \<notin> set a" and "c \<notin> set a'"
  shows "a = a' \<and> b = b'"
  using assms
proof (induction a arbitrary: a')
  case Nil
  then show ?case by (cases a') auto
next
  case (Cons x a)
  then show ?case by (cases a') auto
qed

text \<open>\<open>std::string::find\<close> and \<open>rfind\<close> of a character: \<open>None\<close> is \<open>npos\<close>.\<close>

fun find_char :: "char \<Rightarrow> string \<Rightarrow> nat option" where
  "find_char c [] = None"
| "find_char c (x # s) = (if x = c then Some 0 else map_option Suc (find_char c s))"

fun rfind_char :: "char \<Rightarrow> string \<Rightarrow> nat option" where
  "rfind_char c [] = None"
| "rfind_char c (x # s) =
     (case rfind_char c s of Some i \<Rightarrow> Some (Suc i) | None \<Rightarrow> if x = c then Some 0 else None)"

text \<open>\<open>s.find(pat) != npos\<close>.\<close>

fun contains :: "string \<Rightarrow> string \<Rightarrow> bool" where
  "contains pat [] \<longleftrightarrow> pat = []"
| "contains pat (x # s) \<longleftrightarrow> prefix pat (x # s) \<or> contains pat s"

lemma contains_sublist: "contains pat s \<longleftrightarrow> sublist pat s"
  by (induction pat s rule: contains.induct) (auto simp: sublist_Cons_right)

lemma find_char_None [str_simps]: "find_char c s = None \<longleftrightarrow> c \<notin> set s"
  by (induction c s rule: find_char.induct) auto

lemma rfind_char_None [str_simps]: "rfind_char c s = None \<longleftrightarrow> c \<notin> set s"
  by (induction c s rule: rfind_char.induct) (auto split: option.splits)

lemma find_char_first: "c \<notin> set a \<Longrightarrow> find_char c (a @ c # b) = Some (length a)"
  by (induction a) auto

lemma rfind_char_last: "c \<notin> set b \<Longrightarrow> rfind_char c (a @ c # b) = Some (length a)"
proof (induction a)
  case Nil
  then have "rfind_char c b = None" by (simp add: str_simps)
  then show ?case by simp
qed simp

end
