(* ===== verification/Proto.thy ===== *)
theory Proto
  imports Prelude
begin

text \<open>
  The messages of proto/statement.proto, the wrappers of proto/utils.h that build
  responses and take commands apart, and the statement table of proto/traits.h.
  A proto3 scalar has its default value until it is set, an enum field holds any number,
  and a \<open>google.protobuf.Any\<close> is a message together with its type: unpacking it as
  another type fails.  A map field is the association list of its entries in iteration
  order.
\<close>

section \<open>Messages\<close>

type_synonym confmap = "(string \<times> string) list"

record AuthID =
  auth_ip :: string
  port_lo :: u32
  port_hi :: u32
  misc :: u64
  safe_id :: string

record CodeID =
  code_image :: string
  code_config :: confmap
  wildcard :: bool
  image_store :: string

text \<open>\<open>Endorsement::Type\<close>; the field is an open enum, so a number.\<close>

definition MEMBERSHIP :: int where "MEMBERSHIP = 0"
definition ATTESTER :: int where "ATTESTER = 1"
definition BUILDER :: int where "BUILDER = 2"
definition SOURCE :: int where "SOURCE = 3"
definition OTHER :: int where "OTHER = 4"

record Endorsement =
  endorsement_type :: int
  property :: string
  endorsement_value :: string

record LinkImage =
  link_host :: string
  link_image_name :: string

record Principal =
  p_id :: u64
  p_gn :: u64
  p_speaker :: u64
  p_auth :: AuthID
  p_code :: CodeID

record MetadataConfig =
  meta_ip :: string
  meta_port :: u32

record EndorsePrincipal =
  ep_principal :: Principal
  ep_endorsements :: "Endorsement list"

text \<open>\<open>Endorse::Type\<close>.\<close>

definition Endorse_IMAGE :: int where "Endorse_IMAGE = 0"
definition Endorse_SOURCE :: int where "Endorse_SOURCE = 1"

record Endorse =
  e_id :: string
  e_type :: int
  e_config :: confmap
  e_endorsements :: "Endorsement list"

record CheckProperty =
  cp_principal :: Principal
  cp_properties :: "string list"

record CheckAccess =
  ca_principal :: Principal
  ca_objects :: "string list"

record CheckImage =
  ci_image :: string
  ci_config :: confmap
  ci_property :: "string list"

record CheckAttestation =
  catt_principal :: Principal

record PostACL =
  acl_name :: string
  acl_policies :: "string list"

record FreeCall =
  free_cmd :: string
  free_values :: "string list"

record GuardCall =
  guard_cmd :: string
  guard_ip :: string
  guard_port :: u32
  guard_values :: "string list"

record Status =
  success :: bool
  info :: string

record Attestation =
  att_principal :: Principal
  content :: string

text \<open>The default instances that \<open>mutable_...\<close> and \<open>New()\<close> start from.\<close>

definition default_AuthID :: AuthID where
  "default_AuthID = \<lparr>auth_ip = '''', port_lo = 0, port_hi = 0, misc = 0, safe_id = ''''\<rparr>"

definition default_CodeID :: CodeID where
  "default_CodeID = \<lparr>code_image = '''', code_config = [], wildcard = False, image_store = ''''\<rparr>"

definition default_Principal :: Principal where
  "default_Principal =
     \<lparr>p_id = 0, p_gn = 0, p_speaker = 0, p_auth = default_AuthID, p_code = default_CodeID\<rparr>"

definition default_Endorsement :: Endorsement where
  "default_Endorsement = \<lparr>endorsement_type = 0, property = '''', endorsement_value = ''''\<rparr>"

definition default_Endorse :: Endorse where
  "default_Endorse = \<lparr>e_id = '''', e_type = 0, e_config = [], e_endorsements = []\<rparr>"

datatype any_msg =
    Any_unset
  | Any_malformed
  | Any_Principal Principal
  | Any_Empty
  | Any_MetadataConfig MetadataConfig
  | Any_EndorsePrincipal EndorsePrincipal
  | Any_Endorse Endorse
  | Any_CheckProperty CheckProperty
  | Any_CheckAccess CheckAccess
  | Any_CheckImage CheckImage
  | Any_CheckAttestation CheckAttestation
  | Any_PostACL PostACL
  | Any_FreeCall FreeCall
  | Any_GuardCall GuardCall
  | Any_LinkImage LinkImage
  | Any_Status Status
  | Any_Attestation Attestation

section \<open>Commands\<close>

datatype command_type =
    CREATE_PRINCIPAL | DELETE_PRINCIPAL | ENDORSE_PRINCIPAL | REVOKE_PRINCIPAL_ENDORSEMENT
  | ENDORSE | REVOKE | GET_PRINCIPAL | FREE_CALL | GUARD_CALL | LINK_IMAGE
  | GET_LOCAL_PRINCIPAL | GET_METADATA_CONFIG
  | ENDORSE_MEMBERSHIP | ENDORSE_ATTESTER_IMAGE | ENDORSE_IMAGE_PROPERTY
  | ENDORSE_SOURCE_IMAGE | ENDORSE_BUILDER_IMAGE
  | CHECK_PROPERTY | CHECK_ATTESTATION | CHECK_ACCESS | POST_ACL | CHECK_WORKER_ACCESS
  | CHECK_IMAGE_PROPERTY

text \<open>The numbers of \<open>Command::Type\<close>.\<close>

fun type_value :: "command_type \<Rightarrow> u32" where
  "type_value CREATE_PRINCIPAL = 0"
| "type_value DELETE_PRINCIPAL = 1"
| "type_value ENDORSE_PRINCIPAL = 2"
| "type_value REVOKE_PRINCIPAL_ENDORSEMENT = 3"
| "type_value ENDORSE = 4"
| "type_value REVOKE = 5"
| "type_value GET_PRINCIPAL = 6"
| "type_value FREE_CALL = 7"
| "type_value GUARD_CALL = 8"
| "type_value LINK_IMAGE = 9"
| "type_value GET_LOCAL_PRINCIPAL = 20"
| "type_value GET_METADATA_CONFIG = 21"
| "type_value ENDORSE_MEMBERSHIP = 50"
| "type_value ENDORSE_ATTESTER_IMAGE = 51"
| "type_value ENDORSE_IMAGE_PROPERTY = 52"
| "type_value ENDORSE_SOURCE_IMAGE = 53"
| "type_value ENDORSE_BUILDER_IMAGE = 54"
| "type_value CHECK_PROPERTY = 100"
| "type_value CHECK_ATTESTATION = 101"
| "type_value CHECK_ACCESS = 102"
| "type_value POST_ACL = 103"
| "type_value CHECK_WORKER_ACCESS = 104"
| "type_value CHECK_IMAGE_PROPERTY = 105"

definition all_command_types :: "command_type list" where
  "all_command_types =
     [CREATE_PRINCIPAL, DELETE_PRINCIPAL, ENDORSE_PRINCIPAL, REVOKE_PRINCIPAL_ENDORSEMENT,
      ENDORSE, REVOKE, GET_PRINCIPAL, FREE_CALL, GUARD_CALL, LINK_IMAGE,
      GET_LOCAL_PRINCIPAL, GET_METADATA_CONFIG, ENDORSE_MEMBERSHIP, ENDORSE_ATTESTER_IMAGE,
      ENDORSE_IMAGE_PROPERTY, ENDORSE_SOURCE_IMAGE, ENDORSE_BUILDER_IMAGE, CHECK_PROPERTY,
      CHECK_ATTESTATION, CHECK_ACCESS, POST_ACL, CHECK_WORKER_ACCESS, CHECK_IMAGE_PROPERTY]"

text \<open>\<open>Command::Type_Name\<close>: the name of a known type, and the empty string otherwise.\<close>

fun type_name :: "command_type \<Rightarrow> string" where
  "type_name CREATE_PRINCIPAL = ''CREATE_PRINCIPAL''"
| "type_name DELETE_PRINCIPAL = ''DELETE_PRINCIPAL''"
| "type_name ENDORSE_PRINCIPAL = ''ENDORSE_PRINCIPAL''"
| "type_name REVOKE_PRINCIPAL_ENDORSEMENT = ''REVOKE_PRINCIPAL_ENDORSEMENT''"
| "type_name ENDORSE = ''ENDORSE''"
| "type_name REVOKE = ''REVOKE''"
| "type_name GET_PRINCIPAL = ''GET_PRINCIPAL''"
| "type_name FREE_CALL = ''FREE_CALL''"
| "type_name GUARD_CALL = ''GUARD_CALL''"
| "type_name LINK_IMAGE = ''LINK_IMAGE''"
| "type_name GET_LOCAL_PRINCIPAL = ''GET_LOCAL_PRINCIPAL''"
| "type_name GET_METADATA_CONFIG = ''GET_METADATA_CONFIG''"
| "type_name ENDORSE_MEMBERSHIP = ''ENDORSE_MEMBERSHIP''"
| "type_name ENDORSE_ATTESTER_IMAGE = ''ENDORSE_ATTESTER_IMAGE''"
| "type_name ENDORSE_IMAGE_PROPERTY = ''ENDORSE_IMAGE_PROPERTY''"
| "type_name ENDORSE_SOURCE_IMAGE = ''ENDORSE_SOURCE_IMAGE''"
| "type_name ENDORSE_BUILDER_IMAGE = ''ENDORSE_BUILDER_IMAGE''"
| "type_name CHECK_PROPERTY = ''CHECK_PROPERTY''"
| "type_name CHECK_ATTESTATION = ''CHECK_ATTESTATION''"
| "type_name CHECK_ACCESS = ''CHECK_ACCESS''"
| "type_name POST_ACL = ''POST_ACL''"
| "type_name CHECK_WORKER_ACCESS = ''CHECK_WORKER_ACCESS''"
| "type_name CHECK_IMAGE_PROPERTY = ''CHECK_IMAGE_PROPERTY''"

definition Type_Name :: "u32 \<Rightarrow> string" where
  "Type_Name v =
     (case filter (\<lambda>c. type_value c = v) all_command_types of c # _ \<Rightarrow> type_name c | [] \<Rightarrow> '''')"

text \<open>A command; its \<open>type\<close> is the number on the wire, which may name no known type.\<close>

record Command =
  cmd_id :: u64
  cmd_type :: u32
  cmd_auth :: string
  cmd_pid :: u64
  cmd_uid :: u64
  cmd_gid :: u64
  statement :: any_msg

text \<open>\<open>statement_traits<T>::msg_type\<close>: the message type a command of type \<open>T\<close> carries.\<close>

datatype msg_kind =
    K_Principal | K_EndorsePrincipal | K_Empty | K_Endorse | K_PostACL | K_CheckProperty
  | K_CheckAccess | K_CheckAttestation | K_CheckImage | K_FreeCall | K_GuardCall | K_LinkImage

fun statement_kind :: "command_type \<Rightarrow> msg_kind" where
  "statement_kind CREATE_PRINCIPAL = K_Principal"
| "statement_kind DELETE_PRINCIPAL = K_Principal"
| "statement_kind GET_PRINCIPAL = K_Principal"
| "statement_kind GET_LOCAL_PRINCIPAL = K_Principal"
| "statement_kind ENDORSE_PRINCIPAL = K_EndorsePrincipal"
| "statement_kind GET_METADATA_CONFIG = K_Empty"
| "statement_kind REVOKE_PRINCIPAL_ENDORSEMENT = K_EndorsePrincipal"
| "statement_kind ENDORSE = K_Endorse"
| "statement_kind REVOKE = K_Endorse"
| "statement_kind ENDORSE_MEMBERSHIP = K_EndorsePrincipal"
| "statement_kind ENDORSE_ATTESTER_IMAGE = K_Endorse"
| "statement_kind ENDORSE_BUILDER_IMAGE = K_Endorse"
| "statement_kind ENDORSE_SOURCE_IMAGE = K_Endorse"
| "statement_kind ENDORSE_IMAGE_PROPERTY = K_Endorse"
| "statement_kind POST_ACL = K_PostACL"
| "statement_kind CHECK_PROPERTY = K_CheckProperty"
| "statement_kind CHECK_ACCESS = K_CheckAccess"
| "statement_kind CHECK_ATTESTATION = K_CheckAttestation"
| "statement_kind CHECK_WORKER_ACCESS = K_CheckAccess"
| "statement_kind CHECK_IMAGE_PROPERTY = K_CheckImage"
| "statement_kind FREE_CALL = K_FreeCall"
| "statement_kind GUARD_CALL = K_GuardCall"
| "statement_kind LINK_IMAGE = K_LinkImage"

fun kind_of :: "any_msg \<Rightarrow> msg_kind option" where
  "kind_of (Any_Principal _) = Some K_Principal"
| "kind_of Any_Empty = Some K_Empty"
| "kind_of (Any_EndorsePrincipal _) = Some K_EndorsePrincipal"
| "kind_of (Any_Endorse _) = Some K_Endorse"
| "kind_of (Any_CheckProperty _) = Some K_CheckProperty"
| "kind_of (Any_CheckAccess _) = Some K_CheckAccess"
| "kind_of (Any_CheckImage _) = Some K_CheckImage"
| "kind_of (Any_CheckAttestation _) = Some K_CheckAttestation"
| "kind_of (Any_PostACL _) = Some K_PostACL"
| "kind_of (Any_FreeCall _) = Some K_FreeCall"
| "kind_of (Any_GuardCall _) = Some K_GuardCall"
| "kind_of (Any_LinkImage _) = Some K_LinkImage"
| "kind_of _ = None"

section \<open>CommandWrapper\<close>

text \<open>The \<open>extract_...\<close> functions: \<open>None\<close> is the null pointer.\<close>

definition extract_principal :: "Command \<Rightarrow> Principal option" where
  "extract_principal cmd = (case statement cmd of Any_Principal p \<Rightarrow> Some p | _ \<Rightarrow> None)"

definition extract_post_acl :: "Command \<Rightarrow> PostACL option" where
  "extract_post_acl cmd = (case statement cmd of Any_PostACL m \<Rightarrow> Some m | _ \<Rightarrow> None)"

definition extract_endorse :: "Command \<Rightarrow> Endorse option" where
  "extract_endorse cmd = (case statement cmd of Any_Endorse m \<Rightarrow> Some m | _ \<Rightarrow> None)"

definition extract_endorse_principal :: "Command \<Rightarrow> EndorsePrincipal option" where
  "extract_endorse_principal cmd =
     (case statement cmd of Any_EndorsePrincipal m \<Rightarrow> Some m | _ \<Rightarrow> None)"

definition extract_check_access :: "Command \<Rightarrow> CheckAccess option" where
  "extract_check_access cmd = (case statement cmd of Any_CheckAccess m \<Rightarrow> Some m | _ \<Rightarrow> None)"

definition extract_check_property :: "Command \<Rightarrow> CheckProperty option" where
  "extract_check_property cmd = (case statement cmd of Any_CheckProperty m \<Rightarrow> Some m | _ \<Rightarrow> None)"

definition extract_check_attestation :: "Command \<Rightarrow> CheckAttestation option" where
  "extract_check_attestation cmd =
     (case statement cmd of Any_CheckAttestation m \<Rightarrow> Some m | _ \<Rightarrow> None)"

definition extract_check_image :: "Command \<Rightarrow> CheckImage option" where
  "extract_check_image cmd = (case statement cmd of Any_CheckImage m \<Rightarrow> Some m | _ \<Rightarrow> None)"

definition extract_free_call :: "Command \<Rightarrow> FreeCall option" where
  "extract_free_call cmd = (case statement cmd of Any_FreeCall m \<Rightarrow> Some m | _ \<Rightarrow> None)"

definition extract_guard_call :: "Command \<Rightarrow> GuardCall option" where
  "extract_guard_call cmd = (case statement cmd of Any_GuardCall m \<Rightarrow> Some m | _ \<Rightarrow> None)"

definition extract_link_image :: "Command \<Rightarrow> LinkImage option" where
  "extract_link_image cmd = (case statement cmd of Any_LinkImage m \<Rightarrow> Some m | _ \<Rightarrow> None)"

named_theorems extract_defs "definitions of the extract functions"

lemmas extract_functions [extract_defs] =
  extract_principal_def extract_post_acl_def extract_endorse_def extract_endorse_principal_def
  extract_check_access_def extract_check_property_def extract_check_attestation_def
  extract_check_image_def extract_free_call_def extract_guard_call_def extract_link_image_def

section \<open>Responses and ResponseWrapper\<close>

datatype response_type = R_PRINCIPAL | R_METADATA | R_STATUS | R_ATTESTATION

record Response =
  resp_id :: u64
  resp_type :: response_type
  resp_result :: any_msg

definition make_status_response :: "bool \<Rightarrow> string \<Rightarrow> Response" where
  "make_status_response ok msg =
     \<lparr>resp_id = 0, resp_type = R_STATUS, resp_result = Any_Status \<lparr>success = ok, info = msg\<rparr>\<rparr>"

definition make_principal_response :: "Principal \<Rightarrow> Response" where
  "make_principal_response p = \<lparr>resp_id = 0, resp_type = R_PRINCIPAL, resp_result = Any_Principal p\<rparr>"

definition make_metadata_config_response :: "MetadataConfig \<Rightarrow> Response" where
  "make_metadata_config_response m =
     \<lparr>resp_id = 0, resp_type = R_METADATA, resp_result = Any_MetadataConfig m\<rparr>"

definition make_attestation_response :: "Attestation \<Rightarrow> Response" where
  "make_attestation_response a =
     \<lparr>resp_id = 0, resp_type = R_ATTESTATION, resp_result = Any_Attestation a\<rparr>"

definition not_implemented :: Response where
  "not_implemented = make_status_response False ''Not Implemented''"

definition status_int :: "Response \<Rightarrow> int" where
  "status_int r = (case resp_result r of Any_Status s \<Rightarrow> if success s then 1 else 0 | _ \<Rightarrow> -1)"

definition status :: "Response \<Rightarrow> int \<times> string" where
  "status r =
     (case resp_result r of Any_Status s \<Rightarrow> (if success s then 1 else 0, info s) | _ \<Rightarrow> (-1, ''''))"

definition response_principal :: "Response \<Rightarrow> Principal option" where
  "response_principal r = (case resp_result r of Any_Principal p \<Rightarrow> Some p | _ \<Rightarrow> None)"

definition response_metadata_config :: "Response \<Rightarrow> MetadataConfig option" where
  "response_metadata_config r = (case resp_result r of Any_MetadataConfig m \<Rightarrow> Some m | _ \<Rightarrow> None)"

definition response_attestation :: "Response \<Rightarrow> Attestation option" where
  "response_attestation r = (case resp_result r of Any_Attestation a \<Rightarrow> Some a | _ \<Rightarrow> None)"

section \<open>Lemmas\<close>

lemma type_value_inj [simp]: "type_value a = type_value b \<longleftrightarrow> a = b"
  by (cases a; cases b) simp_all

text \<open>Commands ordered by their number on the wire.\<close>

instantiation command_type :: linorder
begin

definition less_eq_command_type :: "command_type \<Rightarrow> command_type \<Rightarrow> bool" where
  "less_eq_command_type a b \<longleftrightarrow> type_value a \<le> type_value b"

definition less_command_type :: "command_type \<Rightarrow> command_type \<Rightarrow> bool" where
  "less_command_type a b \<longleftrightarrow> type_value a < type_value b"

instance
proof
  fix a b :: command_type
  show "a \<le> b \<Longrightarrow> b \<le> a \<Longrightarrow> a = b"
    unfolding less_eq_command_type_def by (metis order_antisym type_value_inj)
  show "a < b \<longleftrightarrow> a \<le> b \<and> \<not> b \<le> a"
    unfolding less_eq_command_type_def less_command_type_def by (rule less_le_not_le)
qed (auto simp: less_eq_command_type_def less_command_type_def)

end

lemma all_command_types_complete [simp]: "c \<in> set all_command_types"
  by (cases c) (simp_all add: all_command_types_def)

lemma status_of_status_response [simp]:
  "status (make_status_response ok msg) = (if ok then 1 else 0, msg)"
  "status_int (make_status_response ok msg) = (if ok then 1 else 0)"
  by (simp_all add: status_def status_int_def make_status_response_def)

lemma status_int_status: "status_int r = fst (status r)"
  by (simp add: status_int_def status_def split: any_msg.splits)

end
