(* ===== verification/Utils.thy ===== *)
theory Utils
  imports Prelude
begin

text \<open>
  The helpers of include/utils.h and common/utils.cc: the textual formats of addresses,
  image sources and numbers, and the socket helpers that loop over \<open>send\<close> and \<open>recv\<close>.
  The kernel is a parameter: a schedule of what the successive system calls return.
\<close>

section \<open>Conversions\<close>

text \<open>A \<open>uint32_t\<close> or \<open>size_t\<close> passed where the callee takes an \<open>int\<close> (32 bits).\<close>

definition int_of_u32 :: "u32 \<Rightarrow> int" where
  "int_of_u32 w = sint w"

definition int_of_size :: "nat \<Rightarrow> int" where
  "int_of_size n = sint (of_nat n :: u32)"

lemma int_of_u32_small:
  assumes "unat w < 2 ^ 31"
  shows "int_of_u32 w = int (unat w)"
proof -
  have "int (unat w) < int (2 ^ 31)" using assms by (simp only: of_nat_less_iff)
  then have "uint w < 2 ^ 31" by (simp only: uint_nat of_nat_power of_nat_numeral)
  moreover have "0 \<le> uint w" by simp
  ultimately have "signed_take_bit 31 (uint w) = uint w"
    by (intro signed_take_bit_int_eq_self) linarith+
  then show ?thesis by (simp add: int_of_u32_def sint_uint)
qed

section \<open>Formats\<close>

definition format_id :: "string \<Rightarrow> int \<Rightarrow> int \<Rightarrow> string" where
  "format_id ip lo hi = ip @ '':'' @ show_int lo @ ''-'' @ show_int hi"

definition format_image_source :: "string \<Rightarrow> string \<Rightarrow> string" where
  "format_image_source source_url source_rev = source_url @ ''#'' @ source_rev"

definition format_netaddr :: "string \<Rightarrow> int \<Rightarrow> string" where
  "format_netaddr ip port = ip @ '':'' @ show_int port"

definition format_netaddr_range :: "string \<Rightarrow> int \<Rightarrow> int \<Rightarrow> string" where
  "format_netaddr_range ip port_min port_max = ip @ '':'' @ show_int port_min @ ''-'' @ show_int port_max"

text \<open>
  \<open>format_system_time\<close>: \<open>ctime_r\<close> writes its text and a terminating zero over the front of 50
  blanks, and the string keeps its 50 characters.
\<close>

definition format_system_time :: "string \<Rightarrow> string" where
  "format_system_time ctime = (let t = ctime @ [CHR 0x00] in t @ drop (length t) (replicate 50 (CHR '' '')))"

lemma length_format_system_time: "length ctime = 25 \<Longrightarrow> length (format_system_time ctime) = 50"
  by (simp add: format_system_time_def)

section \<open>Sockets\<close>

definition UNEXPECTED_CLOSE :: int where "UNEXPECTED_CLOSE = -65515"
definition PARSE_ERROR :: int where "PARSE_ERROR = -65516"
definition EAGAIN :: int where "EAGAIN = 11"

text \<open>
  What one system call does: move up to \<open>n\<close> bytes (a value of \<open>0\<close> or an exhausted stream
  is the peer having closed), or fail with an \<open>errno\<close>.
\<close>

datatype io_event = Moved nat | Failed int

text \<open>
  \<open>reliable_send\<close> over a schedule of \<open>send\<close> results: its return value and the bytes that
  went out.  \<open>None\<close> is a call that is still waiting when the schedule ends.
\<close>

fun reliable_send :: "io_event list \<Rightarrow> bytes \<Rightarrow> int \<Rightarrow> (int \<times> bytes) option" where
  "reliable_send [] buffer sz = (if sz > 0 then None else Some (0, []))"
| "reliable_send (ev # evs) buffer sz =
     (if sz > 0 then
        (case ev of
           Failed errno \<Rightarrow>
             if errno = EAGAIN then reliable_send evs buffer sz else Some (errno, [])
         | Moved n \<Rightarrow>
             if n = 0 then Some (UNEXPECTED_CLOSE, [])
             else let ret = min n (nat sz) in
               map_option (\<lambda>(code, out). (code, take ret buffer @ out))
                 (reliable_send evs (drop ret buffer) (sz - int ret)))
      else Some (0, []))"

text \<open>
  \<open>reliable_recv\<close> from a byte stream: its return value, the bytes stored, and the schedule
  and the stream that are left.
\<close>

fun reliable_recv :: "io_event list \<Rightarrow> bytes \<Rightarrow> int \<Rightarrow> (int \<times> bytes \<times> io_event list \<times> bytes) option"
where
  "reliable_recv [] stream sz = (if sz > 0 then None else Some (0, [], [], stream))"
| "reliable_recv (ev # evs) stream sz =
     (if sz > 0 then
        (case ev of
           Failed errno \<Rightarrow>
             if errno = EAGAIN then reliable_recv evs stream sz
             else Some (errno, [], evs, stream)
         | Moved n \<Rightarrow>
             let got = take (min n (nat sz)) stream in
             if got = [] then Some (UNEXPECTED_CLOSE, [], evs, stream)
             else map_option (\<lambda>(code, out, rest). (code, got @ out, rest))
               (reliable_recv evs (drop (length got) stream) (sz - int (length got))))
      else Some (0, [], ev # evs, stream))"

text \<open>A schedule without errors in which every call moves something.\<close>

fun live :: "io_event \<Rightarrow> bool" where
  "live (Moved n) \<longleftrightarrow> 0 < n"
| "live (Failed e) \<longleftrightarrow> e = EAGAIN"

definition moves :: "io_event list \<Rightarrow> nat" where
  "moves evs = length (filter (\<lambda>ev. ev \<noteq> Failed EAGAIN) evs)"

text \<open>\<open>unix_auth_id\<close>: the peer credentials, or the fallback (0, -1, -1).\<close>

definition unix_auth_id :: "(u32 \<times> u32 \<times> u32) option \<Rightarrow> u32 \<times> u32 \<times> u32" where
  "unix_auth_id peercred = (case peercred of None \<Rightarrow> (0, -1, -1) | Some cred \<Rightarrow> cred)"

text \<open>
  \<open>read_file\<close>: what \<open>stat\<close> says of the size and \<open>fopen\<close>/\<open>fread\<close> of the content.  The string has
  the size \<open>stat\<close> reported, blank where the file is shorter.
\<close>

definition read_file :: "nat option \<Rightarrow> string option \<Rightarrow> string" where
  "read_file st_size contents =
     (case st_size of
        None \<Rightarrow> ''''
      | Some sz \<Rightarrow>
          (case contents of
             Some bs \<Rightarrow> take sz bs @ replicate (sz - length bs) (CHR '' '')
           | None \<Rightarrow> ''''))"

text \<open>
  \<open>get_myip\<close> over the interfaces that \<open>getifaddrs\<close> lists: the name, the address family
  (none when \<open>ifa_addr\<close> is null), and the result of \<open>inet_ntop\<close>.
\<close>

record ifaddr =
  ifa_name :: string
  sa_family :: "int option"
  ntop :: "fault + string"

definition AF_INET :: int where "AF_INET = 2"

fun scan_ifaddrs :: "ifaddr list \<Rightarrow> fault + string" where
  "scan_ifaddrs [] = Inr ''''"
| "scan_ifaddrs (cur # rest) =
     (if ifa_name cur = ''lo'' then scan_ifaddrs rest
      else (case sa_family cur of
              None \<Rightarrow> Inl Null_deref
            | Some fam \<Rightarrow> if fam \<noteq> AF_INET then scan_ifaddrs rest else ntop cur))"

definition get_myip :: "fault + ifaddr list \<Rightarrow> fault + string" where
  "get_myip addrs = (case addrs of Inl e \<Rightarrow> Inl e | Inr l \<Rightarrow> scan_ifaddrs l)"

text \<open>
  \<open>unix_stream_conn\<close> and \<open>unix_stream_listener\<close>, given what \<open>socket\<close>, \<open>connect\<close>, \<open>bind\<close> and
  \<open>listen\<close> return: the descriptor or a negative value, and the descriptors closed on the way.
\<close>

definition SUN_PATH_SIZE :: nat where "SUN_PATH_SIZE = 108"

definition unix_stream_conn :: "int \<Rightarrow> int \<Rightarrow> string \<Rightarrow> int \<times> int list" where
  "unix_stream_conn fd connected path =
     (if fd < 0 then (fd, [])
      else if length path \<ge> SUN_PATH_SIZE then (-1, [fd])
      else if connected < 0 then (-1, [fd])
      else (fd, []))"

definition unix_stream_listener :: "int \<Rightarrow> int \<Rightarrow> int \<Rightarrow> string \<Rightarrow> int \<times> int list" where
  "unix_stream_listener fd bound listening path =
     (if fd < 0 then (fd, [])
      else if length path \<ge> SUN_PATH_SIZE then (-1, [fd])
      else if bound < 0 then (-1, [fd])
      else if listening < 0 then (-1, [fd])
      else (fd, []))"

text \<open>\<open>check_proc\<close>: the target of /proc/pid/exe; a link longer than \<open>lstat\<close> said is rejected.\<close>

definition exe_path :: "u64 \<Rightarrow> string" where
  "exe_path pid = ''/proc/'' @ show_nat (unat pid) @ ''/exe''"

definition check_proc :: "(string \<Rightarrow> nat option) \<Rightarrow> (string \<Rightarrow> string option) \<Rightarrow> bool \<Rightarrow> u64 \<Rightarrow> string" where
  "check_proc lstat_size link_target malloc_ok pid =
     (case lstat_size (exe_path pid) of
        None \<Rightarrow> ''''
      | Some sz \<Rightarrow>
          if \<not> malloc_ok then ''''
          else (case link_target (exe_path pid) of
                  None \<Rightarrow> ''''
                | Some target \<Rightarrow>
                    let linksize = min (length target) (sz + 1) in
                    if linksize > sz then '''' else take linksize target))"

section \<open>Buffers, guards and random numbers\<close>

text \<open>
  The class \<open>Buffer\<close>: \<open>sz\<close> bytes from \<open>new[]\<close>, which are not initialised.  \<open>write_at\<close> is a store
  through a pointer into such an array; a store that leaves the array is the fault
  \<open>Buffer_overrun\<close>.
\<close>

type_synonym buffer = "u8 option list"

definition Buffer :: "nat \<Rightarrow> buffer" where
  "Buffer sz = replicate sz None"

definition write_at :: "nat \<Rightarrow> bytes \<Rightarrow> buffer \<Rightarrow> fault + buffer" where
  "write_at offset data b =
     (if offset + length data \<le> length b
      then Inr (take offset b @ map Some data @ drop (offset + length data) b)
      else Inl Buffer_overrun)"

text \<open>
  The class \<open>Guards\<close>: its destructor runs \<open>f\<close> when the scope of the object ends, here after
  \<open>body\<close>.  The scope of a temporary is the full expression that creates it, so a guard without a
  name runs \<open>f\<close> at once.
\<close>

definition Guards :: "('s \<Rightarrow> 's) \<Rightarrow> ('s \<Rightarrow> 'a \<times> 's) \<Rightarrow> 's \<Rightarrow> 'a \<times> 's" where
  "Guards f body s = (case body s of (r, s1) \<Rightarrow> (r, f s1))"

definition temporary_guard :: "('s \<Rightarrow> 's) \<Rightarrow> 's \<Rightarrow> 's" where
  "temporary_guard f s = snd (Guards f (Pair ()) s)"

lemma temporary_guard_eq [simp]: "temporary_guard f s = f s"
  by (simp add: temporary_guard_def Guards_def)

text \<open>
  \<open>gen_rand_uint64\<close> over the engine and the distribution of the standard library, a function
  that draws an \<open>int64_t\<close> between two bounds and moves the engine on.
\<close>

definition MAX_MSGID :: int where "MAX_MSGID = 2 ^ 60"

definition gen_rand_uint64 :: "(int \<Rightarrow> int \<Rightarrow> 'r \<Rightarrow> int \<times> 'r) \<Rightarrow> 'r \<Rightarrow> u64 \<times> 'r" where
  "gen_rand_uint64 uniform_int gen = (let (x, gen') = uniform_int 1 (MAX_MSGID div 2) gen in (word_of_int x, gen'))"

definition uniform_ok :: "(int \<Rightarrow> int \<Rightarrow> 'r \<Rightarrow> int \<times> 'r) \<Rightarrow> bool" where
  "uniform_ok uniform_int \<longleftrightarrow> (\<forall>a b g. a \<le> b \<longrightarrow> a \<le> fst (uniform_int a b g) \<and> fst (uniform_int a b g) \<le> b)"

section \<open>Lemmas\<close>

lemma length_Buffer [simp]: "length (Buffer sz) = sz"
  by (simp add: Buffer_def)

lemma write_at_fits: "(\<exists>b'. write_at k data b = Inr b') \<longleftrightarrow> k + length data \<le> length b"
  by (simp add: write_at_def)

text \<open>Stores that follow each other fill the front of the array.\<close>

lemma write_at_append:
  "length front = k \<Longrightarrow> length data \<le> length rest \<Longrightarrow>
    write_at k data (map Some front @ rest) = Inr (map Some (front @ data) @ drop (length data) rest)"
  by (simp add: write_at_def)

text \<open>A message id is positive and at most half of \<open>MAX_MSGID\<close>, as an integer of either sign.\<close>

lemma gen_rand_range:
  assumes "uniform_ok uniform_int"
  shows "uint (fst (gen_rand_uint64 uniform_int g)) = fst (uniform_int 1 (MAX_MSGID div 2) g)"
    and "0 < uint (fst (gen_rand_uint64 uniform_int g))"
    and "uint (fst (gen_rand_uint64 uniform_int g)) \<le> MAX_MSGID div 2"
proof -
  let ?x = "fst (uniform_int 1 (MAX_MSGID div 2) g)"
  have x: "1 \<le> ?x" "?x \<le> 2 ^ 59" using assms by (simp_all add: uniform_ok_def MAX_MSGID_def)
  then have "take_bit 64 ?x = ?x" by (intro take_bit_int_eq_self) simp_all
  then show e: "uint (fst (gen_rand_uint64 uniform_int g)) = ?x"
    by (simp add: gen_rand_uint64_def uint_word_of_int take_bit_eq_mod split_beta)
  show "0 < uint (fst (gen_rand_uint64 uniform_int g))"
    "uint (fst (gen_rand_uint64 uniform_int g)) \<le> MAX_MSGID div 2"
    unfolding e using x by (simp_all add: MAX_MSGID_def)
qed

lemma show_int_inj: "0 \<le> a \<Longrightarrow> 0 \<le> b \<Longrightarrow> show_int a = show_int b \<longleftrightarrow> a = b"
  by (auto simp: show_int_def nat_eq_iff2)

lemma show_int_no_sep: "\<not> is_digit c \<Longrightarrow> c \<noteq> CHR ''-'' \<Longrightarrow> c \<notin> set (show_int i)"
  by (auto simp: show_int_def dest: show_nat_digits)

lemma reliable_send_complete:
  assumes "\<forall>ev \<in> set evs. live ev" "length buffer \<le> moves evs"
  shows "reliable_send evs buffer (int (length buffer)) = Some (0, buffer)"
  using assms
proof (induction evs arbitrary: buffer)
  case Nil
  then show ?case by (simp add: moves_def)
next
  case (Cons ev evs)
  show ?case
  proof (cases ev)
    case (Failed e)
    with Cons show ?thesis by (simp add: moves_def)
  next
    case (Moved n)
    let ?k = "min n (length buffer)"
    have "0 < n" using Cons.prems(1) Moved by simp
    show ?thesis
    proof (cases "buffer = []")
      case True
      then show ?thesis by simp
    next
      case False
      with \<open>0 < n\<close> have k: "0 < ?k" "?k \<le> length buffer" by auto
      have "length (drop ?k buffer) \<le> moves evs"
        using Cons.prems(2) Moved k(1) by (simp add: moves_def) linarith
      moreover have "int (length (drop ?k buffer)) = int (length buffer) - int ?k" using k by simp
      ultimately have "reliable_send evs (drop ?k buffer) (int (length buffer) - int ?k)
          = Some (0, drop ?k buffer)"
        using Cons.IH [of "drop ?k buffer"] Cons.prems(1) by simp
      with False Moved \<open>0 < n\<close> show ?thesis by (simp add: Let_def)
    qed
  qed
qed

lemma prefix_take_drop: "prefix out (drop k b) \<Longrightarrow> prefix (take k b @ out) b"
  by (metis append_take_drop_id same_prefix_prefix)

lemma reliable_send_prefix:
  "reliable_send evs buffer sz = Some (code, out) \<Longrightarrow> sz \<le> int (length buffer)
    \<Longrightarrow> Failed 0 \<notin> set evs
    \<Longrightarrow> prefix out buffer \<and> (code = 0 \<longrightarrow> length out = nat sz)"
proof (induction evs buffer sz arbitrary: out rule: reliable_send.induct)
  case (2 ev evs buffer sz)
  show ?case
  proof (cases "sz > 0")
    case True
    show ?thesis
    proof (cases ev)
      case (Failed e)
      with 2 True show ?thesis by (auto split: if_splits)
    next
      case (Moved n)
      let ?k = "min n (nat sz)"
      show ?thesis
      proof (cases "n = 0")
        case True
        with 2 Moved show ?thesis by (auto simp: UNEXPECTED_CLOSE_def split: if_splits)
      next
        case False
        with 2 True Moved obtain out' where
          o: "reliable_send evs (drop ?k buffer) (sz - int ?k) = Some (code, out')"
            "out = take ?k buffer @ out'"
          by (auto simp: Let_def split: if_splits)
        have k: "int ?k \<le> sz" "?k \<le> length buffer" using True "2.prems"(2) by auto
        have "prefix out' (drop ?k buffer) \<and> (code = 0 \<longrightarrow> length out' = nat (sz - int ?k))"
          using "2.IH"(1) [OF True Moved False refl o(1)] "2.prems"(2,3) k by simp
        moreover have "?k + nat (sz - int ?k) = nat sz" using k(1) by linarith
        ultimately show ?thesis
          using o(2) k(2) prefix_take_drop [of out' ?k buffer] by simp
      qed
    qed
  next
    case False
    with 2 show ?thesis by simp
  qed
qed (auto split: if_splits)

lemma reliable_recv_complete:
  assumes "\<forall>ev \<in> set evs. live ev" "n \<le> moves evs" "n \<le> length stream"
  shows "\<exists>evs'. reliable_recv evs stream (int n) = Some (0, take n stream, evs', drop n stream)
    \<and> set evs' \<subseteq> set evs \<and> moves evs \<le> moves evs' + n"
  using assms
proof (induction evs arbitrary: stream n)
  case Nil
  then show ?case by (simp add: moves_def)
next
  case (Cons ev evs)
  show ?case
  proof (cases "n = 0")
    case True
    then show ?thesis by simp
  next
    case n: False
    show ?thesis
    proof (cases ev)
      case (Failed e)
      then have "e = EAGAIN" "moves (ev # evs) = moves evs" using Cons.prems(1) by (auto simp: moves_def)
      with Failed n Cons.IH [of n stream] Cons.prems show ?thesis by auto
    next
      case (Moved k)
      let ?j = "min k n"
      have j: "0 < ?j" "?j \<le> n" "?j \<le> length stream" using Cons.prems Moved n by auto
      have mv: "moves (ev # evs) = Suc (moves evs)" using Moved by (simp add: moves_def)
      have got: "length (take ?j stream) = ?j" "take ?j stream \<noteq> []" using j by auto
      have "\<exists>evs'. reliable_recv evs (drop ?j stream) (int (n - ?j))
          = Some (0, take (n - ?j) (drop ?j stream), evs', drop (n - ?j) (drop ?j stream))
          \<and> set evs' \<subseteq> set evs \<and> moves evs \<le> moves evs' + (n - ?j)"
        using Cons.IH [of "n - ?j" "drop ?j stream"] Cons.prems mv j by auto
      then obtain evs' where evs': "reliable_recv evs (drop ?j stream) (int (n - ?j))
          = Some (0, take (n - ?j) (drop ?j stream), evs', drop (n - ?j) (drop ?j stream))"
        "set evs' \<subseteq> set evs" "moves evs \<le> moves evs' + (n - ?j)" by blast
      have "int n - int ?j = int (n - ?j)" using j(2) by simp
      moreover have "take ?j stream @ take (n - ?j) (drop ?j stream) = take n stream"
        using j(2) by (metis le_add_diff_inverse take_add)
      moreover have "drop (n - ?j) (drop ?j stream) = drop n stream" using j(2) by simp
      ultimately have "reliable_recv (ev # evs) stream (int n) = Some (0, take n stream, evs', drop n stream)"
        using Moved n got evs'(1) by (simp add: Let_def)
      moreover have "moves (ev # evs) \<le> moves evs' + n" using mv evs'(3) j by linarith
      ultimately show ?thesis using evs'(2) by auto
    qed
  qed
qed

lemma reliable_recv_Moved:
  assumes "0 < sz" "got = take (min n (nat sz)) stream"
  shows "reliable_recv (Moved n # evs) stream sz =
    (if got = [] then Some (UNEXPECTED_CLOSE, [], evs, stream)
     else map_option (\<lambda>(code, out, rest). (code, got @ out, rest))
       (reliable_recv evs (drop (length got) stream) (sz - int (length got))))"
  unfolding assms(2) using assms(1) by (simp add: Let_def)

text \<open>Whatever the kernel does, no more bytes are stored than were asked for.\<close>

lemma reliable_recv_bound:
  "reliable_recv evs stream sz = Some (code, out, rest) \<Longrightarrow> length out \<le> nat sz"
proof (induction evs stream sz arbitrary: out rule: reliable_recv.induct)
  case (2 ev evs stream sz)
  show ?case
  proof (cases "0 < sz")
    case True
    show ?thesis
    proof (cases ev)
      case (Failed e)
      with 2 True show ?thesis by (auto split: if_splits)
    next
      case (Moved n)
      define got where "got = take (min n (nat sz)) stream"
      show ?thesis
      proof (cases "got = []")
        case False
        with "2.prems" Moved reliable_recv_Moved [OF True got_def, of evs] obtain out' where
          o: "reliable_recv evs (drop (length got) stream) (sz - int (length got)) = Some (code, out', rest)"
            "out = got @ out'"
          by (auto simp del: reliable_recv.simps)
        have "length out' \<le> nat (sz - int (length got))"
          using "2.IH"(1) [OF True Moved got_def False o(1)] .
        then show ?thesis using o(2) True by (auto simp: got_def)
      qed (use "2.prems" Moved reliable_recv_Moved [OF True got_def, of evs] in
        \<open>simp del: reliable_recv.simps\<close>)
    qed
  qed (use 2 in simp)
qed (auto split: if_splits)

lemma reliable_recv_split:
  "reliable_recv evs stream sz = Some (code, out, evs', rest) \<Longrightarrow> Failed 0 \<notin> set evs
    \<Longrightarrow> stream = out @ rest \<and> (code = 0 \<longrightarrow> length out = nat sz) \<and> set evs' \<subseteq> set evs"
proof (induction evs stream sz arbitrary: out rule: reliable_recv.induct)
  case (2 ev evs stream sz)
  show ?case
  proof (cases "sz > 0")
    case True
    show ?thesis
    proof (cases ev)
      case (Failed e)
      with 2 True show ?thesis by (auto split: if_splits)
    next
      case (Moved n)
      define got where "got = take (min n (nat sz)) stream"
      have k: "int (length got) \<le> sz" "got @ drop (length got) stream = stream"
        using True by (auto simp: got_def min_def)
      note step = reliable_recv_Moved [OF True got_def, of evs]
      show ?thesis
      proof (cases "got = []")
        case nil: True
        with "2.prems" step Moved show ?thesis by (auto simp: UNEXPECTED_CLOSE_def)
      next
        case False
        with "2.prems"(1) Moved step
        have "map_option (\<lambda>(code, out, rest). (code, got @ out, rest))
            (reliable_recv evs (drop (length got) stream) (sz - int (length got)))
          = Some (code, out, evs', rest)" by (simp del: reliable_recv.simps)
        then obtain out' where
          o: "reliable_recv evs (drop (length got) stream) (sz - int (length got))
            = Some (code, out', evs', rest)" "out = got @ out'"
          by auto
        have "drop (length got) stream = out' @ rest
            \<and> (code = 0 \<longrightarrow> length out' = nat (sz - int (length got))) \<and> set evs' \<subseteq> set evs"
          using "2.IH"(1) [OF True Moved got_def False o(1)] "2.prems"(2) by simp
        moreover have "length got + nat (sz - int (length got)) = nat sz" using k by linarith
        ultimately show ?thesis
          using o(2) k(2) by (metis append.assoc length_append set_subset_Cons subset_trans)
      qed
    qed
  next
    case False
    with 2 show ?thesis by simp
  qed
qed (auto split: if_splits)

text \<open>
  C30.  \<open>reliable_send\<close>: whatever the kernel does (short writes, \<open>EAGAIN\<close>, errors, a closed
  peer), the bytes that went out are a prefix of the buffer, and they are the whole buffer
  when it returns 0; and it does return 0 on every schedule without errors that has a
  moving call per byte.
\<close>

theorem reliable_send_correct:
  assumes "Failed 0 \<notin> set evs"
  shows "(\<forall>code out. reliable_send evs buffer (int (length buffer)) = Some (code, out)
      \<longrightarrow> prefix out buffer \<and> (code = 0 \<longrightarrow> out = buffer))
    \<and> ((\<forall>ev \<in> set evs. live ev) \<longrightarrow> length buffer \<le> moves evs
      \<longrightarrow> reliable_send evs buffer (int (length buffer)) = Some (0, buffer))"
proof (intro conjI allI impI)
  fix code out assume "reliable_send evs buffer (int (length buffer)) = Some (code, out)"
  then have p: "prefix out buffer \<and> (code = 0 \<longrightarrow> length out = length buffer)"
    using reliable_send_prefix [OF _ order_refl assms] by simp
  then show "prefix out buffer" by simp
  show "out = buffer" if "code = 0" using that p by (simp add: prefix_def) fastforce
qed (rule reliable_send_complete)

theorem reliable_send_correct_witness:
  "reliable_send [Moved 2, Failed EAGAIN, Moved 5, Moved 1] [1, 2, 3] 3 = Some (0, [1, 2, 3])"
  using reliable_send_correct [of "[Moved 2, Failed EAGAIN, Moved 5, Moved 1]" "[1, 2, 3]"]
  by (simp add: EAGAIN_def moves_def)

text \<open>
  C31.  \<open>reliable_recv\<close>: whatever the kernel does, the bytes stored and the bytes left are the
  stream in order, so nothing is lost or duplicated; when it returns 0 it has stored exactly
  the number asked for; and it does return 0 on a live schedule when the stream has them.
\<close>

theorem reliable_recv_correct:
  assumes "Failed 0 \<notin> set evs"
  shows "(\<forall>code out evs' rest. reliable_recv evs stream (int n) = Some (code, out, evs', rest)
      \<longrightarrow> stream = out @ rest \<and> (code = 0 \<longrightarrow> length out = n))
    \<and> ((\<forall>ev \<in> set evs. live ev) \<longrightarrow> n \<le> moves evs \<longrightarrow> n \<le> length stream
      \<longrightarrow> (\<exists>evs'. reliable_recv evs stream (int n) = Some (0, take n stream, evs', drop n stream)))"
  using reliable_recv_split [OF _ assms, of stream "int n"] reliable_recv_complete [of evs n stream]
  by fastforce

theorem reliable_recv_correct_witness:
  "\<exists>evs'. reliable_recv [Moved 2, Failed EAGAIN, Moved 5, Moved 1] [1, 2, 3, 4] 3 = Some (0, [1, 2, 3], evs', [4])"
  using reliable_recv_correct [of "[Moved 2, Failed EAGAIN, Moved 5, Moved 1]" "[1, 2, 3, 4]" 3]
  by (simp add: EAGAIN_def moves_def)

end
