(* ===== verification/Comm.thy ===== *)
theory Comm
  imports Proto Utils
begin

text \<open>
  The framing of include/comm.h: a header of two little-endian 32-bit words, the size of the
  payload and a magic number, followed by the serialised message.  The protobuf library is
  the parameter \<open>proto_lib\<close>; \<open>proto_lib_ok\<close> states what its documentation promises.
\<close>

section \<open>The protobuf library\<close>

record proto_lib =
  write_le32 :: "u32 \<Rightarrow> bytes"
  read_le32 :: "bytes \<Rightarrow> u32"
  ser_command :: "Command \<Rightarrow> bytes"
  parse_command :: "bytes \<Rightarrow> Command option"
  ser_response :: "Response \<Rightarrow> bytes"
  parse_response :: "bytes \<Rightarrow> Response option"

definition le32_ok :: "proto_lib \<Rightarrow> bool" where
  "le32_ok lib \<longleftrightarrow> (\<forall>w. length (write_le32 lib w) = 4) \<and> (\<forall>w rest. read_le32 lib (write_le32 lib w @ rest) = w)"

text \<open>A message that is serialised to at most \<open>2^31 - 9\<close> bytes and parses back to itself.\<close>

definition round_trips :: "('m \<Rightarrow> bytes) \<Rightarrow> (bytes \<Rightarrow> 'm option) \<Rightarrow> 'm \<Rightarrow> bool" where
  "round_trips ser par msg \<longleftrightarrow> par (ser msg) = Some msg \<and> length (ser msg) + 8 < 2 ^ 31"

section \<open>Sending and receiving\<close>

definition COMM_HEADER_SZ :: nat where "COMM_HEADER_SZ = 8"
definition PROTO_MAGIC :: u32 where "PROTO_MAGIC = 0x1987"
definition RECV_BUFSZ :: nat where "RECV_BUFSZ = 8192"
definition SEND_BUFSZ :: nat where "SEND_BUFSZ = 8192"
definition DEFAULT_SPEAKER :: string where "DEFAULT_SPEAKER = ''default-speaker''"

definition frame :: "proto_lib \<Rightarrow> bytes \<Rightarrow> bytes" where
  "frame lib payload =
     write_le32 lib (of_nat (length payload)) @ write_le32 lib PROTO_MAGIC @ payload"

definition proto_send_msg ::
  "proto_lib \<Rightarrow> ('m \<Rightarrow> bytes) \<Rightarrow> io_event list \<Rightarrow> 'm \<Rightarrow> (int \<times> bytes) option" where
  "proto_send_msg lib ser evs cmd =
     (let buffer = frame lib (ser cmd) in reliable_send evs buffer (int_of_size (length buffer)))"

text \<open>
  The stores with which \<open>proto_send_msg\<close> fills its buffer, in their order: the size, the magic
  number, the message.
\<close>

definition fill_frame :: "proto_lib \<Rightarrow> bytes \<Rightarrow> buffer \<Rightarrow> fault + buffer" where
  "fill_frame lib payload b =
     (case write_at 0 (write_le32 lib (of_nat (length payload))) b of
        Inl f \<Rightarrow> Inl f
      | Inr b1 \<Rightarrow>
          (case write_at 4 (write_le32 lib PROTO_MAGIC) b1 of
             Inl f \<Rightarrow> Inl f
           | Inr b2 \<Rightarrow> write_at 8 payload b2))"

text \<open>
  \<open>proto_recv_msg\<close>: the return code and the message, and the schedule and stream left.  The
  bytes received are stored in an array of 8 bytes and then in a \<open>Buffer\<close> of \<open>size + 1\<close> bytes, a
  sum of 32-bit words that is 0 for the largest size.  A size of 2^31 or more is negative as an
  \<open>int\<close>: nothing is received and an uninitialised buffer is handed to the parser with a
  negative length.
\<close>

definition proto_recv_msg ::
  "proto_lib \<Rightarrow> (bytes \<Rightarrow> 'm option) \<Rightarrow> io_event list \<Rightarrow> bytes
    \<Rightarrow> (fault + int \<times> 'm option \<times> io_event list \<times> bytes) option" where
  "proto_recv_msg lib par evs stream =
     (case reliable_recv evs stream (int COMM_HEADER_SZ) of
        None \<Rightarrow> None
      | Some (ret, buffer, evs1, stream1) \<Rightarrow>
          (case write_at 0 buffer (Buffer COMM_HEADER_SZ) of
             Inl f \<Rightarrow> Some (Inl f)
           | Inr _ \<Rightarrow>
               if ret \<noteq> 0 then Some (Inr (ret, None, evs1, stream1))
               else let sz = read_le32 lib buffer in
                 (case reliable_recv evs1 stream1 (int_of_u32 sz) of
                    None \<Rightarrow> None
                  | Some (ret, buf, evs2, stream2) \<Rightarrow>
                      (case write_at 0 buf (Buffer (unat (sz + 1))) of
                         Inl f \<Rightarrow> Some (Inl f)
                       | Inr _ \<Rightarrow>
                           if ret \<noteq> 0 then Some (Inr (ret, None, evs2, stream2))
                           else if int_of_u32 sz < 0 then Some (Inl Out_of_range)
                           else (case par buf of
                                   None \<Rightarrow> Some (Inr (PARSE_ERROR, None, evs2, stream2))
                                 | Some msg \<Rightarrow> Some (Inr (0, Some msg, evs2, stream2)))))))"

text \<open>\<open>prepare\<close>: the random id is a parameter; \<open>pid\<close>, \<open>uid\<close> and \<open>gid\<close> stay 0.\<close>

definition prepare :: "u64 \<Rightarrow> command_type \<Rightarrow> any_msg \<Rightarrow> string \<Rightarrow> Command" where
  "prepare rand t stmt auth =
     \<lparr>cmd_id = rand, cmd_type = type_value t, cmd_auth = auth, cmd_pid = 0, cmd_uid = 0, cmd_gid = 0,
      statement = stmt\<rparr>"

section \<open>Lemmas\<close>

lemma int_of_size_small: "n < 2 ^ 31 \<Longrightarrow> int_of_size n = int n"
proof -
  assume n: "n < 2 ^ 31"
  then have "unat (of_nat n :: u32) = n" by (simp add: unat_of_nat)
  with n int_of_u32_small [of "of_nat n :: u32"] show ?thesis
    by (simp add: int_of_size_def int_of_u32_def)
qed

lemma unat_u32_less: "unat (w :: u32) < 2 ^ 32"
proof -
  have "unat w < 2 ^ LENGTH(32)" by (rule unsigned_less)
  then show ?thesis by simp
qed

lemma int_of_u32_negative:
  assumes "2 ^ 31 \<le> unat w" shows "int_of_u32 w < 0"
proof -
  have "unat w < 2 ^ 32" by (rule unat_u32_less)
  then have "unat w div 2 ^ 31 = 1" using assms by (intro div_nat_eqI) simp_all
  then have "bit (unat w) 31" by (simp add: bit_iff_odd)
  then have "bit (uint w) 31" by (simp add: bit_unsigned_iff)
  then show ?thesis by (simp add: int_of_u32_def sint_uint)
qed

text \<open>The two arrays of \<open>proto_recv_msg\<close> hold what is stored in them, also where \<open>size + 1\<close> wraps.\<close>

lemma recv_size_fits: "nat (int_of_u32 sz) \<le> unat (sz + 1)"
proof (cases "unat sz < 2 ^ 31")
  case True
  then have "sz + 1 \<noteq> 0" by (auto simp: word_unat_eq_iff unat_word_ariths)
  then have "unat (sz + 1) = Suc (unat sz)" using unatSuc [of sz] by (simp add: add.commute)
  with True show ?thesis by (simp add: int_of_u32_small)
next
  case False
  then have "int_of_u32 sz < 0" by (intro int_of_u32_negative) simp
  then show ?thesis by simp
qed

lemma header_fits:
  "reliable_recv evs stream (int COMM_HEADER_SZ) = Some (ret, buffer, rest) \<Longrightarrow>
    \<exists>b. write_at 0 buffer (Buffer COMM_HEADER_SZ) = Inr b"
  using reliable_recv_bound [of evs stream "int COMM_HEADER_SZ"] by (simp add: write_at_fits)

lemma payload_fits:
  "reliable_recv evs stream (int_of_u32 sz) = Some (ret, buf, rest) \<Longrightarrow>
    \<exists>b. write_at 0 buf (Buffer (unat (sz + 1))) = Inr b"
  using reliable_recv_bound [of evs stream "int_of_u32 sz"] recv_size_fits [of sz]
  by (fastforce simp: write_at_fits)

lemma proto_recv_msg_eq:
  "proto_recv_msg lib par evs stream =
     (case reliable_recv evs stream (int COMM_HEADER_SZ) of
        None \<Rightarrow> None
      | Some (ret, buffer, evs1, stream1) \<Rightarrow>
          if ret \<noteq> 0 then Some (Inr (ret, None, evs1, stream1))
          else let sz = read_le32 lib buffer in
            (case reliable_recv evs1 stream1 (int_of_u32 sz) of
               None \<Rightarrow> None
             | Some (ret, buf, evs2, stream2) \<Rightarrow>
                 if ret \<noteq> 0 then Some (Inr (ret, None, evs2, stream2))
                 else if int_of_u32 sz < 0 then Some (Inl Out_of_range)
                 else (case par buf of
                         None \<Rightarrow> Some (Inr (PARSE_ERROR, None, evs2, stream2))
                       | Some msg \<Rightarrow> Some (Inr (0, Some msg, evs2, stream2)))))"
proof (cases "reliable_recv evs stream (int COMM_HEADER_SZ)")
  case (Some hdr)
  obtain ret buffer evs1 stream1 where h: "hdr = (ret, buffer, evs1, stream1)" by (cases hdr)
  obtain b where b: "write_at 0 buffer (Buffer COMM_HEADER_SZ) = Inr b" using header_fits Some h by blast
  show ?thesis
  proof (cases "reliable_recv evs1 stream1 (int_of_u32 (read_le32 lib buffer))")
    case (Some msg)
    obtain ret' buf evs2 stream2 where m: "msg = (ret', buf, evs2, stream2)" by (cases msg)
    obtain b' where "write_at 0 buf (Buffer (unat (read_le32 lib buffer + 1))) = Inr b'"
      using payload_fits Some m by blast
    with Some m b h \<open>reliable_recv evs stream _ = _\<close> show ?thesis by (simp add: proto_recv_msg_def Let_def)
  qed (use Some h b in \<open>simp add: proto_recv_msg_def Let_def\<close>)
qed (simp add: proto_recv_msg_def)

lemma length_frame: "le32_ok lib \<Longrightarrow> length (frame lib payload) = 8 + length payload"
  by (simp add: frame_def le32_ok_def)

lemma frame_header:
  assumes "le32_ok lib" "length payload < 2 ^ 31"
  shows "take 8 (frame lib payload @ rest) = write_le32 lib (of_nat (length payload)) @ write_le32 lib PROTO_MAGIC"
    and "drop 8 (frame lib payload @ rest) = payload @ rest"
    and "read_le32 lib (take 8 (frame lib payload @ rest)) = of_nat (length payload)"
    and "int_of_u32 (of_nat (length payload)) = int (length payload)"
proof -
  show t: "take 8 (frame lib payload @ rest) = write_le32 lib (of_nat (length payload)) @ write_le32 lib PROTO_MAGIC"
    and "drop 8 (frame lib payload @ rest) = payload @ rest"
    using assms(1) by (simp_all add: frame_def le32_ok_def)
  show "read_le32 lib (take 8 (frame lib payload @ rest)) = of_nat (length payload)"
    unfolding t using assms(1) by (simp add: le32_ok_def)
  show "int_of_u32 (of_nat (length payload)) = int (length payload)"
    using int_of_size_small [OF assms(2)] by (simp add: int_of_size_def int_of_u32_def)
qed

lemma proto_send_complete:
  assumes "le32_ok lib" "round_trips ser par cmd" "\<forall>ev \<in> set evs. live ev" "length (ser cmd) + 8 \<le> moves evs"
  shows "proto_send_msg lib ser evs cmd = Some (0, frame lib (ser cmd))"
proof -
  have "length (frame lib (ser cmd)) < 2 ^ 31"
    using assms by (simp add: length_frame round_trips_def)
  with assms reliable_send_complete [of evs "frame lib (ser cmd)"] show ?thesis
    by (simp add: proto_send_msg_def Let_def int_of_size_small length_frame add.commute)
qed

lemma proto_recv_complete:
  assumes "le32_ok lib" "round_trips ser par msg" "\<forall>ev \<in> set evs. live ev" "length (ser msg) + 8 \<le> moves evs"
  shows "\<exists>evs'. proto_recv_msg lib par evs (frame lib (ser msg) @ rest) = Some (Inr (0, Some msg, evs', rest))
    \<and> set evs' \<subseteq> set evs \<and> moves evs \<le> moves evs' + (length (ser msg) + 8)"
proof -
  let ?s = "frame lib (ser msg) @ rest"
  have small: "length (ser msg) < 2 ^ 31" and par: "par (ser msg) = Some msg"
    using assms(2) by (simp_all add: round_trips_def)
  have "8 \<le> length ?s" using assms(1) by (simp add: length_frame)
  then obtain evs1 where r1: "reliable_recv evs ?s 8 = Some (0, take 8 ?s, evs1, drop 8 ?s)"
    "set evs1 \<subseteq> set evs" "moves evs \<le> moves evs1 + 8"
    using reliable_recv_complete [of evs 8 ?s] assms(3,4) by auto
  have "\<forall>ev \<in> set evs1. live ev" using r1(2) assms(3) by auto
  then obtain evs2 where r2: "reliable_recv evs1 (ser msg @ rest) (int (length (ser msg))) =
      Some (0, ser msg, evs2, rest)"
    "set evs2 \<subseteq> set evs1" "moves evs1 \<le> moves evs2 + length (ser msg)"
    using reliable_recv_complete [of evs1 "length (ser msg)" "ser msg @ rest"] r1(3) assms(4) by auto
  have "proto_recv_msg lib par evs ?s = Some (Inr (0, Some msg, evs2, rest))"
    using r1(1) r2(1) par frame_header(2,3) [OF assms(1) small, of rest] frame_header(4) [OF assms(1) small]
    by (simp add: proto_recv_msg_eq COMM_HEADER_SZ_def Let_def)
  with r1 r2 show ?thesis by auto
qed

lemma fill_frame_array:
  assumes "le32_ok lib" "length payload + 8 \<le> length b"
  shows "fill_frame lib payload b = Inr (map Some (frame lib payload) @ drop (length payload + 8) b)"
proof -
  let ?n = "write_le32 lib (of_nat (length payload))" and ?m = "write_le32 lib PROTO_MAGIC"
  have len: "length ?n = 4" "length ?m = 4" using assms(1) by (simp_all add: le32_ok_def)
  have "write_at 0 ?n b = Inr (map Some ?n @ drop 4 b)"
    using write_at_append [of "[]" 0 ?n b] assms(2) len by simp
  moreover have "write_at 4 ?m (map Some ?n @ drop 4 b) = Inr (map Some (?n @ ?m) @ drop 8 b)"
    using write_at_append [of ?n 4 ?m "drop 4 b"] assms(2) len by simp
  moreover have "write_at 8 payload (map Some (?n @ ?m) @ drop 8 b) =
      Inr (map Some ((?n @ ?m) @ payload) @ drop (length payload + 8) b)"
    using write_at_append [of "?n @ ?m" 8 payload "drop 8 b"] assms(2) len by (simp add: add.commute)
  ultimately show ?thesis by (simp add: fill_frame_def frame_def)
qed

section \<open>The contract of a transport\<close>

text \<open>
  What the two ends of a connection rely on: a receiver that is fed the encoding of a message
  and then other bytes returns the message and leaves the other bytes.  \<open>ready q n\<close> says that the
  receiver's state \<open>q\<close> lets \<open>n\<close> more bytes through.
\<close>

fun receive_many ::
  "('q \<Rightarrow> bytes \<Rightarrow> ('m \<times> 'q \<times> bytes) option) \<Rightarrow> nat \<Rightarrow> 'q \<Rightarrow> bytes \<Rightarrow> ('m list \<times> 'q \<times> bytes) option" where
  "receive_many recv 0 q stream = Some ([], q, stream)"
| "receive_many recv (Suc n) q stream =
     (case recv q stream of
        None \<Rightarrow> None
      | Some (m, q1, stream1) \<Rightarrow>
          map_option (\<lambda>(ms, q2, stream2). (m # ms, q2, stream2)) (receive_many recv n q1 stream1))"

locale message_transport =
  fixes wire :: "'m \<Rightarrow> bytes"
    and recv :: "'q \<Rightarrow> bytes \<Rightarrow> ('m \<times> 'q \<times> bytes) option"
    and sendable :: "'m \<Rightarrow> bool"
    and ready :: "'q \<Rightarrow> nat \<Rightarrow> bool"
  assumes recv_wire:
    "sendable m \<Longrightarrow> ready q (length (wire m) + n) \<Longrightarrow> \<exists>q'. recv q (wire m @ rest) = Some (m, q', rest) \<and> ready q' n"
    and ready_exists: "\<exists>q. ready q n"
    and wire_nonempty: "sendable m \<Longrightarrow> wire m \<noteq> []"
begin

text \<open>Messages that are sent back to back are received in order.\<close>

lemma recv_sequence:
  "\<forall>m \<in> set ms. sendable m \<Longrightarrow> ready q (length (concat (map wire ms)) + n) \<Longrightarrow>
    \<exists>q'. receive_many recv (length ms) q (concat (map wire ms) @ rest) = Some (ms, q', rest) \<and> ready q' n"
proof (induction ms arbitrary: q)
  case (Cons m ms)
  let ?k = "length (concat (map wire ms)) + n"
  from Cons.prems recv_wire [of m q ?k "concat (map wire ms) @ rest"] obtain q1 where
    q1: "recv q (wire m @ concat (map wire ms) @ rest) = Some (m, q1, concat (map wire ms) @ rest)" "ready q1 ?k"
    by (auto simp: add.assoc)
  with Cons.IH [of q1] Cons.prems(1) show ?case by auto
qed simp

text \<open>No two sequences of messages have the same bytes, so a stream of messages has one reading.\<close>

lemma wire_prefix_free:
  assumes "sendable m" "sendable m'" "wire m @ rest = wire m' @ rest'"
  shows "m = m' \<and> rest = rest'"
proof -
  obtain q where q: "ready q (length (wire m) + length (wire m'))" using ready_exists by blast
  then have q': "ready q (length (wire m') + length (wire m))" by (simp only: add.commute)
  from recv_wire [OF assms(1) q, of rest] recv_wire [OF assms(2) q', of rest'] show ?thesis
    unfolding assms(3) by auto
qed

lemma wires_unambiguous:
  "\<forall>m \<in> set ms \<union> set ms'. sendable m \<Longrightarrow> concat (map wire ms) = concat (map wire ms') \<Longrightarrow> ms = ms'"
proof (induction ms arbitrary: ms')
  case Nil
  then show ?case by (cases ms') (auto simp: wire_nonempty)
next
  case (Cons m ms)
  have "wire m \<noteq> []" using Cons.prems(1) by (simp add: wire_nonempty)
  with Cons.prems(2) obtain m' ms'' where ms': "ms' = m' # ms''" by (cases ms') simp_all
  with Cons.prems have "m = m' \<and> concat (map wire ms) = concat (map wire ms'')"
    by (intro wire_prefix_free) auto
  with Cons.IH [of ms''] Cons.prems(1) ms' show ?case by auto
qed

end

text \<open>\<open>proto_recv_msg\<close> as a receiver: it has a message when it returns 0.\<close>

definition received :: "proto_lib \<Rightarrow> (bytes \<Rightarrow> 'm option) \<Rightarrow> io_event list \<Rightarrow> bytes \<Rightarrow> ('m \<times> io_event list \<times> bytes) option" where
  "received lib par evs stream =
     (case proto_recv_msg lib par evs stream of
        Some (Inr (ret, Some msg, evs', rest)) \<Rightarrow> if ret = 0 then Some (msg, evs', rest) else None
      | _ \<Rightarrow> None)"

definition lets_through :: "io_event list \<Rightarrow> nat \<Rightarrow> bool" where
  "lets_through evs n \<longleftrightarrow> list_all live evs \<and> n \<le> moves evs"

interpretation framed: message_transport "\<lambda>m. frame lib (ser m)" "received lib par"
    "\<lambda>m. le32_ok lib \<and> round_trips ser par m" lets_through
  for lib :: proto_lib and ser :: "'m \<Rightarrow> bytes" and par :: "bytes \<Rightarrow> 'm option"
proof
  fix m q n rest
  assume m: "le32_ok lib \<and> round_trips ser par m" and q: "lets_through q (length (frame lib (ser m)) + n)"
  then obtain evs' where "proto_recv_msg lib par q (frame lib (ser m) @ rest) = Some (Inr (0, Some m, evs', rest))"
    "set evs' \<subseteq> set q" "moves q \<le> moves evs' + (length (ser m) + 8)"
    using proto_recv_complete [of lib ser par m q rest] by (auto simp: lets_through_def list_all_iff length_frame)
  with m q show "\<exists>q'. received lib par q (frame lib (ser m) @ rest) = Some (m, q', rest) \<and> lets_through q' n"
    by (auto simp: received_def lets_through_def list_all_iff length_frame)
next
  fix n show "\<exists>q. lets_through q n"
    by (rule exI [of _ "replicate n (Moved 1)"]) (simp add: lets_through_def moves_def list_all_iff)
next
  fix m assume "le32_ok lib \<and> round_trips ser par m"
  then have "length (frame lib (ser m)) \<noteq> 0" by (simp add: length_frame)
  then show "frame lib (ser m) \<noteq> []" by auto
qed

section \<open>Properties\<close>

text \<open>A library with 4-byte little-endian words that knows one command and one response.\<close>

definition demo_lib :: "Command \<Rightarrow> Response \<Rightarrow> nat \<Rightarrow> proto_lib" where
  "demo_lib c r n =
     \<lparr>write_le32 = (\<lambda>w. let k = unat w in
        [of_nat (k mod 256), of_nat (k div 256 mod 256), of_nat (k div 256 div 256 mod 256),
         of_nat (k div 256 div 256 div 256 mod 256)]),
      read_le32 = (\<lambda>bs. of_nat (unat (bs ! 0) + 256 * (unat (bs ! 1) + 256 * (unat (bs ! 2) + 256 * unat (bs ! 3))))),
      ser_command = (\<lambda>_. replicate n 1), parse_command = (\<lambda>_. Some c),
      ser_response = (\<lambda>_. replicate n 2), parse_response = (\<lambda>_. Some r)\<rparr>"

lemma base256:
  fixes k :: nat assumes "k < 2 ^ 32"
  shows "k mod 256 + 256 * (k div 256 mod 256 + 256 * (k div 256 div 256 mod 256
    + 256 * (k div 256 div 256 div 256 mod 256))) = k"
proof -
  have "k div 256 div 256 div 256 < 256"
    using assms by (simp add: less_mult_imp_div_less)
  then show ?thesis by (simp only: mod_less mod_mult_div_eq)
qed

lemma demo_lib_le32: "le32_ok (demo_lib c r n)"
proof -
  have u8: "unat (of_nat (k mod 256) :: u8) = k mod 256" for k by (simp add: unat_of_nat)
  have "unat w < 2 ^ 32" for w :: u32 by (rule unat_u32_less)
  then show ?thesis
    by (simp add: le32_ok_def demo_lib_def Let_def u8 base256 del: of_nat_add of_nat_mult distrib_left_numeral)
qed

lemma demo_lib_round_trips:
  "n + 8 < 2 ^ 31 \<Longrightarrow> round_trips (ser_command (demo_lib c r n)) (parse_command (demo_lib c r n)) c"
  "n + 8 < 2 ^ 31 \<Longrightarrow> round_trips (ser_response (demo_lib c r n)) (parse_response (demo_lib c r n)) r"
  by (simp_all add: round_trips_def demo_lib_def)

text \<open>
  C10.  Messages sent with \<open>proto_send_msg\<close> one after the other over a connection that makes
  progress are received by \<open>proto_recv_msg\<close> unchanged and in order, every call returns 0,
  whatever the chunks in which the kernel moves the bytes, and the bytes that follow them on
  the stream are left for the next message.
\<close>

theorem framing_round_trip:
  assumes "le32_ok lib"
    and "\<forall>(evs, m) \<in> set calls. round_trips ser par m \<and> lets_through evs (length (ser m) + 8)"
    and "lets_through evs' (sum_list (map (\<lambda>(evs, m). length (ser m) + 8) calls))"
  shows "\<exists>wires evs2. map (\<lambda>(evs, m). proto_send_msg lib ser evs m) calls = map (\<lambda>w. Some (0, w)) wires
    \<and> receive_many (received lib par) (length calls) evs' (concat wires @ rest) = Some (map snd calls, evs2, rest)"
proof -
  let ?wires = "map (\<lambda>c. frame lib (ser (snd c))) calls"
  have sent: "proto_send_msg lib ser evs m = Some (0, frame lib (ser m))" if "(evs, m) \<in> set calls" for evs m
    using that assms(1,2) by (intro proto_send_complete) (auto simp: lets_through_def list_all_iff)
  have "length (concat ?wires) = sum_list (map (\<lambda>(evs, m). length (ser m) + 8) calls)"
    using assms(1) by (simp add: length_concat o_def length_frame case_prod_unfold add.commute)
  moreover have "\<forall>m \<in> set (map snd calls). le32_ok lib \<and> round_trips ser par m" using assms(1,2) by fastforce
  ultimately have "\<exists>evs2. receive_many (received lib par) (length calls) evs' (concat ?wires @ rest) = Some (map snd calls, evs2, rest)"
    using framed.recv_sequence [of "map snd calls" lib ser par evs' 0 rest] assms(3) by (auto simp: o_def)
  moreover have "map (\<lambda>(evs, m). proto_send_msg lib ser evs m) calls = map (\<lambda>w. Some (0, w)) ?wires"
    using sent by (simp add: o_def case_prod_unfold)
  ultimately show ?thesis by blast
qed

text \<open>A library that knows the commands that differ from a given one only in a one-byte id.\<close>

definition demo_ids :: "Command \<Rightarrow> Response \<Rightarrow> proto_lib" where
  "demo_ids c r = (demo_lib c r 1)
     \<lparr>ser_command := (\<lambda>c. [ucast (cmd_id c)]), parse_command := (\<lambda>bs. Some (c\<lparr>cmd_id := ucast (hd bs)\<rparr>))\<rparr>"

theorem framing_round_trip_witness:
  defines "cmd \<equiv> (\<lambda>i. prepare i REVOKE Any_Empty ''me'')"
    and "lib \<equiv> demo_ids (prepare 0 REVOKE Any_Empty ''me'') not_implemented"
  shows "\<exists>wires evs2. map (\<lambda>(evs, m). proto_send_msg lib (ser_command lib) evs m)
        [(replicate 9 (Moved 1), cmd 1), (Failed EAGAIN # replicate 9 (Moved 4), cmd 2)] = map (\<lambda>w. Some (0, w)) wires
    \<and> receive_many (received lib (parse_command lib)) 2 (replicate 18 (Moved 3)) (concat wires @ [9])
        = Some ([cmd 1, cmd 2], evs2, [9])"
proof -
  have "le32_ok lib"
    using demo_lib_le32 [of "prepare 0 REVOKE Any_Empty ''me''" not_implemented 1]
    by (simp add: lib_def demo_ids_def le32_ok_def)
  moreover have "round_trips (ser_command lib) (parse_command lib) (cmd 1)"
    "round_trips (ser_command lib) (parse_command lib) (cmd 2)"
    by (simp_all add: round_trips_def lib_def cmd_def demo_ids_def prepare_def)
  ultimately show ?thesis
    using framing_round_trip [of lib "[(replicate 9 (Moved 1), cmd 1), (Failed EAGAIN # replicate 9 (Moved 4), cmd 2)]"
        "ser_command lib" "parse_command lib" "replicate 18 (Moved 3)" "[9]"]
    by (simp add: lets_through_def moves_def list_all_iff lib_def demo_ids_def numeral_2_eq_2)
qed



end
