(* ===== verification/Metadata.thy ===== *)
theory Metadata
  imports Utils
begin

text \<open>
  \<open>MetadataServiceClient\<close> of server/metadata.cc: every operation posts one or two
  statements to the metadata service over HTTP and interprets the answer.  The service and
  the JSON library are the parameter \<open>web\<close>: what a request is answered with, given the
  requests sent before it, how a response body is read as JSON, and what
  \<open>v["message"].as_string()\<close> gives.  The state of the client is the list of the requests
  sent so far; a pplx task chain runs in order, and \<open>wait()\<close> and \<open>get()\<close> rethrow its fault.
\<close>

section \<open>Requests and task chains\<close>

record http_request =
  uri :: string
  principal :: string
  otherValues :: "string list"
  bearerRef :: "string option"

record http_response =
  status_code :: nat
  body :: string

record 'j web =
  request :: "http_request list \<Rightarrow> http_request \<Rightarrow> fault + http_response"
  extract_json :: "string \<Rightarrow> fault + 'j"
  message_string :: "'j \<Rightarrow> fault + string"

type_synonym ('a) posted = "http_request list \<Rightarrow> (fault + 'a) \<times> http_request list"

definition IAAS_IDENTITY :: string where "IAAS_IDENTITY = ''152.3.145.38:444''"
definition ATTEST_IDENTITY :: string where "ATTEST_IDENTITY = ''152.3.145.138:4144''"

definition format_request :: "string \<Rightarrow> string \<Rightarrow> string list \<Rightarrow> string \<Rightarrow> http_request" where
  "format_request api_path speaker statements bearer =
     \<lparr>uri = api_path, principal = speaker, otherValues = statements,
      bearerRef = (if length bearer > 0 then Some bearer else None)\<rparr>"

definition post_statement ::
  "'j web \<Rightarrow> string \<Rightarrow> string \<Rightarrow> string list \<Rightarrow> string \<Rightarrow> http_response posted" where
  "post_statement w api_path speaker statements bearer_ref sent =
     (let r = format_request api_path speaker statements bearer_ref
      in (request w sent r, sent @ [r]))"

text \<open>
  The trace of the requests that \<open>post_statement\<close> keeps in a file: one curl command per request, with
  the address of the service and the path joined by a single slash.  Rendering a request as JSON is
  the library's work (\<open>serialize\<close>).
\<close>

definition full_uri :: "string \<Rightarrow> string \<Rightarrow> string" where
  "full_uri base_uri api_path =
     (let base = (if base_uri \<noteq> [] \<and> last base_uri = CHR ''/'' then butlast base_uri else base_uri)
      in if api_path \<noteq> [] \<and> hd api_path = CHR ''/'' then base @ api_path else base @ ''/'' @ api_path)"

definition trace_line :: "(http_request \<Rightarrow> string) \<Rightarrow> string \<Rightarrow> nat \<Rightarrow> http_request \<Rightarrow> string" where
  "trace_line serialize base_uri counter r =
     ''#'' @ show_nat counter @ '' '' @ [CHR 0x0A] @ ''curl '' @ full_uri base_uri (uri r) @ '' -XPOST -d ''
       @ [CHR 0x27] @ serialize r @ [CHR 0x27, CHR 0x0A, CHR 0x0A]"

definition trace_file :: "(http_request \<Rightarrow> string) \<Rightarrow> string \<Rightarrow> http_request list \<Rightarrow> string" where
  "trace_file serialize base_uri sent =
     concat (map (\<lambda>(n, r). trace_line serialize base_uri n r) (enumerate 0 sent))"

definition consume_status :: "http_response \<Rightarrow> string \<Rightarrow> string" where
  "consume_status res msg =
     (if status_code res \<noteq> 200
      then ''error in '' @ msg @ '':'' @ show_nat (status_code res) @ [CHR 0x0A]
      else '''')"

text \<open>The continuations \<open>json_task\<close> and \<open>sink_task\<close>, applied to a finished task.\<close>

definition json_task :: "'j web \<Rightarrow> string \<Rightarrow> fault + http_response \<Rightarrow> fault + 'j" where
  "json_task w msg t =
     (case t of
        Inl f \<Rightarrow> Inl f
      | Inr res \<Rightarrow>
          if status_code res = 200 then extract_json w (body res)
          else Inl (Runtime_error (consume_status res msg)))"

definition sink_task :: "string \<Rightarrow> fault + http_response \<Rightarrow> fault + unit" where
  "sink_task msg t = (case t of Inl f \<Rightarrow> Inl f | Inr res \<Rightarrow> Inr ())"

definition quote_char :: char where "quote_char = CHR 0x27"

definition extract_safe_identity :: "'j web \<Rightarrow> 'j \<Rightarrow> fault + string" where
  "extract_safe_identity w result =
     (case message_string w result of
        Inl f \<Rightarrow> Inl f
      | Inr wrap \<Rightarrow>
          (case (find_char quote_char wrap, rfind_char quote_char wrap) of
             (Some start, Some end') \<Rightarrow>
               if end' = start
               then Inl (Runtime_error (''ill formed return message, can not find key: '' @ wrap))
               else Inr (take (end' - start - 1) (drop (start + 1) wrap))
           | _ \<Rightarrow> Inl (Runtime_error (''no quote found in message: '' @ wrap))))"

text \<open>
  The last step of the Boolean checks: a \<open>runtime_error\<close> counts as \<open>false\<close>, every other
  exception passes, and the answer is whether the message contains \<open>pat\<close>.
\<close>

definition check_message :: "'j web \<Rightarrow> string \<Rightarrow> fault + 'j \<Rightarrow> fault + bool" where
  "check_message w pat v =
     (case (case v of Inl f \<Rightarrow> Inl f | Inr j \<Rightarrow> message_string w j) of
        Inl (Runtime_error e) \<Rightarrow> Inr False
      | Inl f \<Rightarrow> Inl f
      | Inr msg \<Rightarrow> Inr (contains pat msg))"

text \<open>\<open>.then(json_task(msg)).wait(); return true;\<close>\<close>

definition json_wait :: "'j web \<Rightarrow> string \<Rightarrow> http_response posted \<Rightarrow> bool posted" where
  "json_wait w msg post sent =
     (case post sent of (t, sent') \<Rightarrow>
        (case json_task w msg t of Inl f \<Rightarrow> (Inl f, sent') | Inr j \<Rightarrow> (Inr True, sent')))"

text \<open>\<open>.then(sink_task(msg)).wait();\<close>\<close>

definition sink_wait :: "string \<Rightarrow> http_response posted \<Rightarrow> unit posted" where
  "sink_wait msg post sent = (case post sent of (t, sent') \<Rightarrow> (sink_task msg t, sent'))"

definition check_get :: "'j web \<Rightarrow> string \<Rightarrow> string \<Rightarrow> http_response posted \<Rightarrow> bool posted" where
  "check_get w msg pat post sent =
     (case post sent of (t, sent') \<Rightarrow> (check_message w pat (json_task w msg t), sent'))"

section \<open>Operations\<close>

definition post_new_principal ::
  "'j web \<Rightarrow> string \<Rightarrow> string \<Rightarrow> string \<Rightarrow> int \<Rightarrow> int \<Rightarrow> string \<Rightarrow> string \<Rightarrow> string posted" where
  "post_new_principal w speaker principal_name principal_ip port_min port_max image_hash configs sent =
     (case post_statement w ''/postInstanceSet'' speaker
             [principal_name, image_hash, ''image'',
              format_netaddr_range principal_ip port_min port_max, configs] '''' sent of (t, sent1) \<Rightarrow>
        (case (case json_task w ''creating principal'' t of
                 Inl f \<Rightarrow> Inl f | Inr j \<Rightarrow> extract_safe_identity w j) of
           Inl f \<Rightarrow> (Inl f, sent1)
         | Inr key \<Rightarrow>
             (case post_statement w ''/updateSubjectSet''
                     (format_netaddr_range principal_ip port_min port_max) [key] '''' sent1 of
                (t2, sent2) \<Rightarrow>
                  (case sink_task ''updating subject'' t2 of
                     Inl f \<Rightarrow> (Inl f, sent2) | Inr _ \<Rightarrow> (Inr key, sent2)))))"

definition post_new_image ::
  "'j web \<Rightarrow> string \<Rightarrow> string \<Rightarrow> string \<Rightarrow> string \<Rightarrow> string \<Rightarrow> unit posted" where
  "post_new_image w speaker image_hash source_url source_rev misc_conf sent =
     (case post_statement w ''/postAttesterImage'' speaker [image_hash, misc_conf] '''' sent of
        (Inl f, sent1) \<Rightarrow> (Inl f, sent1)
      | (Inr res, sent1) \<Rightarrow>
          if status_code res = 200
          then sink_wait ''posting image_src''
                 (post_statement w ''/postImageProperty'' IAAS_IDENTITY
                    [image_hash, format_image_source source_url source_rev, misc_conf] '''') sent1
          else (Inl (Runtime_error (consume_status res ''creating image'')), sent1))"

definition post_object_acl :: "'j web \<Rightarrow> string \<Rightarrow> string \<Rightarrow> string \<Rightarrow> unit posted" where
  "post_object_acl w speaker object_id requirement =
     (let actual_id = (if \<not> contains '':'' object_id then speaker @ '':'' @ object_id else object_id)
      in sink_wait ''posting acl''
           (post_statement w ''/postObjectAcl'' speaker [actual_id, requirement] ''''))"

definition endorse_image :: "'j web \<Rightarrow> string \<Rightarrow> string \<Rightarrow> string \<Rightarrow> string \<Rightarrow> unit posted" where
  "endorse_image w speaker image_hash endorsement config =
     sink_wait ''endorsing image''
       (post_statement w ''/postImageProperty'' speaker [image_hash, config, endorsement] '''')"

definition md_endorse_membership ::
  "'j web \<Rightarrow> string \<Rightarrow> string \<Rightarrow> u32 \<Rightarrow> u64 \<Rightarrow> string \<Rightarrow> string \<Rightarrow> unit posted" where
  "md_endorse_membership w speaker ip port gn prop config =
     sink_wait ''updating membership''
       (post_statement w ''/postWorkerSet'' speaker
          [prop, format_netaddr ip (int_of_u32 port), config] '''')"

text \<open>The overload without a generation, which posts the same statement.\<close>

definition md_endorse_membership_no_gn ::
  "'j web \<Rightarrow> string \<Rightarrow> string \<Rightarrow> u32 \<Rightarrow> string \<Rightarrow> string \<Rightarrow> unit posted" where
  "md_endorse_membership_no_gn w speaker ip port prop config =
     sink_wait ''updating membership''
       (post_statement w ''/postWorkerSet'' speaker
          [prop, format_netaddr ip (int_of_u32 port), config] '''')"

definition endorse_builder_on_source :: "'j web \<Rightarrow> string \<Rightarrow> string \<Rightarrow> string \<Rightarrow> unit posted" where
  "endorse_builder_on_source w speaker source_id config =
     sink_wait ''endorsing builder''
       (post_statement w ''/postSourceImage'' speaker [source_id, config] '''')"

definition md_endorse_builder :: "'j web \<Rightarrow> string \<Rightarrow> string \<Rightarrow> string \<Rightarrow> unit posted" where
  "md_endorse_builder w speaker image_id config =
     sink_wait ''endorsing builder''
       (post_statement w ''/postBuilderImage'' IAAS_IDENTITY [image_id, config] '''')"

definition endorse_attester_on_source :: "'j web \<Rightarrow> string \<Rightarrow> string \<Rightarrow> string \<Rightarrow> unit posted" where
  "endorse_attester_on_source w speaker source_id config =
     sink_wait ''endorsing attester''
       (post_statement w ''/postAttesterSource'' IAAS_IDENTITY [source_id, config] '''')"

definition md_endorse_attester :: "'j web \<Rightarrow> string \<Rightarrow> string \<Rightarrow> string \<Rightarrow> unit posted" where
  "md_endorse_attester w speaker image_id config =
     sink_wait ''endorsing attester''
       (post_statement w ''/postAttesterImage'' IAAS_IDENTITY [image_id, config] '''')"

definition md_endorse_source :: "'j web \<Rightarrow> string \<Rightarrow> string \<Rightarrow> string \<Rightarrow> string \<Rightarrow> unit posted" where
  "md_endorse_source w speaker image_id config source =
     sink_wait ''endorsing source''
       (post_statement w ''/postImageSource'' IAAS_IDENTITY [image_id, config, source] '''')"

definition has_property :: "'j web \<Rightarrow> string \<Rightarrow> string \<Rightarrow> u32 \<Rightarrow> string \<Rightarrow> string \<Rightarrow> bool posted" where
  "has_property w speaker principal_ip port prop bearer =
     check_get w ''attest property'' ''programHasProperty''
       (post_statement w ''/attestAppProperty'' ATTEST_IDENTITY
          [format_netaddr principal_ip (int_of_u32 port), prop] bearer)"

definition can_access :: "'j web \<Rightarrow> string \<Rightarrow> string \<Rightarrow> u32 \<Rightarrow> string \<Rightarrow> string \<Rightarrow> bool posted" where
  "can_access w speaker principal_ip port access_object bearer =
     check_get w ''attest access'' ''approveAccess''
       (post_statement w ''/appAccessesObject'' ATTEST_IDENTITY
          [format_netaddr principal_ip (int_of_u32 port), access_object] bearer)"

definition can_worker_access :: "'j web \<Rightarrow> string \<Rightarrow> string \<Rightarrow> u32 \<Rightarrow> string \<Rightarrow> string \<Rightarrow> bool posted" where
  "can_worker_access w speaker principal_ip port access_object bearer =
     check_get w ''attest worker access'' ''approveAccess''
       (post_statement w ''/workerAccessesObject'' ATTEST_IDENTITY
          [format_netaddr principal_ip (int_of_u32 port), access_object] bearer)"

definition attest :: "'j web \<Rightarrow> string \<Rightarrow> string \<Rightarrow> u32 \<Rightarrow> string \<Rightarrow> string posted" where
  "attest w speaker ip port bearer sent =
     (case post_statement w ''/attestInstance'' speaker
             [format_netaddr ip (int_of_u32 port)] bearer sent of (t, sent') \<Rightarrow>
        (case (case json_task w ''attest instance'' t of
                 Inl f \<Rightarrow> Inl f | Inr j \<Rightarrow> message_string w j) of
           Inl (Runtime_error e) \<Rightarrow> (Inr '''', sent')
         | Inl f \<Rightarrow> (Inl f, sent')
         | Inr msg \<Rightarrow> (Inr msg, sent')))"

definition remove_principal ::
  "'j web \<Rightarrow> string \<Rightarrow> string \<Rightarrow> string \<Rightarrow> int \<Rightarrow> int \<Rightarrow> string \<Rightarrow> string \<Rightarrow> bool posted" where
  "remove_principal w speaker principal_name principal_ip port_min port_max image_hash configs =
     json_wait w ''deleting principal''
       (post_statement w ''/retractInstanceSet'' speaker
          [principal_name, image_hash, ''image'',
           format_netaddr_range principal_ip port_min port_max, configs] '''')"

definition image_has_property :: "'j web \<Rightarrow> string \<Rightarrow> string \<Rightarrow> string \<Rightarrow> string \<Rightarrow> bool posted" where
  "image_has_property w speaker img config prop =
     check_get w ''check image property'' ''hasSafetyProperty''
       (post_statement w ''/checkImgProperty'' ATTEST_IDENTITY [img, config, prop] '''')"

text \<open>
  \<open>create_instance\<close> posts the instance and, once the service has confirmed it with a key,
  its configuration; \<open>configs\<close> are the entries of the hash map in iteration order.
\<close>

definition config_statements :: "string \<Rightarrow> (string \<times> string) list \<Rightarrow> string list" where
  "config_statements pid configs = pid # concat (map (\<lambda>(k, v). [k, v]) configs)"

definition md_create_instance ::
  "'j web \<Rightarrow> string \<Rightarrow> string \<Rightarrow> string \<Rightarrow> string \<Rightarrow> u32 \<Rightarrow> u32 \<Rightarrow> string \<Rightarrow> (string \<times> string) list
    \<Rightarrow> bool posted" where
  "md_create_instance w speaker pid img ip lo hi store configs sent =
     (case post_statement w ''/postInstance'' speaker
             [pid, img, format_id ip (int_of_u32 lo) (int_of_u32 hi), store] '''' sent of
        (t, sent1) \<Rightarrow>
          (case (case json_task w ''creating instance new'' t of
                   Inl f \<Rightarrow> Inl f | Inr j \<Rightarrow> extract_safe_identity w j) of
             Inl f \<Rightarrow> (Inl f, sent1)
           | Inr key \<Rightarrow>
               (case sink_wait ''posting configs''
                       (post_statement w ''/postInstanceConfig'' speaker
                          (config_statements pid configs) '''') sent1 of
                  (Inl f, sent2) \<Rightarrow> (Inl f, sent2)
                | (Inr _, sent2) \<Rightarrow> (Inr True, sent2))))"

definition md_delete_instance :: "'j web \<Rightarrow> string \<Rightarrow> string \<Rightarrow> bool posted" where
  "md_delete_instance w speaker pid =
     json_wait w ''deleting instance''
       (post_statement w ''/lazyDeleteInstance'' speaker [pid] '''')"

text \<open>\<open>cmd[0] == '/' ? cmd : "/" + cmd\<close>; the empty string reads as the terminating zero.\<close>

definition call_url :: "string \<Rightarrow> string" where
  "call_url cmd = (case cmd of c # _ \<Rightarrow> if c = CHR ''/'' then cmd else ''/'' @ cmd | [] \<Rightarrow> ''/'' @ cmd)"

definition md_free_call :: "'j web \<Rightarrow> string \<Rightarrow> string \<Rightarrow> string list \<Rightarrow> bool posted" where
  "md_free_call w speaker cmd othervalues =
     json_wait w (call_url cmd) (post_statement w (call_url cmd) speaker othervalues '''')"

definition md_guard_call :: "'j web \<Rightarrow> string \<Rightarrow> string \<Rightarrow> string list \<Rightarrow> bool posted" where
  "md_guard_call w speaker cmd othervalues sent =
     (case post_statement w (call_url cmd) speaker othervalues '''' sent of (t, sent') \<Rightarrow>
        (case (case json_task w (call_url cmd) t of
                 Inl f \<Rightarrow> Inl f | Inr j \<Rightarrow> message_string w j) of
           Inl (Runtime_error e) \<Rightarrow> (Inr False, sent')
         | Inl f \<Rightarrow> (Inl f, sent')
         | Inr msg \<Rightarrow> (Inr (\<not> contains ''Exception'' msg), sent')))"

definition md_link_image :: "'j web \<Rightarrow> string \<Rightarrow> string \<Rightarrow> string \<Rightarrow> bool posted" where
  "md_link_image w speaker host img =
     json_wait w ''New Endorsements''
       (post_statement w ''/postLinkImageOwner'' speaker [host, img] '''')"

definition md_endorse :: "'j web \<Rightarrow> string \<Rightarrow> string \<Rightarrow> string \<Rightarrow> string \<Rightarrow> bool posted" where
  "md_endorse w speaker target prop val =
     json_wait w ''New Endorsements''
       (post_statement w ''/postEndorsement'' speaker [target, prop, val] '''')"

section \<open>Request log\<close>

text \<open>An operation only ever adds requests to the log.\<close>

definition appends :: "('a) posted \<Rightarrow> bool" where
  "appends f \<longleftrightarrow> (\<forall>sent. prefix sent (snd (f sent)))"

text \<open>The service approved: it answered 200 with a JSON message that contains \<open>pat\<close>.\<close>

definition approves :: "'j web \<Rightarrow> string \<Rightarrow> fault + http_response \<Rightarrow> bool" where
  "approves w pat t \<longleftrightarrow>
     (\<exists>res j msg. t = Inr res \<and> status_code res = 200 \<and> extract_json w (body res) = Inr j
        \<and> message_string w j = Inr msg \<and> contains pat msg)"

named_theorems md_appends "operations of the metadata client only add requests"

lemma post_statement_eq:
  "post_statement w path speaker stmts bearer sent =
     (request w sent (format_request path speaker stmts bearer),
      sent @ [format_request path speaker stmts bearer])"
  by (simp add: post_statement_def Let_def)

lemma sink_wait_post:
  "sink_wait msg (post_statement w path speaker stmts bearer) sent =
     (sink_task msg (request w sent (format_request path speaker stmts bearer)),
      sent @ [format_request path speaker stmts bearer])"
  by (simp add: sink_wait_def post_statement_eq)

lemma json_wait_post:
  "json_wait w msg (post_statement w path speaker stmts bearer) sent =
     (case json_task w msg (request w sent (format_request path speaker stmts bearer)) of
        Inl f \<Rightarrow> Inl f | Inr _ \<Rightarrow> Inr True,
      sent @ [format_request path speaker stmts bearer])"
  by (simp add: json_wait_def post_statement_eq split: sum.split)

lemma check_get_post:
  "check_get w msg pat (post_statement w path speaker stmts bearer) sent =
     (check_message w pat (json_task w msg (request w sent (format_request path speaker stmts bearer))),
      sent @ [format_request path speaker stmts bearer])"
  by (simp add: check_get_def post_statement_eq)

lemmas post_simps = post_statement_eq sink_wait_post json_wait_post check_get_post

lemma appends_sink [md_appends]: "appends (sink_wait msg (post_statement w path sp st b))"
  by (simp add: appends_def post_simps)

lemma appends_json [md_appends]: "appends (json_wait w msg (post_statement w path sp st b))"
  by (simp add: appends_def post_simps)

lemma appends_check [md_appends]: "appends (check_get w msg pat (post_statement w path sp st b))"
  by (simp add: appends_def post_simps)

lemma appends_create [md_appends]: "appends (md_create_instance w sp pid img ip lo hi store confs)"
  by (auto simp: appends_def md_create_instance_def post_simps split: sum.split)

lemma appends_guard [md_appends]: "appends (md_guard_call w sp cmd vals)"
  by (auto simp: appends_def md_guard_call_def post_simps split: sum.split fault.split)

lemma appends_attest [md_appends]: "appends (attest w sp ip port bearer)"
  by (auto simp: appends_def attest_def post_simps split: sum.split fault.split)

lemma check_message_True:
  "check_message w pat (json_task w msg t) = Inr True \<longleftrightarrow> approves w pat t"
  by (auto simp: check_message_def json_task_def approves_def split: sum.splits fault.splits)

lemma check_message_refused:
  assumes "t = Inr res" "status_code res \<noteq> 200"
  shows "check_message w pat (json_task w msg t) = Inr False"
  using assms by (simp add: check_message_def json_task_def)

section \<open>Properties\<close>

lemma quote_split:
  assumes "find_char c s = Some i" "rfind_char c s = Some j" "i \<noteq> j"
  shows "\<exists>a key b. s = a @ c # key @ c # b \<and> c \<notin> set a \<and> c \<notin> set b
    \<and> i = length a \<and> j = length a + 1 + length key"
proof -
  have "c \<in> set s" using assms(1) find_char_None [of c s] by auto
  then obtain a s' where s: "s = a @ c # s'" "c \<notin> set a" by (metis split_list_first)
  then have i: "i = length a" using assms(1) find_char_first by simp
  have "c \<in> set s'"
  proof (rule ccontr)
    assume "c \<notin> set s'"
    then have "rfind_char c s = Some (length a)" using s(1) rfind_char_last by simp
    with assms i show False by simp
  qed
  then obtain key b where s': "s' = key @ c # b" "c \<notin> set b" by (metis split_list_last)
  then have "rfind_char c s = Some (length (a @ c # key))"
    using rfind_char_last [of c b "a @ c # key"] s(1) by simp
  with assms(2) s s' i show ?thesis by auto
qed

text \<open>
  C33.  \<open>extract_safe_identity\<close> returns exactly the text between the first and the last
  quote of the service's message, and throws a \<open>runtime_error\<close> exactly when the message
  has fewer than two quotes.
\<close>

theorem extract_safe_identity_correct:
  assumes "message_string w j = Inr msg"
  shows "case extract_safe_identity w j of
      Inr key \<Rightarrow> \<exists>a b. msg = a @ quote_char # key @ quote_char # b
        \<and> quote_char \<notin> set a \<and> quote_char \<notin> set b
    | Inl f \<Rightarrow> (\<exists>e. f = Runtime_error e) \<and> count_list msg quote_char < 2"
proof -
  let ?q = quote_char
  show ?thesis
  proof (cases "?q \<in> set msg")
    case False
    then have "find_char ?q msg = None" by (simp add: str_simps)
    with False assms show ?thesis by (simp add: extract_safe_identity_def count_list_0_iff)
  next
    case True
    then obtain i j' where ij: "find_char ?q msg = Some i" "rfind_char ?q msg = Some j'"
      using find_char_None [of ?q msg] rfind_char_None [of ?q msg] by fastforce
    show ?thesis
    proof (cases "i = j'")
      case False
      with quote_split [OF ij] obtain a key b where
        m: "msg = a @ ?q # key @ ?q # b" "?q \<notin> set a" "?q \<notin> set b" "i = length a"
          "j' = length a + 1 + length key" by blast
      then have "take (j' - i - 1) (drop (i + 1) msg) = key" by simp
      with m assms ij False show ?thesis by (auto simp: extract_safe_identity_def)
    next
      case eq: True
      obtain a b where s: "msg = a @ ?q # b" "?q \<notin> set a" using True by (metis split_list_first)
      have "?q \<notin> set b"
      proof
        assume "?q \<in> set b"
        then obtain c d where "b = c @ ?q # d" "?q \<notin> set d" by (metis split_list_last)
        then have "rfind_char ?q msg = Some (length (a @ ?q # c))"
          using rfind_char_last [of ?q d "a @ ?q # c"] s(1) by simp
        moreover have "find_char ?q msg = Some (length a)" using s find_char_first by simp
        ultimately show False using ij eq by simp
      qed
      with s assms ij eq show ?thesis
        by (simp add: extract_safe_identity_def count_list_0_iff [symmetric])
    qed
  qed
qed

definition echo_web :: "nat \<Rightarrow> string web" where
  "echo_web code = \<lparr>request = (\<lambda>sent r. Inr \<lparr>status_code = code, body = ''stored 'key7' as set''\<rparr>),
     extract_json = Inr, message_string = Inr\<rparr>"

theorem extract_safe_identity_correct_witness:
  "extract_safe_identity (echo_web 200) ''stored 'key7' as set'' = Inr ''key7''"
  using extract_safe_identity_correct [of "echo_web 200" "''stored 'key7' as set''" "''stored 'key7' as set''"]
  by (simp add: echo_web_def extract_safe_identity_def quote_char_def)

text \<open>
  C12.  The four Boolean checks fail closed: each sends exactly one request, in the name of
  the fixed attester identity, and answers \<open>true\<close> exactly when the service approved, that is
  answered 200 with a JSON message containing the expected fact.
\<close>

theorem checks_fail_closed:
  fixes w :: "'j web"
  defines "addr \<equiv> (\<lambda>ip port. format_netaddr ip (int_of_u32 port))"
  shows "(let r = format_request ''/attestAppProperty'' ATTEST_IDENTITY [addr ip port, prop] b in
      snd (has_property w sp ip port prop b sent) = sent @ [r]
      \<and> (fst (has_property w sp ip port prop b sent) = Inr True
           \<longleftrightarrow> approves w ''programHasProperty'' (request w sent r)))
    \<and> (let r = format_request ''/appAccessesObject'' ATTEST_IDENTITY [addr ip port, obj] b in
      snd (can_access w sp ip port obj b sent) = sent @ [r]
      \<and> (fst (can_access w sp ip port obj b sent) = Inr True
           \<longleftrightarrow> approves w ''approveAccess'' (request w sent r)))
    \<and> (let r = format_request ''/workerAccessesObject'' ATTEST_IDENTITY [addr ip port, obj] b in
      snd (can_worker_access w sp ip port obj b sent) = sent @ [r]
      \<and> (fst (can_worker_access w sp ip port obj b sent) = Inr True
           \<longleftrightarrow> approves w ''approveAccess'' (request w sent r)))
    \<and> (let r = format_request ''/checkImgProperty'' ATTEST_IDENTITY [img, conf, prop] '''' in
      snd (image_has_property w sp img conf prop sent) = sent @ [r]
      \<and> (fst (image_has_property w sp img conf prop sent) = Inr True
           \<longleftrightarrow> approves w ''hasSafetyProperty'' (request w sent r)))"
  by (simp add: has_property_def can_access_def can_worker_access_def image_has_property_def
      post_simps check_message_True Let_def addr_def)

text \<open>
  \<open>guard_call\<close> fails open on the content of the answer: with status 200 it approves
  every message that does not contain the word \<open>Exception\<close>; every other status and every
  \<open>runtime_error\<close> is a refusal, and the other exceptions pass to the caller.
\<close>

theorem guard_call_decision:
  "fst (md_guard_call w sp cmd vals sent) =
     (case request w sent (format_request (call_url cmd) sp vals '''') of
        Inl (Runtime_error e) \<Rightarrow> Inr False
      | Inl f \<Rightarrow> Inl f
      | Inr res \<Rightarrow>
          if status_code res \<noteq> 200 then Inr False
          else (case extract_json w (body res) of
              Inl (Runtime_error e) \<Rightarrow> Inr False
            | Inl f \<Rightarrow> Inl f
            | Inr j \<Rightarrow> (case message_string w j of
                Inl (Runtime_error e) \<Rightarrow> Inr False
              | Inl f \<Rightarrow> Inl f
              | Inr msg \<Rightarrow> Inr (\<not> sublist ''Exception'' msg))))"
  by (auto simp: md_guard_call_def post_simps json_task_def contains_sublist split: sum.split fault.split)

text \<open>
  C32.  \<open>create_instance\<close> posts the instance first and its configuration only after the
  service has confirmed the instance with a quoted key; it returns only if both requests
  were answered, and it never sends anything else.
\<close>

theorem create_instance_order:
  assumes "md_create_instance w sp pid img ip lo hi store confs sent = (res, sent')"
  defines "r1 \<equiv> format_request ''/postInstance'' sp
      [pid, img, format_id ip (int_of_u32 lo) (int_of_u32 hi), store] ''''"
    and "r2 \<equiv> format_request ''/postInstanceConfig'' sp (config_statements pid confs) ''''"
  shows "(sent' = sent @ [r1] \<and> (\<exists>f. res = Inl f)
      \<or> sent' = sent @ [r1, r2]
        \<and> (\<exists>a key j. request w sent r1 = Inr a \<and> status_code a = 200
            \<and> extract_json w (body a) = Inr j \<and> extract_safe_identity w j = Inr key))
    \<and> (\<forall>b. res = Inr b \<longrightarrow> b \<and> sent' = sent @ [r1, r2]
        \<and> (\<exists>a. request w (sent @ [r1]) r2 = Inr a))"
  using assms(1) unfolding r1_def r2_def
  by (auto simp: md_create_instance_def post_simps sink_task_def json_task_def
      split: sum.splits if_splits)

theorem create_instance_order_witness:
  "\<exists>sent'. md_create_instance (echo_web 200) ''sp'' ''7_0'' ''img'' ''1.1.1.1'' 10 20 ''st'' [(''k'', ''v'')] []
     = (Inr True, sent') \<and> length sent' = 2"
proof -
  obtain sent' where ev: "md_create_instance (echo_web 200) ''sp'' ''7_0'' ''img'' ''1.1.1.1'' 10 20 ''st''
      [(''k'', ''v'')] [] = (Inr True, sent')"
    by (simp add: md_create_instance_def post_simps sink_task_def json_task_def echo_web_def
        extract_safe_identity_def quote_char_def)
  show ?thesis using create_instance_order [OF ev] ev by auto
qed

text \<open>
  The operations that end in \<open>sink_task\<close> (posting an ACL, endorsing images,
  memberships, builders, attesters and sources) return normally whatever status the
  service answers: the error message that \<open>consume_status\<close> builds is dropped.
\<close>

theorem sink_operations_ignore_status:
  assumes "\<And>sent r. \<exists>res. request w sent r = Inr res"
  shows "fst (post_object_acl w sp obj req sent) = Inr ()
    \<and> fst (endorse_image w sp img e conf sent) = Inr ()
    \<and> fst (md_endorse_membership w sp ip port gn e conf sent) = Inr ()
    \<and> fst (endorse_builder_on_source w sp img conf sent) = Inr ()
    \<and> fst (md_endorse_builder w sp img conf sent) = Inr ()
    \<and> fst (endorse_attester_on_source w sp img conf sent) = Inr ()
    \<and> fst (md_endorse_attester w sp img conf sent) = Inr ()
    \<and> fst (md_endorse_source w sp img conf src sent) = Inr ()"
proof -
  have "fst (sink_wait msg (post_statement w path speaker stmts bearer) sent) = Inr ()"
    for msg path speaker stmts bearer
    using assms [of sent "format_request path speaker stmts bearer"] by (auto simp: post_simps sink_task_def)
  then show ?thesis
    by (simp add: post_object_acl_def endorse_image_def md_endorse_membership_def
        endorse_builder_on_source_def md_endorse_builder_def endorse_attester_on_source_def
        md_endorse_attester_def md_endorse_source_def Let_def)
qed

theorem sink_operations_ignore_status_witness:
  "fst (post_object_acl (echo_web 500) ''alice'' ''obj'' ''req'' []) = Inr ()"
  using sink_operations_ignore_status [of "echo_web 500" "''alice''" "''obj''" "''req''" "[]"]
  by (simp add: echo_web_def)


text \<open>
  A path with and without a leading slash, after an address with and without a trailing one, name
  the same resource, and each request adds one numbered line to the trace.
\<close>

lemma full_uri_joins:
  assumes "base = [] \<or> last base \<noteq> CHR ''/''" "path = [] \<or> hd path \<noteq> CHR ''/''"
  shows "full_uri base path = base @ ''/'' @ path"
    and "full_uri (base @ ''/'') path = base @ ''/'' @ path"
    and "full_uri base (''/'' @ path) = base @ ''/'' @ path"
    and "full_uri (base @ ''/'') (''/'' @ path) = base @ ''/'' @ path"
  using assms by (auto simp: full_uri_def)

lemma trace_grows:
  "trace_file ser base (snd (post_statement w path speaker stmts bearer sent)) =
     trace_file ser base sent @ trace_line ser base (length sent) (format_request path speaker stmts bearer)"
  by (simp add: trace_file_def post_statement_def enumerate_append_eq Let_def)

end
