(* ===== verification/Log.thy ===== *)
theory Log
  imports Prelude
begin

text \<open>
  common/log.cc: the log level and the three output functions.  The file system is a
  parameter of each call: whether the debug directory exists and whether the log file opens.
  Expanding a format string is the C library's work, so a call takes the expanded message.
  The state holds the once-flag of the probe, its result, and what has been written to the
  debug file and to syslog.
\<close>

section \<open>Log level\<close>

definition LOG_ERR :: int where "LOG_ERR = 3"
definition LOG_NOTICE :: int where "LOG_NOTICE = 5"
definition LOG_INFO :: int where "LOG_INFO = 6"
definition LOG_DEBUG :: int where "LOG_DEBUG = 7"

definition initial_level :: int where
  "initial_level = LOG_NOTICE"

definition is_debug :: "int \<Rightarrow> bool" where
  "is_debug current_level \<longleftrightarrow> current_level \<le> LOG_DEBUG"

definition setloglevel :: "int \<Rightarrow> int \<Rightarrow> int" where
  "setloglevel up_to current_level = up_to"

section \<open>Output\<close>

record log_files =
  debug_dir :: bool
  log_opens :: bool

record log_state =
  probed :: bool
  write_to_file :: bool
  debug_file :: string
  sys_log :: "(int \<times> string) list"

definition log_start :: log_state where
  "log_start = \<lparr>probed = False, write_to_file = False, debug_file = '''', sys_log = []\<rparr>"

definition probe_debug_log :: "log_files \<Rightarrow> log_state \<Rightarrow> log_state" where
  "probe_debug_log fs s = (if debug_dir fs then s\<lparr>write_to_file := True\<rparr> else s)"

text \<open>\<open>std::call_once(probe_debug_flag, probe_debug_log)\<close>.\<close>

definition probe_once :: "log_files \<Rightarrow> log_state \<Rightarrow> log_state" where
  "probe_once fs s = (if probed s then s else (probe_debug_log fs s)\<lparr>probed := True\<rparr>)"

definition log_msg :: "int \<Rightarrow> log_files \<Rightarrow> string \<Rightarrow> log_state \<Rightarrow> log_state" where
  "log_msg current_level fs msg s =
     (let s1 = probe_once fs s in
      if write_to_file s1
      then if log_opens fs then s1\<lparr>debug_file := debug_file s1 @ msg @ [CHR 0x0A]\<rparr> else s1
      else s1\<lparr>sys_log := sys_log s1 @ [(current_level, msg)]\<rparr>)"

definition log_err :: "log_files \<Rightarrow> string \<Rightarrow> log_state \<Rightarrow> log_state" where
  "log_err fs msg s =
     (let s1 = probe_once fs s in
      if write_to_file s1
      then if log_opens fs then s1\<lparr>debug_file := debug_file s1 @ msg @ [CHR 0x0A]\<rparr> else s1
      else s1\<lparr>sys_log := sys_log s1 @ [(LOG_ERR, msg)]\<rparr>)"

definition LOG_BUF_SIZE :: nat where "LOG_BUF_SIZE = 8192"

text \<open>
  \<open>vsnprintf\<close> stores at most \<open>LOG_BUF_SIZE - 1\<close> characters and a terminating zero, and returns
  the length of the whole message.
\<close>

definition vsnprintf :: "nat \<Rightarrow> string \<Rightarrow> string" where
  "vsnprintf n msg = take (n - 1) msg @ [CHR 0x00]"

text \<open>
  \<open>log_err_throw\<close> uses that length as the number of characters in the buffer, for the file
  and for the message of the exception: past the end of the buffer both read memory that is
  not part of it.
\<close>

definition log_err_throw :: "log_files \<Rightarrow> string \<Rightarrow> log_state \<Rightarrow> fault \<times> log_state" where
  "log_err_throw fs msg s =
     (let s1 = probe_once fs s; buf = vsnprintf LOG_BUF_SIZE msg; sz = length msg in
      if write_to_file s1 \<and> log_opens fs \<and> sz > LOG_BUF_SIZE then (Out_of_range, s1)
      else let s2 = (if write_to_file s1
             then if log_opens fs then s1\<lparr>debug_file := debug_file s1 @ take sz buf @ [CHR 0x0A]\<rparr> else s1
             else s1\<lparr>sys_log := sys_log s1 @ [(LOG_ERR, takeWhile (\<lambda>c. c \<noteq> CHR 0x00) buf)]\<rparr>)
        in if sz > LOG_BUF_SIZE then (Out_of_range, s2)
           else (Runtime_error (take sz buf), s2))"

section \<open>Where messages go\<close>

datatype log_call = Log int string | Log_err string

fun run_call :: "log_files \<times> log_call \<Rightarrow> log_state \<Rightarrow> log_state" where
  "run_call (fs, Log level msg) s = log_msg level fs msg s"
| "run_call (fs, Log_err msg) s = log_err fs msg s"

fun call_entry :: "log_call \<Rightarrow> int \<times> string" where
  "call_entry (Log level msg) = (level, msg)"
| "call_entry (Log_err msg) = (LOG_ERR, msg)"

lemma run_call_probed:
  assumes "probed s"
  shows "run_call (fs, c) s =
    (if write_to_file s
     then if log_opens fs then s\<lparr>debug_file := debug_file s @ snd (call_entry c) @ [CHR 0x0A]\<rparr> else s
     else s\<lparr>sys_log := sys_log s @ [call_entry c]\<rparr>)"
  using assms by (cases c) (simp_all add: log_msg_def log_err_def probe_once_def Let_def)

lemma run_call_unprobed:
  assumes "\<not> probed s"
  shows "run_call (fs, c) s = run_call (fs, c) (probe_once fs s)" "probed (probe_once fs s)"
  using assms by (cases c) (simp_all add: log_msg_def log_err_def probe_once_def Let_def probe_debug_log_def)

lemma run_calls_probed:
  assumes "probed s"
  shows "fold run_call cs s =
    (if write_to_file s
     then s\<lparr>debug_file := debug_file s @
        concat (map (\<lambda>(fs, c). snd (call_entry c) @ [CHR 0x0A]) (filter (\<lambda>(fs, c). log_opens fs) cs))\<rparr>
     else s\<lparr>sys_log := sys_log s @ map (\<lambda>(fs, c). call_entry c) cs\<rparr>)"
  using assms by (induction cs arbitrary: s) (auto simp: run_call_probed)

section \<open>Properties\<close>

text \<open>
  Where messages go is decided by the first call and for good: when the debug directory
  exists then, every message for which the log file opens is a line of that file, in order
  and in full, and nothing reaches syslog; otherwise every message reaches syslog in order,
  errors at \<open>LOG_ERR\<close> and the others at the level in force, and nothing is written to the
  file, even when the directory appears later.
\<close>

theorem log_destination:
  "fold run_call ((fs, c) # cs) log_start =
    (if debug_dir fs
     then \<lparr>probed = True, write_to_file = True,
       debug_file = concat (map (\<lambda>(fs, c). snd (call_entry c) @ [CHR 0x0A])
         (filter (\<lambda>(fs, c). log_opens fs) ((fs, c) # cs))), sys_log = []\<rparr>
     else \<lparr>probed = True, write_to_file = False, debug_file = '''',
       sys_log = map (\<lambda>(fs, c). call_entry c) ((fs, c) # cs)\<rparr>)"
proof -
  have "\<not> probed log_start" by (simp add: log_start_def)
  from run_call_unprobed(1) [OF this, of fs c]
  have "fold run_call ((fs, c) # cs) log_start = fold run_call ((fs, c) # cs) (probe_once fs log_start)"
    by simp
  also have "\<dots> = (if write_to_file (probe_once fs log_start)
     then (probe_once fs log_start)\<lparr>debug_file := debug_file (probe_once fs log_start) @
        concat (map (\<lambda>(fs, c). snd (call_entry c) @ [CHR 0x0A])
          (filter (\<lambda>(fs, c). log_opens fs) ((fs, c) # cs)))\<rparr>
     else (probe_once fs log_start)\<lparr>sys_log := sys_log (probe_once fs log_start) @
        map (\<lambda>(fs, c). call_entry c) ((fs, c) # cs)\<rparr>)"
    by (rule run_calls_probed) (simp add: probe_once_def log_start_def)
  finally show ?thesis by (simp add: probe_once_def log_start_def probe_debug_log_def)
qed

text \<open>
  \<open>log_err_throw\<close> throws the expanded message as a \<open>runtime_error\<close> exactly when it is
  shorter than \<open>LOG_BUF_SIZE\<close>.  A message of that length loses its last character to a zero
  byte, and a longer one makes the constructor of the exception read past the buffer,
  wherever the log goes.
\<close>

theorem log_err_throw_bounds:
  "fst (log_err_throw fs msg s) =
     (if length msg < LOG_BUF_SIZE then Runtime_error msg
      else if length msg = LOG_BUF_SIZE then Runtime_error (butlast msg @ [CHR 0x00])
      else Out_of_range)"
  by (auto simp: log_err_throw_def vsnprintf_def LOG_BUF_SIZE_def Let_def butlast_conv_take)

end
