(* ===== verification/Config.thy ===== *)
theory Config
  imports Log
begin

text \<open>
  The daemon's configuration: include/config.h and common/configs.cc.  The parsed configuration file (\<open>jutils::config::SimpleConfig\<close>) is the
  parameter \<open>conf\<close>, a lookup that returns \<open>None\<close> for the null pointer.
\<close>

section \<open>load_config\<close>

definition LEGACY_CONFIG_KEY :: string where "LEGACY_CONFIG_KEY = ''LEGACY_CONFIG_STRING''"

record ConfigItems =
  conf_myid :: string
  conf_myip :: string
  metadata_url :: string
  metadata_ip :: string
  local_ep :: string
  metadata_port :: u32
  conf_run_as_iaas :: bool

definition METADATA_SERVICE_DEFAULT_PORT :: u32 where "METADATA_SERVICE_DEFAULT_PORT = 7777"
definition DAEMON_SOCKET_DEFAULT_PATH :: string where
  "DAEMON_SOCKET_DEFAULT_PATH = ''/var/run/latte/guard.sock''"

text \<open>
  The C library's \<open>atoi\<close>: white space, a sign, decimal digits; what follows is ignored.
\<close>

definition c_atoi :: "string \<Rightarrow> int" where
  "c_atoi s =
     (case dropWhile is_space s of
        [] \<Rightarrow> 0
      | c # t \<Rightarrow>
          if c = CHR ''-'' then - int (read_nat (takeWhile is_digit t))
          else if c = CHR ''+'' then int (read_nat (takeWhile is_digit t))
          else int (read_nat (takeWhile is_digit (c # t))))"

record config_state =
  config_cache :: ConfigItems
  current_level :: int

text \<open>
  \<open>load_config\<close>: the assignments made before an exception stay in the cache.
\<close>

definition load_config :: "(string \<Rightarrow> string option) \<Rightarrow> config_state \<Rightarrow> (fault + unit) \<times> config_state" where
  "load_config conf s =
     (case conf ''log'' of
        None \<Rightarrow> (Inl Null_deref, s)
      | Some loglevel \<Rightarrow>
     let s1 = s\<lparr>current_level := setloglevel (if loglevel = ''debug'' then LOG_DEBUG else LOG_INFO)
                                  (current_level s)\<rparr> in
     (case conf ''speaker_id'' of
        None \<Rightarrow> (Inl (Runtime_error ''myid not configured''), s1)
      | Some myid \<Rightarrow>
     (case conf ''speaker_ip'' of
        None \<Rightarrow> (Inl (Runtime_error ''myip not configured''), s1)
      | Some myip \<Rightarrow>
     (case conf ''run_as_iaas'' of
        None \<Rightarrow> (Inl (Runtime_error (''run as iaas not configured!'' @ [CHR 0x0A])), s1)
      | Some run_as_iaas \<Rightarrow>
     let s2 = s1\<lparr>config_cache := (config_cache s1)
                  \<lparr>local_ep := (case conf ''daemon_socket'' of
                     None \<Rightarrow> DAEMON_SOCKET_DEFAULT_PATH | Some ep \<Rightarrow> ep)\<rparr>\<rparr> in
     (case conf ''metadata_ip'' of
        None \<Rightarrow> (Inl (Runtime_error ''must provide either metadata_url or metadata_ip''), s2)
      | Some ip \<Rightarrow>
     let port_text = (case conf ''metadata_port'' of
           None \<Rightarrow> show_nat (unat METADATA_SERVICE_DEFAULT_PORT) | Some port \<Rightarrow> port);
         port_value = (case conf ''metadata_port'' of
           None \<Rightarrow> METADATA_SERVICE_DEFAULT_PORT | Some port \<Rightarrow> word_of_int (c_atoi port))
     in (Inr (), s2\<lparr>config_cache := (config_cache s2)
          \<lparr>metadata_port := port_value,
           metadata_url := ''http://'' @ ip @ '':'' @ port_text @ ''/'',
           metadata_ip := ip, conf_myid := myid, conf_myip := myip,
           conf_run_as_iaas := (run_as_iaas = ''1'' \<or> run_as_iaas = ''true'')\<rparr>\<rparr>))))))"

section \<open>Properties\<close>

lemma takeWhile_show_nat [simp]: "takeWhile is_digit (show_nat n) = show_nat n"
  by (rule takeWhile_eq_all_conv [THEN iffD2]) (blast dest: show_nat_digits)

lemma c_atoi_show_nat: "c_atoi (show_nat n) = int n"
proof -
  obtain c t where ct: "show_nat n = c # t" by (cases "show_nat n") auto
  then have "is_digit c" using show_nat_digits [of c n] by simp
  then have "\<not> is_space c" "c \<noteq> CHR ''-''" "c \<noteq> CHR ''+''"
    by (auto simp: is_digit_def is_space_def)
  then have "c_atoi (show_nat n) = int (read_nat (takeWhile is_digit (show_nat n)))"
    by (simp add: c_atoi_def ct)
  then show ?thesis by simp
qed

text \<open>
  Loading a complete configuration always succeeds and fills every item of the cache:
  the identity, the address and the IaaS flag as configured, the metadata address and port,
  and a URL that is built from the same address and port, with the documented defaults when
  the port or the socket path is left out.
\<close>

theorem load_config_complete:
  assumes "conf ''log'' = Some lvl" "conf ''speaker_id'' = Some myid" "conf ''speaker_ip'' = Some myip"
    and "conf ''run_as_iaas'' = Some iaas" "conf ''metadata_ip'' = Some ip"
    and "conf ''metadata_port'' = map_option (\<lambda>p. show_nat (unat p)) port"
  shows "\<exists>s'. load_config conf s = (Inr (), s')
    \<and> config_cache s' = \<lparr>conf_myid = myid, conf_myip = myip,
        metadata_url = ''http://'' @ ip @ '':'' @ show_nat (unat (case port of None \<Rightarrow> 7777 | Some p \<Rightarrow> p)) @ ''/'',
        metadata_ip = ip,
        local_ep = (case conf ''daemon_socket'' of None \<Rightarrow> DAEMON_SOCKET_DEFAULT_PATH | Some ep \<Rightarrow> ep),
        metadata_port = (case port of None \<Rightarrow> 7777 | Some p \<Rightarrow> p),
        conf_run_as_iaas = (iaas \<in> {''1'', ''true''})\<rparr>"
  using assms
  by (cases port) (auto simp: load_config_def Let_def c_atoi_show_nat METADATA_SERVICE_DEFAULT_PORT_def)

theorem load_config_complete_witness:
  "\<exists>s'. load_config (map_of [(''log'', ''debug''), (''speaker_id'', ''1.1.1.1:1-65535''),
        (''speaker_ip'', ''1.1.1.1''), (''run_as_iaas'', ''false''), (''metadata_ip'', ''10.10.1.39'')])
      \<lparr>config_cache = \<lparr>conf_myid = '''', conf_myip = '''', metadata_url = '''', metadata_ip = '''',
          local_ep = '''', metadata_port = 0, conf_run_as_iaas = False\<rparr>, current_level = 5\<rparr> = (Inr (), s')
     \<and> metadata_port (config_cache s') = 7777 \<and> \<not> conf_run_as_iaas (config_cache s')"
proof -
  let ?conf = "map_of [(''log'', ''debug''), (''speaker_id'', ''1.1.1.1:1-65535''),
        (''speaker_ip'', ''1.1.1.1''), (''run_as_iaas'', ''false''), (''metadata_ip'', ''10.10.1.39'')]"
  let ?s = "\<lparr>config_cache = \<lparr>conf_myid = '''', conf_myip = '''', metadata_url = '''', metadata_ip = '''',
          local_ep = '''', metadata_port = 0, conf_run_as_iaas = False\<rparr>, current_level = 5\<rparr>"
  have "\<exists>s'. load_config ?conf ?s = (Inr (), s') \<and> config_cache s' = \<lparr>conf_myid = ''1.1.1.1:1-65535'',
      conf_myip = ''1.1.1.1'',
      metadata_url = ''http://'' @ ''10.10.1.39'' @ '':'' @ show_nat (unat (case None of None \<Rightarrow> (7777 :: u32) | Some p \<Rightarrow> p)) @ ''/'',
      metadata_ip = ''10.10.1.39'',
      local_ep = (case ?conf ''daemon_socket'' of None \<Rightarrow> DAEMON_SOCKET_DEFAULT_PATH | Some ep \<Rightarrow> ep),
      metadata_port = (case None of None \<Rightarrow> 7777 | Some p \<Rightarrow> p),
      conf_run_as_iaas = (''false'' \<in> {''1'', ''true''})\<rparr>"
    by (rule load_config_complete) simp_all
  then show ?thesis by (elim exE conjE) (rule exI, rule conjI, assumption, simp)
qed

text \<open>
  A configuration without the key \<open>log\<close> is not reported: the null pointer is
  dereferenced.  Every other missing mandatory key is reported by an exception that names it,
  in the order the keys are read.
\<close>

theorem load_config_missing_keys:
  "fst (load_config conf s) =
     (if conf ''log'' = None then Inl Null_deref
      else if conf ''speaker_id'' = None then Inl (Runtime_error ''myid not configured'')
      else if conf ''speaker_ip'' = None then Inl (Runtime_error ''myip not configured'')
      else if conf ''run_as_iaas'' = None
        then Inl (Runtime_error (''run as iaas not configured!'' @ [CHR 0x0A]))
      else if conf ''metadata_ip'' = None
        then Inl (Runtime_error ''must provide either metadata_url or metadata_ip'')
      else Inr ())"
  by (simp add: load_config_def Let_def split: option.split)

text \<open>
  \<open>is_debug\<close> compares the wrong way round: it holds for every syslog level from
  \<open>LOG_EMERG\<close> (0) to \<open>LOG_DEBUG\<close> (7), in particular for the initial level and for both levels
  \<open>load_config\<close> can set, so debug output is never off.
\<close>

theorem is_debug_always:
  "(\<forall>level \<le> 7. is_debug level) \<and> is_debug initial_level
    \<and> (\<forall>conf s. is_debug (current_level s) \<longrightarrow> is_debug (current_level (snd (load_config conf s))))"
  by (auto simp: is_debug_def initial_level_def LOG_DEBUG_def LOG_NOTICE_def LOG_INFO_def load_config_def
      setloglevel_def Let_def split: option.split)

theorem is_debug_always_witness: "is_debug LOG_NOTICE \<and> is_debug LOG_ERR"
  using is_debug_always by (simp add: LOG_NOTICE_def LOG_ERR_def)

end
