(* ===== verification/Manager.thy ===== *)
theory Manager
  imports Proto Metadata Config
begin

text \<open>
  \<open>LatteAttestationManager\<close> of server/manager.cc: the registry of principals, the dispatch
  table and one handler per command.  The state is the generation counter \<open>gn_\<close>, the
  multimap \<open>principals_\<close> as the list of its entries, and the requests the metadata client has
  sent.  A handler either returns a response or ends in a fault; the state changes it made
  before a fault stay.  The environment holds the metadata service, the configuration, and
  the iteration order of the \<open>unordered_map\<close> the configuration entries are copied to.
\<close>

section \<open>State\<close>

type_synonym principal_map = "(u64 \<times> Principal) list"

record manager =
  next_gn :: u64
  principals :: principal_map
  posted :: "http_request list"

record 'j guard_env =
  env_web :: "'j web"
  env_conf :: ConfigItems
  env_order :: "confmap \<Rightarrow> confmap"

type_synonym ('j) handler = "'j guard_env \<Rightarrow> Command \<Rightarrow> manager \<Rightarrow> (fault + Response) \<times> manager"

text \<open>\<open>gn_\<close> starts at 0 and \<open>gn()\<close> returns it and increments it, modulo 2^64.\<close>

definition init_manager :: manager where
  "init_manager = \<lparr>next_gn = 0, principals = [], posted = []\<rparr>"

definition take_gn :: "manager \<Rightarrow> u64 \<times> manager" where
  "take_gn m = (next_gn m, m\<lparr>next_gn := next_gn m + 1\<rparr>)"

definition add_principal :: "u64 \<Rightarrow> Principal \<Rightarrow> principal_map \<Rightarrow> principal_map" where
  "add_principal i p ps = ps @ [(i, p)]"

definition equal_range :: "u64 \<Rightarrow> principal_map \<Rightarrow> Principal list" where
  "equal_range i ps = map snd (filter (\<lambda>e. fst e = i) ps)"

definition erase_range :: "u64 \<Rightarrow> principal_map \<Rightarrow> principal_map" where
  "erase_range i ps = filter (\<lambda>e. fst e \<noteq> i) ps"

definition principal_name :: "Principal \<Rightarrow> string" where
  "principal_name p = show_nat (unat (p_id p)) @ ''_'' @ show_nat (unat (p_gn p))"

text \<open>The loop over the range: the last principal whose generation is at least the maximum so far.\<close>

fun latest_loop :: "Principal list \<Rightarrow> u64 \<Rightarrow> Principal option \<Rightarrow> Principal option" where
  "latest_loop [] maxgn latest = latest"
| "latest_loop (p # ps) maxgn latest =
     (if maxgn \<le> p_gn p then latest_loop ps (p_gn p) (Some p) else latest_loop ps maxgn latest)"

definition find_latest :: "u64 \<Rightarrow> principal_map \<Rightarrow> Principal option" where
  "find_latest i ps = latest_loop (equal_range i ps) 0 None"

text \<open>Running an operation of the metadata client inside a handler.\<close>

definition call_metadata :: "('a) posted \<Rightarrow> ('a \<Rightarrow> Response) \<Rightarrow> manager \<Rightarrow> (fault + Response) \<times> manager" where
  "call_metadata f k m =
     (case f (posted m) of
        (Inl e, sent) \<Rightarrow> (Inl e, m\<lparr>posted := sent\<rparr>)
      | (Inr a, sent) \<Rightarrow> (Inr (k a), m\<lparr>posted := sent\<rparr>))"

definition status_of :: "bool \<Rightarrow> Response" where
  "status_of b = make_status_response b ''''"

text \<open>\<open>config().at(LEGACY_CONFIG_KEY)\<close> on a protobuf map.\<close>

definition with_legacy_config ::
  "confmap \<Rightarrow> (string \<Rightarrow> manager \<Rightarrow> (fault + Response) \<times> manager) \<Rightarrow> manager \<Rightarrow> (fault + Response) \<times> manager" where
  "with_legacy_config confs k m =
     (case map_of confs LEGACY_CONFIG_KEY of None \<Rightarrow> (Inl Fatal_check, m) | Some c \<Rightarrow> k c m)"

text \<open>
  The process-wide \<open>instance\<close>: null before \<open>init_manager(url)\<close> is called, a fresh manager after.
\<close>

definition make_instance :: "manager option \<Rightarrow> manager option" where
  "make_instance inst = Some init_manager"

definition get_manager :: "manager option \<Rightarrow> fault + manager" where
  "get_manager inst =
     (case inst of
        Some m \<Rightarrow> Inr m
      | None \<Rightarrow> Inl (Runtime_error ''must initialize the latte manager first''))"

section \<open>Handlers\<close>

definition free_call :: "'j handler" where
  "free_call env cmd m =
     (case extract_free_call cmd of
        None \<Rightarrow> (Inl Null_deref, m)
      | Some freecall \<Rightarrow>
          call_metadata (md_free_call (env_web env) (cmd_auth cmd) (free_cmd freecall) (free_values freecall))
            status_of m)"

definition guard_call :: "'j handler" where
  "guard_call env cmd m =
     (case extract_guard_call cmd of
        None \<Rightarrow> (Inl Null_deref, m)
      | Some guardcall \<Rightarrow>
          call_metadata (md_guard_call (env_web env) (cmd_auth cmd) (guard_cmd guardcall) (guard_values guardcall))
            status_of m)"

definition link_image :: "'j handler" where
  "link_image env cmd m =
     (case extract_link_image cmd of
        None \<Rightarrow> (Inl Null_deref, m)
      | Some linkimage \<Rightarrow>
          let host = (if length (link_host linkimage) = 0 then cmd_auth cmd else link_host linkimage)
          in call_metadata (md_link_image (env_web env) (cmd_auth cmd) host (link_image_name linkimage))
               status_of m)"

definition create_principal :: "'j handler" where
  "create_principal env cmd m =
     (case extract_principal cmd of
        None \<Rightarrow> (Inr (make_status_response False ''principal not found or mal-formed''), m)
      | Some p0 \<Rightarrow>
          let (g, m1) = take_gn m;
              p = p0\<lparr>p_gn := g\<rparr>;
              store = (if length (image_store (p_code p)) = 0 then cmd_auth cmd
                       else image_store (p_code p));
              configs = env_order env (code_config (p_code p))
          in (case md_create_instance (env_web env) (cmd_auth cmd) (principal_name p)
                     (code_image (p_code p)) (auth_ip (p_auth p)) (port_lo (p_auth p))
                     (port_hi (p_auth p)) store configs (posted m1) of
                (Inl e, sent) \<Rightarrow> (Inl e, m1\<lparr>posted := sent\<rparr>)
              | (Inr _, sent) \<Rightarrow>
                  let p' = p\<lparr>p_speaker := cmd_pid cmd\<rparr>
                  in (Inr (make_status_response True ''''),
                      m1\<lparr>posted := sent, principals := add_principal (p_id p') p' (principals m1)\<rparr>)))"

definition delete_principal :: "'j handler" where
  "delete_principal env cmd m =
     (case extract_principal cmd of
        None \<Rightarrow> (Inr (make_status_response False ''principal not found or mal-formed''), m)
      | Some p \<Rightarrow>
          (case find_latest (p_id p) (principals m) of
             Some latest \<Rightarrow>
               if p_speaker latest \<noteq> cmd_pid cmd \<and> cmd_uid cmd \<noteq> 0
               then (Inr (make_status_response False ''privilege not matching''), m)
               else call_metadata
                      (md_delete_instance (env_web env) (cmd_auth cmd) (principal_name latest))
                      (\<lambda>_. make_status_response True '''')
                      (m\<lparr>principals := erase_range (p_id p) (principals m)\<rparr>)
           | None \<Rightarrow>
               (Inr (make_status_response False ''latest principal not found''),
                m\<lparr>principals := erase_range (p_id p) (principals m)\<rparr>)))"

definition get_principal :: "'j handler" where
  "get_principal env cmd m = (Inr not_implemented, m)"

definition endorse_principal :: "'j handler" where
  "endorse_principal env cmd m = (Inr not_implemented, m)"

definition revoke_principal :: "'j handler" where
  "revoke_principal env cmd m = (Inr not_implemented, m)"

definition endorse :: "'j handler" where
  "endorse env cmd m =
     (case extract_endorse cmd of
        None \<Rightarrow> (Inl Null_deref, m)
      | Some e \<Rightarrow>
          (case e_endorsements e of
             [] \<Rightarrow> (Inr (make_status_response False ''must provide at least one property''), m)
           | en # _ \<Rightarrow>
               call_metadata
                 (md_endorse (env_web env) (cmd_auth cmd) (e_id e) (property en) (endorsement_value en))
                 (\<lambda>_. make_status_response True '''') m))"

definition revoke :: "'j handler" where
  "revoke env cmd m = (Inr not_implemented, m)"

definition get_local_principal :: "'j handler" where
  "get_local_principal env cmd m =
     (case extract_principal cmd of
        None \<Rightarrow> (Inr (make_status_response False ''principal not found or mal-formed''), m)
      | Some p \<Rightarrow>
          (case find_latest (p_id p) (principals m) of
             Some latest \<Rightarrow> (Inr (make_principal_response latest), m)
           | None \<Rightarrow> (Inr (make_status_response False ''not found''), m)))"

definition get_metadata_config :: "'j handler" where
  "get_metadata_config env cmd m =
     (Inr (make_metadata_config_response
        \<lparr>meta_ip = metadata_ip (env_conf env), meta_port = metadata_port (env_conf env)\<rparr>), m)"

definition post_acl :: "'j handler" where
  "post_acl env cmd m =
     (case extract_post_acl cmd of
        None \<Rightarrow> (Inl Null_deref, m)
      | Some acl \<Rightarrow>
          (case acl_policies acl of
             [] \<Rightarrow> (Inr (make_status_response False ''must provide one policy''), m)
           | policy # _ \<Rightarrow>
               call_metadata (post_object_acl (env_web env) (cmd_auth cmd) (acl_name acl) policy)
                 (\<lambda>_. make_status_response True '''') m))"

definition endorse_membership :: "'j handler" where
  "endorse_membership env cmd m =
     (case extract_endorse_principal cmd of
        None \<Rightarrow> (Inl Null_deref, m)
      | Some ep \<Rightarrow>
          (case ep_endorsements ep of
             [] \<Rightarrow> (Inr (make_status_response False ''must provide one endorsement''), m)
           | st # _ \<Rightarrow>
               with_legacy_config (code_config (p_code (ep_principal ep)))
                 (\<lambda>target_config. call_metadata
                    (md_endorse_membership (env_web env) (cmd_auth cmd)
                       (auth_ip (p_auth (ep_principal ep))) (port_lo (p_auth (ep_principal ep)))
                       (p_gn (ep_principal ep)) (property st) target_config)
                    (\<lambda>_. make_status_response True '''')) m))"

definition endorse_attester :: "'j handler" where
  "endorse_attester env cmd m =
     (case extract_endorse cmd of
        None \<Rightarrow> (Inl Null_deref, m)
      | Some e \<Rightarrow>
          with_legacy_config (e_config e)
            (\<lambda>config. call_metadata
               (if e_type e = Endorse_SOURCE
                then endorse_attester_on_source (env_web env) (cmd_auth cmd) (e_id e) config
                else md_endorse_attester (env_web env) (cmd_auth cmd) (e_id e) config)
               (\<lambda>_. make_status_response True '''')) m)"

definition endorse_builder :: "'j handler" where
  "endorse_builder env cmd m =
     (case extract_endorse cmd of
        None \<Rightarrow> (Inl Null_deref, m)
      | Some e \<Rightarrow>
          if length (e_endorsements e) = 0
          then (Inr (make_status_response False ''must provide one endorsement''), m)
          else with_legacy_config (e_config e)
            (\<lambda>config. call_metadata
               (if e_type e = Endorse_SOURCE
                then endorse_builder_on_source (env_web env) (cmd_auth cmd) (e_id e) config
                else md_endorse_builder (env_web env) (cmd_auth cmd) (e_id e) config)
               (\<lambda>_. make_status_response True '''')) m)"

definition endorse_source :: "'j handler" where
  "endorse_source env cmd m =
     (case extract_endorse cmd of
        None \<Rightarrow> (Inl Null_deref, m)
      | Some e \<Rightarrow>
          (case e_endorsements e of
             [] \<Rightarrow> (Inr (make_status_response False ''must provide one endorsement''), m)
           | st # _ \<Rightarrow>
               with_legacy_config (e_config e)
                 (\<lambda>config m.
                    if e_type e = Endorse_SOURCE
                    then (Inr (make_status_response False ''source endorse this is image only''), m)
                    else call_metadata
                           (endorse_image (env_web env) (cmd_auth cmd) (e_id e) (property st) config)
                           (\<lambda>_. make_status_response True '''') m) m))"

definition check_property :: "'j handler" where
  "check_property env cmd m =
     (case extract_check_property cmd of
        None \<Rightarrow> (Inl Null_deref, m)
      | Some check \<Rightarrow>
          (case cp_properties check of
             [] \<Rightarrow> (Inr (make_status_response False ''must provide one property''), m)
           | prop # _ \<Rightarrow>
               call_metadata
                 (has_property (env_web env) (cmd_auth cmd) (auth_ip (p_auth (cp_principal check)))
                    (port_lo (p_auth (cp_principal check))) prop '''') status_of m))"

definition check_attestation :: "'j handler" where
  "check_attestation env cmd m =
     (case extract_check_attestation cmd of
        None \<Rightarrow> (Inl Null_deref, m)
      | Some a \<Rightarrow>
          call_metadata
            (attest (env_web env) (cmd_auth cmd) (auth_ip (p_auth (catt_principal a)))
               (port_lo (p_auth (catt_principal a))) '''')
            (\<lambda>c. make_attestation_response \<lparr>att_principal = default_Principal, content = c\<rparr>) m)"

definition check_access :: "'j handler" where
  "check_access env cmd m =
     (case extract_check_access cmd of
        None \<Rightarrow> (Inl Null_deref, m)
      | Some check \<Rightarrow>
          (case ca_objects check of
             [] \<Rightarrow> (Inr (make_status_response False ''must provide one object''), m)
           | obj # _ \<Rightarrow>
               call_metadata
                 (can_access (env_web env) (cmd_auth cmd) (auth_ip (p_auth (ca_principal check)))
                    (port_lo (p_auth (ca_principal check))) obj '''') status_of m))"

definition check_worker_access :: "'j handler" where
  "check_worker_access env cmd m =
     (case extract_check_access cmd of
        None \<Rightarrow> (Inl Null_deref, m)
      | Some check \<Rightarrow>
          (case ca_objects check of
             [] \<Rightarrow> (Inr (make_status_response False ''must provide one object''), m)
           | obj # _ \<Rightarrow>
               call_metadata
                 (can_worker_access (env_web env) (cmd_auth cmd) (auth_ip (p_auth (ca_principal check)))
                    (port_lo (p_auth (ca_principal check))) obj '''') status_of m))"

definition check_image_property :: "'j handler" where
  "check_image_property env cmd m =
     (case extract_check_image cmd of
        None \<Rightarrow> (Inl Null_deref, m)
      | Some check \<Rightarrow>
          (case ci_property check of
             [] \<Rightarrow> (Inr (make_status_response False ''must provide one property''), m)
           | prop # _ \<Rightarrow>
               with_legacy_config (ci_config check)
                 (\<lambda>config. call_metadata
                    (image_has_property (env_web env) (cmd_auth cmd) (ci_image check) config prop)
                    status_of) m))"

section \<open>Dispatch\<close>

type_synonym ('j) dispatch_table = "u32 \<Rightarrow> 'j handler option"

definition register_handler :: "command_type \<Rightarrow> 'j handler \<Rightarrow> 'j dispatch_table \<Rightarrow> 'j dispatch_table" where
  "register_handler t h table = table(type_value t \<mapsto> h)"

definition registrations :: "(command_type \<times> 'j handler) list" where
  "registrations =
     [(CREATE_PRINCIPAL, create_principal), (DELETE_PRINCIPAL, delete_principal),
      (GET_PRINCIPAL, get_principal), (ENDORSE_PRINCIPAL, endorse_principal),
      (REVOKE_PRINCIPAL_ENDORSEMENT, revoke_principal), (ENDORSE, endorse), (REVOKE, revoke),
      (GET_LOCAL_PRINCIPAL, get_local_principal), (GET_METADATA_CONFIG, get_metadata_config),
      (POST_ACL, post_acl), (ENDORSE_MEMBERSHIP, endorse_membership),
      (ENDORSE_ATTESTER_IMAGE, endorse_attester), (ENDORSE_BUILDER_IMAGE, endorse_builder),
      (ENDORSE_SOURCE_IMAGE, endorse_source), (CHECK_PROPERTY, check_property),
      (CHECK_ATTESTATION, check_attestation), (CHECK_ACCESS, check_access),
      (CHECK_WORKER_ACCESS, check_worker_access), (CHECK_IMAGE_PROPERTY, check_image_property),
      (FREE_CALL, free_call), (GUARD_CALL, guard_call), (LINK_IMAGE, link_image)]"

definition init_table :: "'j dispatch_table" where
  "init_table = fold (\<lambda>(t, h). register_handler t h) registrations Map.empty"

definition find_handler :: "u32 \<Rightarrow> 'j handler option" where
  "find_handler t = init_table t"

text \<open>
  \<open>dispatch\<close>: the response handed to the writer, or the fault that leaves it.  The three
  catch clauses turn their exceptions into a negative status.
\<close>

definition catch_fault :: "fault \<Rightarrow> fault + Response" where
  "catch_fault f =
     (case f of
        Runtime_error e \<Rightarrow> Inr (make_status_response False (''runtime error '' @ e))
      | Json_exception e \<Rightarrow> Inr (make_status_response False (''json error '' @ e))
      | Http_exception e \<Rightarrow> Inr (make_status_response False (''http error '' @ e))
      | _ \<Rightarrow> Inl f)"

definition dispatch :: "'j handler" where
  "dispatch env cmd m =
     (case find_handler (cmd_type cmd) of
        Some h \<Rightarrow> (case h env cmd m of (Inl f, m') \<Rightarrow> (catch_fault f, m') | (Inr r, m') \<Rightarrow> (Inr r, m'))
      | None \<Rightarrow>
          (Inr (make_status_response False (''not handler found for type '' @ Type_Name (cmd_type cmd))), m))"

end
