(* ===== verification/Registry.thy ===== *)
theory Registry
  imports Manager
begin

text \<open>
  The principal registry the manager keeps: the interface the handlers rely on as a locale,
  its interpretation on the multimap of server/manager.cc, the invariant of every reachable
  manager, and the properties of creation, lookup and deletion.
\<close>

section \<open>The interface\<close>

text \<open>
  A registry holds several generations of a principal under one id and serves the newest.
  A client sees it as a map from ids to principals, provided that what it adds is newer than
  everything it added before.
\<close>

locale generation_registry =
  fixes add :: "'i \<Rightarrow> 'p \<Rightarrow> 'r \<Rightarrow> 'r"
    and discard :: "'i \<Rightarrow> 'r \<Rightarrow> 'r"
    and newest :: "'i \<Rightarrow> 'r \<Rightarrow> 'p option"
    and newer :: "'p \<Rightarrow> 'r \<Rightarrow> bool"
  assumes newest_add_same: "newer p r \<Longrightarrow> newest i (add i p r) = Some p"
    and newest_add_other: "i \<noteq> j \<Longrightarrow> newest j (add i p r) = newest j r"
    and newest_discard_same: "newest i (discard i r) = None"
    and newest_discard_other: "i \<noteq> j \<Longrightarrow> newest j (discard i r) = newest j r"
begin

lemma add_refines_update:
  "newer p r \<Longrightarrow> (\<lambda>j. newest j (add i p r)) = (\<lambda>j. newest j r)(i \<mapsto> p)"
  by (rule ext) (simp add: newest_add_same newest_add_other)

lemma discard_refines_delete:
  "(\<lambda>j. newest j (discard i r)) = (\<lambda>j. newest j r)(i := None)"
  by (rule ext) (simp add: newest_discard_same newest_discard_other)

lemma add_then_discard:
  "newer p r \<Longrightarrow> (\<lambda>j. newest j (discard i (add i p r))) = (\<lambda>j. newest j r)(i := None)"
  by (simp add: discard_refines_delete add_refines_update)

end

section \<open>The multimap implements it\<close>

definition newer_than_all :: "Principal \<Rightarrow> principal_map \<Rightarrow> bool" where
  "newer_than_all p ps \<longleftrightarrow> (\<forall>e \<in> set ps. p_gn (snd e) \<le> p_gn p)"

lemma equal_range_simps [simp]:
  "equal_range i [] = []"
  "equal_range i (e # ps) = (if fst e = i then snd e # equal_range i ps else equal_range i ps)"
  "equal_range i (ps @ qs) = equal_range i ps @ equal_range i qs"
  by (simp_all add: equal_range_def)

lemma equal_range_erase [simp]:
  "equal_range i (erase_range i ps) = []"
  "i \<noteq> j \<Longrightarrow> equal_range j (erase_range i ps) = equal_range j ps"
  by (induction ps) (auto simp: erase_range_def)

lemma set_equal_range: "p \<in> set (equal_range i ps) \<longleftrightarrow> (i, p) \<in> set ps"
  by (induction ps) auto

lemma latest_loop_newest:
  assumes "\<forall>q \<in> set ps. p_gn q \<le> p_gn p" "g \<le> p_gn p"
  shows "latest_loop (ps @ [p]) g l = Some p"
  using assms by (induction ps arbitrary: g l) auto

text \<open>The loop returns a maximal generation of the range.\<close>

lemma latest_loop_max:
  assumes "latest_loop ps g l = Some p"
  shows "(p \<in> set ps \<and> g \<le> p_gn p \<and> (\<forall>q \<in> set ps. p_gn q \<le> p_gn p))
       \<or> (l = Some p \<and> (\<forall>q \<in> set ps. p_gn q < g))"
  using assms
proof (induction ps arbitrary: g l)
  case (Cons a ps)
  show ?case
  proof (cases "g \<le> p_gn a")
    case True
    with Cons.prems have "latest_loop ps (p_gn a) (Some a) = Some p" by simp
    from Cons.IH [OF this] True show ?thesis by auto
  next
    case False
    with Cons.prems have "latest_loop ps g l = Some p" by simp
    from Cons.IH [OF this] False show ?thesis by auto
  qed
qed simp

lemma latest_loop_None:
  "latest_loop ps g l = None \<longleftrightarrow> l = None \<and> (\<forall>q \<in> set ps. p_gn q < g)"
proof (induction ps arbitrary: g l)
  case (Cons a ps)
  then show ?case by (cases "g \<le> p_gn a") (auto simp: not_le)
qed simp

lemma find_latest_None: "find_latest i ps = None \<longleftrightarrow> equal_range i ps = []"
  by (auto simp: find_latest_def latest_loop_None)

lemma erase_range_absent: "find_latest i ps = None \<Longrightarrow> erase_range i ps = ps"
  by (auto simp: find_latest_None equal_range_def erase_range_def filter_id_conv filter_empty_conv)

lemma find_latest_max:
  assumes "find_latest i ps = Some p"
  shows "(i, p) \<in> set ps \<and> (\<forall>q. (i, q) \<in> set ps \<longrightarrow> p_gn q \<le> p_gn p)"
  using latest_loop_max [of "equal_range i ps" 0 None p] assms
  by (simp add: find_latest_def set_equal_range)

interpretation reg: generation_registry add_principal erase_range find_latest newer_than_all
proof
  show "newer_than_all p r \<Longrightarrow> find_latest i (add_principal i p r) = Some p" for p r i
    unfolding find_latest_def add_principal_def newer_than_all_def
    by (fastforce intro!: latest_loop_newest simp: set_equal_range)
qed (auto simp: find_latest_def add_principal_def)

section \<open>Frames\<close>

lemma call_metadata_eq:
  "call_metadata f k m =
     (case fst (f (posted m)) of Inl e \<Rightarrow> Inl e | Inr a \<Rightarrow> Inr (k a),
      m\<lparr>posted := snd (f (posted m))\<rparr>)"
  by (simp add: call_metadata_def split: prod.split sum.split)

definition same_registry :: "manager \<Rightarrow> manager \<Rightarrow> bool" where
  "same_registry m m' \<longleftrightarrow> principals m' = principals m \<and> next_gn m' = next_gn m"

lemma same_registry_refl [simp]: "same_registry m m"
  by (simp add: same_registry_def)

lemma same_registry_call [simp]: "same_registry m (snd (call_metadata f k m))"
  by (simp add: same_registry_def call_metadata_eq)

lemma same_registry_legacy:
  "(\<And>c. same_registry m (snd (k c m))) \<Longrightarrow> same_registry m (snd (with_legacy_config confs k m))"
  by (simp add: with_legacy_config_def split: option.split)

text \<open>Every handler but the two that change it leaves the registry alone.\<close>

lemma handler_frames:
  "same_registry m (snd (free_call env cmd m))"
  "same_registry m (snd (guard_call env cmd m))"
  "same_registry m (snd (link_image env cmd m))"
  "same_registry m (snd (get_principal env cmd m))"
  "same_registry m (snd (endorse_principal env cmd m))"
  "same_registry m (snd (revoke_principal env cmd m))"
  "same_registry m (snd (endorse env cmd m))"
  "same_registry m (snd (revoke env cmd m))"
  "same_registry m (snd (get_local_principal env cmd m))"
  "same_registry m (snd (get_metadata_config env cmd m))"
  "same_registry m (snd (post_acl env cmd m))"
  "same_registry m (snd (endorse_membership env cmd m))"
  "same_registry m (snd (endorse_attester env cmd m))"
  "same_registry m (snd (endorse_builder env cmd m))"
  "same_registry m (snd (endorse_source env cmd m))"
  "same_registry m (snd (check_property env cmd m))"
  "same_registry m (snd (check_attestation env cmd m))"
  "same_registry m (snd (check_access env cmd m))"
  "same_registry m (snd (check_worker_access env cmd m))"
  "same_registry m (snd (check_image_property env cmd m))"
  by (simp_all add: free_call_def guard_call_def link_image_def get_principal_def
      endorse_principal_def revoke_principal_def endorse_def revoke_def get_local_principal_def
      get_metadata_config_def post_acl_def endorse_membership_def endorse_attester_def
      endorse_builder_def endorse_source_def check_property_def check_attestation_def
      check_access_def check_worker_access_def check_image_property_def same_registry_legacy Let_def
      split: option.split list.split)

lemma find_handler_eq:
  "find_handler v =
     (if v = 0 then Some create_principal else if v = 1 then Some delete_principal
      else if v = 2 then Some endorse_principal else if v = 3 then Some revoke_principal
      else if v = 4 then Some endorse else if v = 5 then Some revoke
      else if v = 6 then Some get_principal else if v = 7 then Some free_call
      else if v = 8 then Some guard_call else if v = 9 then Some link_image
      else if v = 20 then Some get_local_principal else if v = 21 then Some get_metadata_config
      else if v = 50 then Some endorse_membership else if v = 51 then Some endorse_attester
      else if v = 53 then Some endorse_source else if v = 54 then Some endorse_builder
      else if v = 100 then Some check_property else if v = 101 then Some check_attestation
      else if v = 102 then Some check_access else if v = 103 then Some post_acl
      else if v = 104 then Some check_worker_access else if v = 105 then Some check_image_property
      else None)"
  by (simp add: find_handler_def init_table_def registrations_def register_handler_def)

lemma dispatch_state:
  "snd (dispatch env cmd m) = (case find_handler (cmd_type cmd) of Some h \<Rightarrow> snd (h env cmd m) | None \<Rightarrow> m)"
  by (simp add: dispatch_def split: option.split prod.split sum.split)

lemma dispatch_frame:
  assumes "cmd_type cmd \<noteq> type_value CREATE_PRINCIPAL" "cmd_type cmd \<noteq> type_value DELETE_PRINCIPAL"
  shows "same_registry m (snd (dispatch env cmd m))"
  using assms by (simp add: dispatch_state find_handler_eq handler_frames)

lemma dispatch_kinds:
  obtains "cmd_type cmd = 0" | "cmd_type cmd = 1"
  | "cmd_type cmd \<noteq> 0" "cmd_type cmd \<noteq> 1" "same_registry m (snd (dispatch env cmd m))"
  using dispatch_frame [of cmd m env] by auto

section \<open>The two handlers that change the registry\<close>

definition registered :: "Command \<Rightarrow> manager \<Rightarrow> Principal \<Rightarrow> Principal" where
  "registered cmd m p = p\<lparr>p_gn := next_gn m, p_speaker := cmd_pid cmd\<rparr>"

definition may_delete :: "Command \<Rightarrow> Principal \<Rightarrow> bool" where
  "may_delete cmd p \<longleftrightarrow> p_speaker p = cmd_pid cmd \<or> cmd_uid cmd = 0"

lemma registered_simps [simp]:
  "p_id (registered cmd m p) = p_id p"
  "p_gn (registered cmd m p) = next_gn m"
  "p_speaker (registered cmd m p) = cmd_pid cmd"
  by (simp_all add: registered_def)

text \<open>The call of the metadata client that creating \<open>p\<close> makes.\<close>

definition creation :: "'j guard_env \<Rightarrow> Command \<Rightarrow> manager \<Rightarrow> Principal \<Rightarrow> bool posted" where
  "creation env cmd m p =
     md_create_instance (env_web env) (cmd_auth cmd) (principal_name (registered cmd m p))
       (code_image (p_code p)) (auth_ip (p_auth p)) (port_lo (p_auth p)) (port_hi (p_auth p))
       (if image_store (p_code p) = [] then cmd_auth cmd else image_store (p_code p))
       (env_order env (code_config (p_code p)))"

lemma create_principal_eq:
  assumes "extract_principal cmd = Some p"
  shows "create_principal env cmd m =
     (case creation env cmd m p (posted m) of
        (Inl e, sent) \<Rightarrow> (Inl e, m\<lparr>next_gn := next_gn m + 1, posted := sent\<rparr>)
      | (Inr _, sent) \<Rightarrow> (Inr (make_status_response True ''''),
          m\<lparr>next_gn := next_gn m + 1, posted := sent,
            principals := add_principal (p_id p) (registered cmd m p) (principals m)\<rparr>))"
  using assms
  by (simp add: create_principal_def take_gn_def registered_def creation_def principal_name_def Let_def
      split: prod.split sum.split)

lemma create_principal_cases:
  obtains
    (malformed) "extract_principal cmd = None"
      "create_principal env cmd m = (Inr (make_status_response False ''principal not found or mal-formed''), m)"
  | (refused) p f sent where "extract_principal cmd = Some p"
      "create_principal env cmd m = (Inl f, m\<lparr>next_gn := next_gn m + 1, posted := sent\<rparr>)"
  | (created) p sent where "extract_principal cmd = Some p"
      "create_principal env cmd m = (Inr (make_status_response True ''''),
         m\<lparr>next_gn := next_gn m + 1, posted := sent,
           principals := add_principal (p_id p) (registered cmd m p) (principals m)\<rparr>)"
proof (cases "extract_principal cmd")
  case (Some p)
  obtain res sent where c: "creation env cmd m p (posted m) = (res, sent)" by fastforce
  show thesis
  proof (cases res)
    case (Inl f)
    with Some c show thesis by (intro refused [OF Some]) (simp add: create_principal_eq)
  next
    case (Inr b)
    with Some c show thesis by (intro created [OF Some]) (simp add: create_principal_eq)
  qed
qed (simp add: malformed create_principal_def)

lemma delete_principal_cases:
  obtains
    (malformed) "extract_principal cmd = None"
      "delete_principal env cmd m = (Inr (make_status_response False ''principal not found or mal-formed''), m)"
  | (absent) p where "extract_principal cmd = Some p" "find_latest (p_id p) (principals m) = None"
      "delete_principal env cmd m = (Inr (make_status_response False ''latest principal not found''), m)"
  | (denied) p q where "extract_principal cmd = Some p" "find_latest (p_id p) (principals m) = Some q"
      "\<not> may_delete cmd q"
      "delete_principal env cmd m = (Inr (make_status_response False ''privilege not matching''), m)"
  | (deleted) p q res where "extract_principal cmd = Some p"
      "find_latest (p_id p) (principals m) = Some q" "may_delete cmd q"
      "delete_principal env cmd m = (res,
         m\<lparr>principals := erase_range (p_id p) (principals m),
           posted := posted m @ [format_request ''/lazyDeleteInstance'' (cmd_auth cmd) [principal_name q] '''']\<rparr>)"
proof (cases "extract_principal cmd")
  case (Some p)
  show thesis
  proof (cases "find_latest (p_id p) (principals m)")
    case None
    with Some erase_range_absent [OF None] show thesis by (intro absent) (simp_all add: delete_principal_def)
  next
    case q: (Some q)
    show thesis
    proof (cases "may_delete cmd q")
      case True
      with Some q show thesis
        by (intro deleted [OF Some q True])
          (auto simp: delete_principal_def may_delete_def call_metadata_eq md_delete_instance_def post_simps)
    next
      case False
      with Some q show thesis
        by (intro denied [OF Some q False]) (simp add: delete_principal_def may_delete_def)
    qed
  qed
qed (simp add: malformed delete_principal_def)

section \<open>Reachable managers\<close>

definition reg_inv :: "manager \<Rightarrow> bool" where
  "reg_inv m \<longleftrightarrow>
     (\<forall>e \<in> set (principals m). fst e = p_id (snd e) \<and> p_gn (snd e) < next_gn m)
     \<and> distinct (map (\<lambda>e. p_gn (snd e)) (principals m))"

text \<open>A manager that has answered \<open>n\<close> commands since it was started.\<close>

inductive served :: "'j guard_env \<Rightarrow> nat \<Rightarrow> manager \<Rightarrow> bool" for env where
  started: "served env 0 init_manager"
| answered: "served env n m \<Longrightarrow> dispatch env cmd m = (Inr r, m') \<Longrightarrow> served env (Suc n) m'"

text \<open>The answers to a sequence of commands, and the manager they leave.\<close>

fun answers :: "'j guard_env \<Rightarrow> Command list \<Rightarrow> manager \<Rightarrow> (fault + Response) list \<times> manager" where
  "answers env [] m = ([], m)"
| "answers env (c # cs) m =
     (case dispatch env c m of (r, m1) \<Rightarrow> (case answers env cs m1 of (rs, m2) \<Rightarrow> (r # rs, m2)))"

lemma snd_answers: "snd (answers env cs m) = fold (\<lambda>c m. snd (dispatch env c m)) cs m"
  by (induction cs arbitrary: m) (simp_all add: split_beta)

lemma next_gn_less:
  fixes g n :: u64
  assumes "n \<noteq> - 1" shows "n < n + 1" "g < n \<Longrightarrow> g < n + 1" "unat (n + 1) = Suc (unat n)"
proof -
  have "1 + n \<noteq> 0" using assms by (metis add.commute add_eq_0_iff2)
  then show u: "unat (n + 1) = Suc (unat n)" using unatSuc [of n] by (simp add: add.commute)
  show "n < n + 1" "g < n \<Longrightarrow> g < n + 1" using u by (simp_all add: word_less_nat_alt)
qed

lemma counter_small:
  fixes g :: u64
  assumes "unat g \<le> n" "Suc n < 2 ^ 64" shows "g \<noteq> - 1"
proof
  assume "g = - 1"
  then have "unat g = 2 ^ 64 - 1" by (simp add: unsigned_minus_1_eq_mask mask_eq_exp_minus_1)
  with assms show False by simp
qed

lemma reg_inv_newer: "reg_inv m \<Longrightarrow> newer_than_all (registered cmd m p) (principals m)"
  by (auto simp: reg_inv_def newer_than_all_def)

lemma reg_inv_create:
  assumes "reg_inv m" "next_gn m \<noteq> - 1"
  shows "reg_inv (snd (create_principal env cmd m))"
proof (cases rule: create_principal_cases [of cmd env m])
  case (created p sent)
  with assms next_gn_less [OF assms(2)] show ?thesis
    by (fastforce simp: reg_inv_def add_principal_def)
qed (use assms next_gn_less [OF assms(2)] in \<open>auto simp: reg_inv_def\<close>)

lemma reg_inv_delete:
  assumes "reg_inv m" shows "reg_inv (snd (delete_principal env cmd m))"
proof (cases rule: delete_principal_cases [of cmd env m])
  case (deleted p q res)
  with assms show ?thesis
    by (auto simp: reg_inv_def erase_range_def distinct_map_filter)
qed (use assms in auto)

lemma reg_inv_dispatch:
  assumes "reg_inv m" "next_gn m \<noteq> - 1" shows "reg_inv (snd (dispatch env cmd m))"
proof (cases rule: dispatch_kinds [where cmd = cmd and m = m and env = env])
  case 3 then show ?thesis using assms by (simp add: same_registry_def reg_inv_def)
qed (simp_all add: dispatch_state find_handler_eq reg_inv_create reg_inv_delete assms)

lemma next_gn_dispatch:
  "next_gn (snd (dispatch env cmd m)) = next_gn m \<or> next_gn (snd (dispatch env cmd m)) = next_gn m + 1"
proof (cases rule: dispatch_kinds [where cmd = cmd and m = m and env = env])
  case 1 then show ?thesis
    by (cases rule: create_principal_cases [of cmd env m]) (simp_all add: dispatch_state find_handler_eq)
next
  case 2 then show ?thesis
    by (cases rule: delete_principal_cases [of cmd env m]) (simp_all add: dispatch_state find_handler_eq)
qed (simp add: same_registry_def)

lemma served_inv:
  "served env n m \<Longrightarrow> n < 2 ^ 64 \<Longrightarrow> reg_inv m \<and> unat (next_gn m) \<le> n"
proof (induction rule: served.induct)
  case started show ?case by (simp add: init_manager_def reg_inv_def)
next
  case (answered n m cmd r m')
  then have IH: "reg_inv m" "unat (next_gn m) \<le> n" by simp_all
  have small: "next_gn m \<noteq> - 1" by (rule counter_small [OF IH(2) answered.prems])
  have "snd (dispatch env cmd m) = m'" using answered.hyps by simp
  with reg_inv_dispatch [OF IH(1) small, of env cmd] next_gn_dispatch [of env cmd m]
    next_gn_less(3) [OF small] IH(2) show ?case by auto
qed

section \<open>The registry as a map\<close>

text \<open>What clients see of the registry, and what a command does to it.\<close>

definition registry_view :: "manager \<Rightarrow> u64 \<times> (u64 \<rightharpoonup> Principal)" where
  "registry_view m = (next_gn m, \<lambda>i. find_latest i (principals m))"

definition spec_step ::
  "Command \<Rightarrow> fault + Response \<Rightarrow> u64 \<times> (u64 \<rightharpoonup> Principal) \<Rightarrow> u64 \<times> (u64 \<rightharpoonup> Principal)" where
  "spec_step cmd answer gv =
     (case extract_principal cmd of
        None \<Rightarrow> gv
      | Some p \<Rightarrow>
          (let (g, v) = gv in
           if cmd_type cmd = type_value CREATE_PRINCIPAL
           then (g + 1, if answer = Inr (make_status_response True '''')
                        then v(p_id p \<mapsto> p\<lparr>p_gn := g, p_speaker := cmd_pid cmd\<rparr>) else v)
           else if cmd_type cmd = type_value DELETE_PRINCIPAL
           then (g, case v (p_id p) of
                      Some q \<Rightarrow> if may_delete cmd q then v(p_id p := None) else v
                    | None \<Rightarrow> v)
           else (g, v)))"

lemma catch_fault_not_success [simp]: "catch_fault f \<noteq> Inr (make_status_response True msg)"
  by (simp add: catch_fault_def make_status_response_def split: fault.split)

lemma dispatch_handled:
  assumes "find_handler (cmd_type cmd) = Some h"
  shows "dispatch env cmd m =
    (case fst (h env cmd m) of Inl f \<Rightarrow> catch_fault f | Inr r \<Rightarrow> Inr r, snd (h env cmd m))"
  using assms by (simp add: dispatch_def split: prod.split sum.split)

lemma registry_create:
  assumes "newer_than_all (registered cmd m p) (principals m)" "extract_principal cmd = Some p"
    "cmd_type cmd = 0"
  shows "registry_view (snd (dispatch env cmd m)) =
    (next_gn m + 1, if fst (dispatch env cmd m) = Inr (make_status_response True '''')
      then (\<lambda>i. find_latest i (principals m))(p_id p \<mapsto> registered cmd m p)
      else (\<lambda>i. find_latest i (principals m)))"
  using assms
  by (cases rule: create_principal_cases [of cmd env m])
    (simp_all add: dispatch_handled find_handler_eq registry_view_def reg.add_refines_update)

lemma registry_delete:
  assumes "extract_principal cmd = Some p" "cmd_type cmd = 1"
  shows "registry_view (snd (dispatch env cmd m)) =
    (next_gn m, let v = (\<lambda>i. find_latest i (principals m)) in
       case v (p_id p) of Some q \<Rightarrow> if may_delete cmd q then v(p_id p := None) else v | None \<Rightarrow> v)"
  using assms
  by (cases rule: delete_principal_cases [of cmd env m])
    (simp_all add: dispatch_handled find_handler_eq registry_view_def reg.discard_refines_delete)

lemma registry_same:
  "same_registry m m' \<Longrightarrow> registry_view m' = registry_view m"
  by (simp add: registry_view_def same_registry_def)

lemma registry_malformed:
  assumes "extract_principal cmd = None"
  shows "registry_view (snd (dispatch env cmd m)) = registry_view m"
  by (cases rule: dispatch_kinds [where cmd = cmd and m = m and env = env])
    (use assms in \<open>simp_all add: registry_same dispatch_handled find_handler_eq
      create_principal_def delete_principal_def\<close>)

lemma dispatch_refines_spec:
  assumes inv: "reg_inv m"
  shows "registry_view (snd (dispatch env cmd m)) = spec_step cmd (fst (dispatch env cmd m)) (registry_view m)"
proof (cases "extract_principal cmd")
  case None
  then show ?thesis by (simp add: registry_malformed spec_step_def)
next
  case (Some p)
  show ?thesis
  proof (cases rule: dispatch_kinds [where cmd = cmd and m = m and env = env])
    case 1
    from registry_create [OF reg_inv_newer [OF inv] Some 1, of env] 1 Some show ?thesis
      by (simp add: spec_step_def registry_view_def registered_def)
  next
    case 2
    from registry_delete [OF Some 2, of env m] 2 Some show ?thesis
      by (simp add: spec_step_def registry_view_def Let_def)
  next
    case 3
    with Some show ?thesis by (simp add: same_registry_def spec_step_def registry_view_def)
  qed
qed

text \<open>A sequence of commands refines the sequence of their abstract steps.\<close>

definition spec_run ::
  "(Command \<times> (fault + Response)) list \<Rightarrow> u64 \<times> (u64 \<rightharpoonup> Principal) \<Rightarrow> u64 \<times> (u64 \<rightharpoonup> Principal)" where
  "spec_run = fold (\<lambda>(cmd, answer). spec_step cmd answer)"

lemma answers_refine_spec:
  "reg_inv m \<Longrightarrow> unat (next_gn m) + length cs < 2 ^ 64 \<Longrightarrow> answers env cs m = (rs, m') \<Longrightarrow>
    registry_view m' = spec_run (zip cs rs) (registry_view m)"
proof (induction cs arbitrary: m rs)
  case (Cons c cs)
  obtain r m1 where d: "dispatch env c m = (r, m1)" by fastforce
  obtain rs1 where rs1: "answers env cs m1 = (rs1, m')" "rs = r # rs1"
    using Cons.prems(3) d by (auto split: prod.splits)
  have small: "next_gn m \<noteq> - 1" using counter_small [of "next_gn m" "unat (next_gn m)"] Cons.prems(2) by simp
  have "reg_inv m1" "unat (next_gn m1) \<le> Suc (unat (next_gn m))"
    using reg_inv_dispatch [OF Cons.prems(1) small, of env c] next_gn_dispatch [of env c m]
      next_gn_less(3) [OF small] d by auto
  with Cons.IH [of m1 rs1] rs1 Cons.prems(2)
  have "registry_view m' = spec_run (zip cs rs1) (registry_view m1)" by simp
  with dispatch_refines_spec [OF Cons.prems(1), of env c] d rs1(2) show ?case by (simp add: spec_run_def)
qed (simp add: spec_run_def)

section \<open>The contract of a dispatcher\<close>

text \<open>
  What a session may rely on when it hands commands to a dispatcher: a registration survives
  every command that is not from its owner, not privileged, and does not register the id anew.
\<close>

locale authorised_dispatcher =
  fixes handle :: "'c \<Rightarrow> 's \<Rightarrow> 's"
    and lookup :: "'i \<Rightarrow> 's \<Rightarrow> 'p option"
    and owner :: "'p \<Rightarrow> 'u"
    and sender :: "'c \<Rightarrow> 'u"
    and privileged :: "'c \<Rightarrow> bool"
    and registers :: "'c \<Rightarrow> 'i \<Rightarrow> bool"
  assumes stranger_keeps:
    "lookup i s = Some p \<Longrightarrow> sender c \<noteq> owner p \<Longrightarrow> \<not> privileged c \<Longrightarrow> \<not> registers c i
      \<Longrightarrow> lookup i (handle c s) = Some p"
begin

lemma strangers_keep:
  "lookup i s = Some p
    \<Longrightarrow> \<forall>c \<in> set cs. sender c \<noteq> owner p \<and> \<not> privileged c \<and> \<not> registers c i
    \<Longrightarrow> lookup i (fold handle cs s) = Some p"
  by (induction cs arbitrary: s) (simp_all add: stranger_keeps)

lemma loss_has_culprit:
  assumes "lookup i s = Some p" "lookup i (fold handle cs s) \<noteq> Some p"
  shows "\<exists>c \<in> set cs. sender c = owner p \<or> privileged c \<or> registers c i"
  using strangers_keep [OF assms(1), of cs] assms(2) by blast

end

definition registers_id :: "Command \<Rightarrow> u64 \<Rightarrow> bool" where
  "registers_id cmd i \<longleftrightarrow> cmd_type cmd = type_value CREATE_PRINCIPAL
     \<and> (case extract_principal cmd of Some p \<Rightarrow> p_id p = i | None \<Rightarrow> False)"

lemma dispatch_stranger:
  assumes "find_latest i (principals m) = Some q" "cmd_pid cmd \<noteq> p_speaker q" "cmd_uid cmd \<noteq> 0"
    "\<not> registers_id cmd i"
  shows "find_latest i (principals (snd (dispatch env cmd m))) = Some q"
proof (cases rule: dispatch_kinds [where cmd = cmd and m = m and env = env])
  case 1 then show ?thesis using assms
    by (cases rule: create_principal_cases [of cmd env m])
      (auto simp: dispatch_state find_handler_eq registers_id_def reg.newest_add_other)
next
  case 2
  then show ?thesis
  proof (cases rule: delete_principal_cases [of cmd env m])
    case (deleted p r res)
    then have "p_id p \<noteq> i" using assms by (auto simp: may_delete_def)
    with 2 deleted assms(1) show ?thesis
      by (simp add: dispatch_state find_handler_eq reg.newest_discard_other)
  qed (use assms(1) in \<open>simp_all add: dispatch_state find_handler_eq\<close>)
next
  case 3 then show ?thesis using assms by (simp add: same_registry_def)
qed

interpretation guard: authorised_dispatcher "\<lambda>cmd m. snd (dispatch env cmd m)"
    "\<lambda>i m. find_latest i (principals m)" p_speaker cmd_pid "\<lambda>cmd. cmd_uid cmd = 0" registers_id
  for env :: "'j guard_env"
  by unfold_locales (simp add: dispatch_stranger)

section \<open>Properties\<close>

text \<open>A service that confirms everything, and the commands of a process, for the examples.\<close>

definition demo_env :: "nat \<Rightarrow> string guard_env" where
  "demo_env code = \<lparr>env_web = echo_web code,
     env_conf = \<lparr>conf_myid = '''', conf_myip = ''10.0.0.1'', metadata_url = '''', metadata_ip = ''10.0.0.2'',
       local_ep = '''', metadata_port = 7777, conf_run_as_iaas = False\<rparr>,
     env_order = (\<lambda>c. c)\<rparr>"

definition demo_cmd :: "command_type \<Rightarrow> u64 \<Rightarrow> u64 \<Rightarrow> u64 \<Rightarrow> Command" where
  "demo_cmd t pid uid i = \<lparr>cmd_id = 1, cmd_type = type_value t, cmd_auth = ''guard'', cmd_pid = pid,
     cmd_uid = uid, cmd_gid = uid, statement = Any_Principal (default_Principal\<lparr>p_id := i\<rparr>)\<rparr>"

lemmas demo_eval =
  dispatch_handled find_handler_eq create_principal_eq creation_def demo_cmd_def demo_env_def
  extract_principal_def md_create_instance_def post_simps sink_task_def json_task_def echo_web_def
  extract_safe_identity_def quote_char_def

lemma demo_create:
  "dispatch (demo_env 200) (demo_cmd CREATE_PRINCIPAL pid uid i) m =
     (Inr (make_status_response True ''''), snd (dispatch (demo_env 200) (demo_cmd CREATE_PRINCIPAL pid uid i) m))"
  by (simp add: demo_eval)

lemma demo_served:
  "served (demo_env 200) 1 (snd (dispatch (demo_env 200) (demo_cmd CREATE_PRINCIPAL pid uid i) init_manager))"
  using served.answered [OF served.started demo_create] by simp

text \<open>
  C5.  The registry refines a map from ids to principals with a generation counter: a
  successful create binds the id to the principal stamped with the next generation and the
  creator's pid, every other create only consumes a generation, an authorised delete unbinds
  the id whatever the metadata service answers, and every other command, answered or not,
  leaves the map as it was.
\<close>

theorem registry_refinement:
  assumes "served env n m" "n < 2 ^ 64" "dispatch env cmd m = (answer, m')"
  shows "registry_view m' = spec_step cmd answer (registry_view m)"
  using dispatch_refines_spec [of m env cmd] served_inv [OF assms(1,2)] assms(3) by simp

theorem registry_refinement_witness:
  "fst (registry_view (snd (dispatch (demo_env 200) (demo_cmd CREATE_PRINCIPAL 42 1000 7) init_manager))) = 1"
  using registry_refinement [OF served.started _ demo_create, of 42 1000 7]
  by (simp add: spec_step_def registry_view_def init_manager_def extract_principal_def demo_cmd_def)

lemma principal_name_inj: "principal_name p = principal_name q \<longleftrightarrow> p_id p = p_id q \<and> p_gn p = p_gn q"
proof
  assume "principal_name p = principal_name q"
  then have "show_nat (unat (p_id p)) @ CHR ''_'' # show_nat (unat (p_gn p)) =
      show_nat (unat (p_id q)) @ CHR ''_'' # show_nat (unat (p_gn q))"
    by (simp add: principal_name_def)
  from separator_unique [OF this] have "unat (p_id p) = unat (p_id q)" "unat (p_gn p) = unat (p_gn q)"
    by (simp_all add: show_nat_no_char is_digit_def)
  then show "p_id p = p_id q \<and> p_gn p = p_gn q" by (simp add: word_unat_eq_iff)
qed (simp add: principal_name_def)

text \<open>
  C9.  In every manager that has answered fewer than 2^64 commands, each principal is
  stored under its own id, its generation is below the counter, and no two stored
  principals, of the same id or not, share a generation or the name under which the
  metadata service knows them.
\<close>

theorem served_registry_invariant:
  assumes "served env n m" "n < 2 ^ 64"
  shows "(\<forall>e \<in> set (principals m). fst e = p_id (snd e) \<and> p_gn (snd e) < next_gn m)
    \<and> distinct (map (\<lambda>e. p_gn (snd e)) (principals m))
    \<and> distinct (map (\<lambda>e. principal_name (snd e)) (principals m))
    \<and> unat (next_gn m) \<le> n"
proof -
  from served_inv [OF assms] have inv: "reg_inv m" "unat (next_gn m) \<le> n" by simp_all
  moreover have "distinct (map (\<lambda>e. principal_name (snd e)) (principals m))"
    using inv(1) by (auto simp: reg_inv_def distinct_map inj_on_def principal_name_inj)
  ultimately show ?thesis by (simp add: reg_inv_def)
qed

theorem served_registry_invariant_witness:
  "\<exists>m. served (demo_env 200) 1 m \<and> length (principals m) = 1 \<and> unat (next_gn m) \<le> 1"
  using served_registry_invariant [OF demo_served, of 42 1000 7] demo_served [of 42 1000 7]
  by (auto intro: exI simp: demo_eval init_manager_def add_principal_def)

text \<open>
  C19.  After a successful create, \<open>GET_LOCAL_PRINCIPAL\<close> for the same id returns the created
  principal, with the generation and the creator's pid filled in whatever the request said.
\<close>

theorem create_then_get_local:
  assumes "served env n m" "n < 2 ^ 64"
    and "cmd_type c = type_value CREATE_PRINCIPAL" "statement c = Any_Principal p"
    and "dispatch env c m = (Inr (make_status_response True ''''), m')"
    and "cmd_type g = type_value GET_LOCAL_PRINCIPAL" "statement g = Any_Principal q" "p_id q = p_id p"
  shows "dispatch env g m' =
    (Inr (make_principal_response (p\<lparr>p_gn := next_gn m, p_speaker := cmd_pid c\<rparr>)), m')"
proof -
  have "reg_inv m" using served_inv assms by blast
  from registry_create [OF reg_inv_newer [OF this], of c p env] assms(3-5)
  have "find_latest (p_id p) (principals m') = Some (registered c m p)"
    by (simp add: registry_view_def extract_principal_def fun_eq_iff)
  with assms(6-8) show ?thesis
    by (simp add: dispatch_handled find_handler_eq get_local_principal_def extract_principal_def registered_def)
qed

theorem create_then_get_local_witness:
  "\<exists>m'. dispatch (demo_env 200) (demo_cmd GET_LOCAL_PRINCIPAL 1 1 7) m' =
     (Inr (make_principal_response (default_Principal\<lparr>p_id := 7, p_gn := 0, p_speaker := 42\<rparr>)), m')"
  using create_then_get_local [OF served.started _ _ _ demo_create, of 42 1000 7
      "default_Principal\<lparr>p_id := 7\<rparr>" "demo_cmd GET_LOCAL_PRINCIPAL 1 1 7" "default_Principal\<lparr>p_id := 7\<rparr>"]
  by (auto simp: demo_cmd_def init_manager_def)

text \<open>
  C17.  Only an authorised deletion removes a principal: if any command makes the lookup of
  an id fail that succeeded before, it was a \<open>DELETE_PRINCIPAL\<close> for that id by the process
  that registered its newest generation or by root, and it sent the metadata service exactly
  one request, the deletion of that generation's name.
\<close>

theorem removal_is_authorised:
  assumes "find_latest i (principals m) = Some q"
    and "find_latest i (principals (snd (dispatch env cmd m))) = None"
  shows "cmd_type cmd = type_value DELETE_PRINCIPAL
    \<and> (\<exists>p. statement cmd = Any_Principal p \<and> p_id p = i)
    \<and> (p_speaker q = cmd_pid cmd \<or> cmd_uid cmd = 0)
    \<and> posted (snd (dispatch env cmd m)) =
        posted m @ [format_request ''/lazyDeleteInstance'' (cmd_auth cmd) [principal_name q] '''']"
proof -
  have create: "find_latest i (principals (snd (create_principal env cmd m))) \<noteq> None"
    using assms(1) find_latest_None [of i "principals m"]
    by (cases rule: create_principal_cases [of cmd env m]) (auto simp: find_latest_None add_principal_def)
  show ?thesis
  proof (cases rule: dispatch_kinds [where cmd = cmd and m = m and env = env])
    case 1 then show ?thesis using create assms(2) by (simp add: dispatch_state find_handler_eq)
  next
    case 2
    then show ?thesis using assms
    proof (cases rule: delete_principal_cases [of cmd env m])
      case (deleted p r res)
      have "p_id p = i"
        using assms deleted(4) 2 reg.newest_discard_other [of "p_id p" i "principals m"]
        by (cases "p_id p = i") (auto simp: dispatch_state find_handler_eq)
      with 2 deleted assms(1) show ?thesis
        by (auto simp: dispatch_state find_handler_eq may_delete_def extract_principal_def
            split: any_msg.splits)
    qed (auto simp: dispatch_state find_handler_eq)
  next
    case 3 then show ?thesis using assms by (simp add: same_registry_def)
  qed
qed

theorem removal_is_authorised_witness:
  "p_speaker (default_Principal\<lparr>p_id := 7, p_speaker := 42\<rparr>) = cmd_pid (demo_cmd DELETE_PRINCIPAL 42 1000 7)
     \<or> cmd_uid (demo_cmd DELETE_PRINCIPAL 42 1000 7) = 0"
proof -
  let ?m = "\<lparr>next_gn = 1, principals = [(7, default_Principal\<lparr>p_id := 7, p_speaker := 42\<rparr>)], posted = []\<rparr>"
  have "find_latest 7 (principals ?m) = Some (default_Principal\<lparr>p_id := 7, p_speaker := 42\<rparr>)"
    by (simp add: find_latest_def default_Principal_def)
  moreover have "find_latest 7 (principals (snd (dispatch (demo_env 200) (demo_cmd DELETE_PRINCIPAL 42 1000 7) ?m))) = None"
    by (simp add: demo_eval delete_principal_def find_latest_def default_Principal_def call_metadata_eq erase_range_def)
  ultimately show ?thesis using removal_is_authorised by blast
qed



text \<open>
  C35.  The privilege check looks at the newest generation only, and anybody may add one: a
  process that is neither root nor the owner of an id can register a generation of its own
  under it and then delete every generation, the owner's included.
\<close>

theorem id_takeover:
  assumes "served env n m" "n < 2 ^ 64" "find_latest i (principals m) = Some q"
    and "cmd_type c = type_value CREATE_PRINCIPAL" "statement c = Any_Principal p" "p_id p = i"
    and "dispatch env c m = (Inr (make_status_response True ''''), m1)"
    and "cmd_type d = type_value DELETE_PRINCIPAL" "statement d = Any_Principal p'" "p_id p' = i"
    and "cmd_pid d = cmd_pid c"
  shows "\<forall>e \<in> set (principals (snd (dispatch env d m1))). fst e \<noteq> i"
proof -
  have "reg_inv m" using served_inv assms by blast
  from registry_create [OF reg_inv_newer [OF this], of c p env] assms(4-7)
  have "find_latest i (principals m1) = Some (registered c m p)"
    by (simp add: registry_view_def extract_principal_def fun_eq_iff)
  with assms(8-11) show ?thesis
    by (cases rule: delete_principal_cases [of d env m1])
      (auto simp: dispatch_state find_handler_eq may_delete_def erase_range_def extract_principal_def)
qed

theorem id_takeover_witness:
  "\<exists>m q m1. find_latest 7 (principals m) = Some q \<and> p_speaker q = 42
     \<and> dispatch (demo_env 200) (demo_cmd CREATE_PRINCIPAL 66 1000 7) m = (Inr (make_status_response True ''''), m1)
     \<and> filter (\<lambda>e. fst e = 7)
         (principals (snd (dispatch (demo_env 200) (demo_cmd DELETE_PRINCIPAL 66 1000 7) m1))) = []"
proof -
  let ?m = "snd (dispatch (demo_env 200) (demo_cmd CREATE_PRINCIPAL 42 1000 7) init_manager)"
  have q: "find_latest 7 (principals ?m) = Some (default_Principal\<lparr>p_id := 7, p_speaker := 42\<rparr>)"
    by (simp add: demo_eval init_manager_def add_principal_def registered_def default_Principal_def find_latest_def)
  have "\<forall>e \<in> set (principals (snd (dispatch (demo_env 200) (demo_cmd DELETE_PRINCIPAL 66 1000 7)
      (snd (dispatch (demo_env 200) (demo_cmd CREATE_PRINCIPAL 66 1000 7) ?m))))). fst e \<noteq> 7"
    by (rule id_takeover [OF demo_served _ q _ _ _ demo_create, where
          p = "default_Principal\<lparr>p_id := 7\<rparr>" and p' = "default_Principal\<lparr>p_id := 7\<rparr>"])
      (simp_all add: demo_cmd_def)
  then have "filter (\<lambda>e. fst e = 7) (principals (snd (dispatch (demo_env 200) (demo_cmd DELETE_PRINCIPAL 66 1000 7)
      (snd (dispatch (demo_env 200) (demo_cmd CREATE_PRINCIPAL 66 1000 7) ?m))))) = []"
    by (simp add: filter_empty_conv)
  with q demo_create show ?thesis by (intro exI conjI) auto
qed




lemma find_latest_absent: "find_latest i ps = None \<longleftrightarrow> (\<forall>e \<in> set ps. fst e \<noteq> i)"
  by (auto simp: find_latest_None equal_range_def filter_empty_conv)

lemma generation_unique:
  "distinct (map (\<lambda>e. p_gn (snd e)) ps) \<Longrightarrow> (i, p) \<in> set ps \<Longrightarrow> (j, q) \<in> set ps \<Longrightarrow> p_gn p = p_gn q \<Longrightarrow> p = q"
  by (force simp: distinct_map inj_on_def)

lemma find_latest_determined:
  assumes "distinct (map (\<lambda>e. p_gn (snd e)) ps)" "set qs = set ps"
  shows "find_latest i qs = find_latest i ps"
proof (cases "find_latest i ps")
  case None
  then have "find_latest i qs = None" using assms(2) by (simp add: find_latest_absent)
  with None show ?thesis by simp
next
  case (Some p)
  note p = find_latest_max [OF Some]
  then have "find_latest i qs \<noteq> None" using assms(2) find_latest_absent [of i qs] by fastforce
  then obtain q where q: "find_latest i qs = Some q" by blast
  note find_latest_max [OF q]
  with p assms(2) have "p_gn q = p_gn p" "(i, q) \<in> set ps" "(i, p) \<in> set ps" by (auto intro: antisym)
  then have "q = p" using generation_unique [OF assms(1)] by blast
  with q Some show ?thesis by simp
qed

text \<open>
  C21.  The order in which the hash multimap happens to iterate does not matter: in every
  manager that has answered fewer than 2^64 commands, the loop over the range finds, in
  whatever order the entries come, the one principal of that id with the greatest generation,
  and nothing exactly when the id has no entry.
\<close>

theorem latest_order_independent:
  assumes "served env n m" "n < 2 ^ 64" "set qs = set (principals m)"
  shows "case find_latest i qs of
      None \<Rightarrow> \<forall>e \<in> set (principals m). fst e \<noteq> i
    | Some p \<Rightarrow> (i, p) \<in> set (principals m)
        \<and> (\<forall>q. (i, q) \<in> set (principals m) \<and> q \<noteq> p \<longrightarrow> p_gn q < p_gn p)"
proof -
  have d: "distinct (map (\<lambda>e. p_gn (snd e)) (principals m))"
    using served_inv [OF assms(1,2)] by (simp add: reg_inv_def)
  have eq: "find_latest i qs = find_latest i (principals m)"
    by (rule find_latest_determined [OF d assms(3)])
  show ?thesis
  proof (cases "find_latest i (principals m)")
    case None
    moreover from this have "\<forall>e \<in> set (principals m). fst e \<noteq> i" by (simp add: find_latest_absent)
    ultimately show ?thesis by (simp add: eq)
  next
    case (Some p)
    from find_latest_max [OF this] have p: "(i, p) \<in> set (principals m)"
      "\<And>q. (i, q) \<in> set (principals m) \<Longrightarrow> p_gn q \<le> p_gn p" by simp_all
    have "p_gn q < p_gn p" if "(i, q) \<in> set (principals m)" "q \<noteq> p" for q
      using p(2) [OF that(1)] generation_unique [OF d p(1) that(1)] that(2) by fastforce
    with p(1) Some show ?thesis by (simp add: eq)
  qed
qed

theorem latest_order_independent_witness:
  "\<exists>m. served (demo_env 200) 1 m
     \<and> (case find_latest 7 (rev (principals m) @ principals m) of
          None \<Rightarrow> False | Some p \<Rightarrow> (7, p) \<in> set (principals m))"
proof -
  let ?m = "snd (dispatch (demo_env 200) (demo_cmd CREATE_PRINCIPAL 42 1000 7) init_manager)"
  have "\<exists>e \<in> set (principals ?m). fst e = 7"
    by (simp add: demo_eval init_manager_def add_principal_def default_Principal_def)
  with latest_order_independent [OF demo_served, of "rev (principals ?m) @ principals ?m" 42 1000 7 7]
    demo_served show ?thesis by (intro exI [of _ ?m]) (auto split: option.splits)
qed

end
