(* ===== verification/Dispatch.thy ===== *)
theory Dispatch
  imports Registry
begin

text \<open>
  Which commands the dispatcher of server/manager.cc answers, and which ones end the
  daemon: several handlers use the result of an \<open>extract\<close> function without a null check or
  read a configuration entry with \<open>Map::at\<close>.
\<close>

section \<open>Faults of the metadata client\<close>

text \<open>
  Documented behaviour of the HTTP client and the JSON library: they fail with their own
  exceptions or with a \<open>runtime_error\<close>, all of which \<open>dispatch\<close> catches.
\<close>

definition web_catchable :: "'j web \<Rightarrow> bool" where
  "web_catchable w \<longleftrightarrow>
     (\<forall>sent r f. request w sent r = Inl f \<longrightarrow> catchable f)
     \<and> (\<forall>b f. extract_json w b = Inl f \<longrightarrow> catchable f)
     \<and> (\<forall>j f. message_string w j = Inl f \<longrightarrow> catchable f)"

definition throws_catchable :: "('a) posted \<Rightarrow> bool" where
  "throws_catchable g \<longleftrightarrow> (\<forall>sent f. fst (g sent) = Inl f \<longrightarrow> catchable f)"

lemma json_task_catchable:
  "web_catchable w \<Longrightarrow> json_task w msg (request w sent r) = Inl f \<Longrightarrow> catchable f"
  by (auto simp: json_task_def web_catchable_def split: sum.splits if_splits)

lemma throws_sink:
  "web_catchable w \<Longrightarrow> throws_catchable (sink_wait msg (post_statement w path sp st b))"
  by (auto simp: throws_catchable_def post_simps sink_task_def web_catchable_def split: sum.splits)

lemma throws_json:
  "web_catchable w \<Longrightarrow> throws_catchable (json_wait w msg (post_statement w path sp st b))"
  by (auto simp: throws_catchable_def post_simps json_task_catchable split: sum.splits)

lemma throws_check:
  assumes "web_catchable w"
  shows "throws_catchable (check_get w msg pat (post_statement w path sp st b))"
  using assms json_task_catchable [OF assms]
  by (fastforce simp: throws_catchable_def post_simps check_message_def web_catchable_def
      split: sum.splits fault.splits)

lemma throws_guard: assumes "web_catchable w" shows "throws_catchable (md_guard_call w sp cmd vals)"
  using assms json_task_catchable [OF assms]
  by (fastforce simp: throws_catchable_def post_simps md_guard_call_def web_catchable_def
      split: sum.splits fault.splits)

lemma throws_attest: assumes "web_catchable w" shows "throws_catchable (attest w sp ip port b)"
  using assms json_task_catchable [OF assms]
  by (fastforce simp: throws_catchable_def post_simps attest_def web_catchable_def
      split: sum.splits fault.splits)

lemma extract_safe_identity_catchable:
  "web_catchable w \<Longrightarrow> extract_safe_identity w j = Inl f \<Longrightarrow> catchable f"
  by (auto simp: extract_safe_identity_def web_catchable_def split: sum.splits option.splits if_splits)

lemma throws_create:
  assumes "web_catchable w"
  shows "throws_catchable (md_create_instance w sp pid img ip lo hi store confs)"
  using assms json_task_catchable [OF assms] extract_safe_identity_catchable [OF assms]
  by (fastforce simp: throws_catchable_def post_simps md_create_instance_def sink_task_def web_catchable_def
      split: sum.splits)

lemmas throws_simps = throws_sink throws_json throws_check throws_guard throws_attest throws_create

lemma throws_operations:
  assumes "web_catchable w"
  shows "throws_catchable (md_free_call w a b c)" "throws_catchable (md_guard_call w a b c)"
    "throws_catchable (md_link_image w a b d)" "throws_catchable (md_delete_instance w a b)"
    "throws_catchable (md_endorse w a b d e)" "throws_catchable (post_object_acl w a b d)"
    "throws_catchable (md_endorse_membership w a b port gn d e)"
    "throws_catchable (endorse_attester_on_source w a b d)" "throws_catchable (md_endorse_attester w a b d)"
    "throws_catchable (endorse_builder_on_source w a b d)" "throws_catchable (md_endorse_builder w a b d)"
    "throws_catchable (endorse_image w a b d e)" "throws_catchable (has_property w a b port d e)"
    "throws_catchable (can_access w a b port d e)" "throws_catchable (can_worker_access w a b port d e)"
    "throws_catchable (image_has_property w a b d e)" "throws_catchable (attest w a b port d)"
  using assms
  by (simp_all add: throws_simps md_free_call_def md_link_image_def md_delete_instance_def md_endorse_def
      post_object_acl_def md_endorse_membership_def endorse_attester_on_source_def md_endorse_attester_def
      endorse_builder_on_source_def md_endorse_builder_def endorse_image_def has_property_def can_access_def
      can_worker_access_def image_has_property_def Let_def)

section \<open>When a command ends the daemon\<close>

lemma catch_fault_Inl: "catch_fault f = Inl g \<longleftrightarrow> f = g \<and> \<not> catchable f"
  by (cases f) (auto simp: catch_fault_def)

text \<open>The fault that leaves a handler, if any.\<close>

definition escapes :: "(fault + Response) \<times> manager \<Rightarrow> fault option" where
  "escapes x = (case fst x of Inl f \<Rightarrow> if catchable f then None else Some f | Inr _ \<Rightarrow> None)"

lemma escapes_value [simp]: "escapes (Inr r, m) = None"
  by (simp add: escapes_def)

lemma escapes_fault [simp]: "\<not> catchable f \<Longrightarrow> escapes (Inl f, m) = Some f"
  by (simp add: escapes_def)

lemma escapes_call: "throws_catchable g \<Longrightarrow> escapes (call_metadata g k m) = None"
  by (auto simp: escapes_def call_metadata_eq throws_catchable_def split: sum.split)

lemma escapes_legacy:
  assumes "\<And>c. escapes (k c m) = None"
  shows "escapes (with_legacy_config confs k m) =
    (if map_of confs LEGACY_CONFIG_KEY = None then Some Fatal_check else None)"
  using assms by (simp add: with_legacy_config_def split: option.split)

lemma dispatch_escapes:
  "fst (dispatch env cmd m) = Inl f \<longleftrightarrow>
     (case find_handler (cmd_type cmd) of None \<Rightarrow> False | Some h \<Rightarrow> escapes (h env cmd m) = Some f)"
  by (auto simp: dispatch_def escapes_def catch_fault_Inl split: prod.split sum.split option.split)

text \<open>
  The commands that crash, read off the command alone: a statement of the wrong type where
  the handler does not test for it, or a missing legacy configuration entry where it needs one.
\<close>

definition null_checked :: "command_type list" where
  "null_checked =
     [CREATE_PRINCIPAL, DELETE_PRINCIPAL, GET_PRINCIPAL, ENDORSE_PRINCIPAL, REVOKE_PRINCIPAL_ENDORSEMENT,
      REVOKE, GET_LOCAL_PRINCIPAL, GET_METADATA_CONFIG, ENDORSE_IMAGE_PROPERTY]"

fun legacy_config_read :: "command_type \<Rightarrow> any_msg \<Rightarrow> confmap option" where
  "legacy_config_read ENDORSE_MEMBERSHIP (Any_EndorsePrincipal m) =
     (if ep_endorsements m = [] then None else Some (code_config (p_code (ep_principal m))))"
| "legacy_config_read ENDORSE_ATTESTER_IMAGE (Any_Endorse m) = Some (e_config m)"
| "legacy_config_read ENDORSE_BUILDER_IMAGE (Any_Endorse m) =
     (if e_endorsements m = [] then None else Some (e_config m))"
| "legacy_config_read ENDORSE_SOURCE_IMAGE (Any_Endorse m) =
     (if e_endorsements m = [] then None else Some (e_config m))"
| "legacy_config_read CHECK_IMAGE_PROPERTY (Any_CheckImage m) =
     (if ci_property m = [] then None else Some (ci_config m))"
| "legacy_config_read _ _ = None"

definition crash_cause :: "command_type \<Rightarrow> any_msg \<Rightarrow> fault option" where
  "crash_cause t stmt =
     (if t \<in> set null_checked then None
      else if kind_of stmt \<noteq> Some (statement_kind t) then Some Null_deref
      else (case legacy_config_read t stmt of
              Some confs \<Rightarrow> if map_of confs LEGACY_CONFIG_KEY = None then Some Fatal_check else None
            | None \<Rightarrow> None))"

lemma escapes_create: 
  assumes "web_catchable (env_web env)" shows "escapes (create_principal env cmd m) = None"
proof (cases "extract_principal cmd")
  case (Some p)
  have "throws_catchable (creation env cmd m p)" using assms by (simp add: creation_def throws_create)
  with Some show ?thesis
    by (auto simp: create_principal_eq escapes_def throws_catchable_def split: prod.split sum.split)
      (metis fst_conv)
qed (simp add: create_principal_def)

lemma escapes_delete:
  assumes "web_catchable (env_web env)" shows "escapes (delete_principal env cmd m) = None"
  using throws_operations [OF assms]
  by (simp add: delete_principal_def escapes_call split: option.split)

lemma escapes_handlers:
  assumes "web_catchable (env_web env)"
  shows "escapes (free_call env cmd m) = crash_cause FREE_CALL (statement cmd)"
    "escapes (guard_call env cmd m) = crash_cause GUARD_CALL (statement cmd)"
    "escapes (link_image env cmd m) = crash_cause LINK_IMAGE (statement cmd)"
    "escapes (endorse env cmd m) = crash_cause ENDORSE (statement cmd)"
    "escapes (post_acl env cmd m) = crash_cause POST_ACL (statement cmd)"
    "escapes (endorse_membership env cmd m) = crash_cause ENDORSE_MEMBERSHIP (statement cmd)"
    "escapes (endorse_attester env cmd m) = crash_cause ENDORSE_ATTESTER_IMAGE (statement cmd)"
    "escapes (endorse_builder env cmd m) = crash_cause ENDORSE_BUILDER_IMAGE (statement cmd)"
    "escapes (endorse_source env cmd m) = crash_cause ENDORSE_SOURCE_IMAGE (statement cmd)"
    "escapes (check_property env cmd m) = crash_cause CHECK_PROPERTY (statement cmd)"
    "escapes (check_attestation env cmd m) = crash_cause CHECK_ATTESTATION (statement cmd)"
    "escapes (check_access env cmd m) = crash_cause CHECK_ACCESS (statement cmd)"
    "escapes (check_worker_access env cmd m) = crash_cause CHECK_WORKER_ACCESS (statement cmd)"
    "escapes (check_image_property env cmd m) = crash_cause CHECK_IMAGE_PROPERTY (statement cmd)"
  using throws_operations [OF assms]
  by (cases "statement cmd";
      simp add: free_call_def guard_call_def link_image_def endorse_def post_acl_def endorse_membership_def
        endorse_attester_def endorse_builder_def endorse_source_def check_property_def check_attestation_def
        check_access_def check_worker_access_def check_image_property_def crash_cause_def null_checked_def
        extract_defs escapes_call escapes_legacy Let_def split: list.split; fail)+

lemma escapes_silent:
  "escapes (get_principal env cmd m) = None" "escapes (endorse_principal env cmd m) = None"
  "escapes (revoke_principal env cmd m) = None" "escapes (revoke env cmd m) = None"
  "escapes (get_local_principal env cmd m) = None" "escapes (get_metadata_config env cmd m) = None"
  by (simp_all add: get_principal_def endorse_principal_def revoke_principal_def revoke_def
      get_local_principal_def get_metadata_config_def split: option.split)

section \<open>Properties\<close>

text \<open>
  The handler table covers every command type of the protocol except
  \<open>ENDORSE_IMAGE_PROPERTY\<close>: only that type and the numbers that are no type at all are
  answered with a ``not handler found'' status, and then nothing is sent or changed.
\<close>

theorem dispatch_table_coverage:
  "(find_handler v :: 'j handler option) = None \<longleftrightarrow>
     v = type_value ENDORSE_IMAGE_PROPERTY \<or> (\<forall>t. v \<noteq> type_value t)"
proof
  assume none: "(find_handler v :: 'j handler option) = None"
  show "v = type_value ENDORSE_IMAGE_PROPERTY \<or> (\<forall>t. v \<noteq> type_value t)"
  proof (rule ccontr)
    assume "\<not> ?thesis"
    then obtain t where "v = type_value t" "t \<noteq> ENDORSE_IMAGE_PROPERTY" by blast
    with none show False by (cases t) (simp_all add: find_handler_eq)
  qed
next
  assume "v = type_value ENDORSE_IMAGE_PROPERTY \<or> (\<forall>t. v \<noteq> type_value t)"
  then show "(find_handler v :: 'j handler option) = None"
  proof
    assume "\<forall>t. v \<noteq> type_value t"
    then have "\<forall>t \<in> set all_command_types. v \<noteq> type_value t" by blast
    then show ?thesis by (simp add: all_command_types_def find_handler_eq)
  qed (simp add: find_handler_eq)
qed


lemma demo_catchable: "web_catchable (env_web (demo_env code))"
  by (simp add: web_catchable_def demo_env_def echo_web_def)


end
