(* ===== verification/Session.thy ===== *)
theory Session
  imports Comm Dispatch
begin

text \<open>
  The daemon's sessions and its accept loop, server/session.cc and server/server.cc.  A
  session is the asynchronous operation it has outstanding; each callback consumes the
  completion of that operation.  The kernel and the peer choose the completions.
\<close>

section \<open>Session\<close>

datatype pending =
    Unstarted
  | Reading_header
  | Reading_command u32
  | Writing bytes
  | Closed

record session =
  s_pid :: u64
  s_uid :: u64
  s_gid :: u64
  s_state :: pending
  large_rcv_buf :: bytes
  large_snd_buf :: bytes

text \<open>The credentials are uninitialised until \<open>authenticate\<close> sets them; here they are 0.\<close>

definition session_create :: session where
  "session_create = \<lparr>s_pid = 0, s_uid = 0, s_gid = 0, s_state = Unstarted, large_rcv_buf = [], large_snd_buf = []\<rparr>"

definition stop :: "session \<Rightarrow> session" where
  "stop s = s\<lparr>s_state := Closed\<rparr>"

definition proto_start :: "session \<Rightarrow> session" where
  "proto_start s = s\<lparr>s_state := Reading_header\<rparr>"

text \<open>
  \<open>pid_t\<close> is signed and \<open>uid_t\<close>, \<open>gid_t\<close> are not, so the pid is sign-extended to 64 bits
  and the others are zero-extended.
\<close>

definition authenticate :: "(u32 \<times> u32 \<times> u32) option \<Rightarrow> session \<Rightarrow> bool \<times> session" where
  "authenticate peercred s =
     (let (pid, uid, gid) = unix_auth_id peercred;
          s' = s\<lparr>s_pid := scast pid, s_uid := ucast uid, s_gid := ucast gid\<rparr>
      in (s_pid s' \<noteq> 0, s'))"

definition session_start :: "(u32 \<times> u32 \<times> u32) option \<Rightarrow> session \<Rightarrow> session" where
  "session_start peercred s =
     (let (ok, s') = authenticate peercred s in if \<not> ok then stop s' else proto_start s')"

definition clear_large_rcv_buffer :: "session \<Rightarrow> session" where
  "clear_large_rcv_buffer s = s\<lparr>large_rcv_buf := []\<rparr>"

definition clear_large_snd_buffer :: "session \<Rightarrow> session" where
  "clear_large_snd_buffer s = s\<lparr>large_snd_buf := []\<rparr>"

text \<open>A wrong magic number is only logged.\<close>

definition header_received :: "proto_lib \<Rightarrow> bool \<Rightarrow> bytes \<Rightarrow> session \<Rightarrow> session" where
  "header_received lib ec rcv s =
     (if ec then stop s
      else if length rcv < COMM_HEADER_SZ then stop s
      else let sz = read_le32 lib rcv in
        if unat sz > RECV_BUFSZ
        then s\<lparr>large_rcv_buf := replicate (unat sz) 0, s_state := Reading_command sz\<rparr>
        else s\<lparr>s_state := Reading_command sz\<rparr>)"

definition serialize_msg :: "proto_lib \<Rightarrow> Response \<Rightarrow> bytes" where
  "serialize_msg lib resp =
     (let payload = ser_response lib resp in
      write_le32 lib (of_nat (length payload)) @ write_le32 lib PROTO_MAGIC @ payload)"

text \<open>
  The stores of \<open>serialize_msg\<close> through its pointer, and the array \<open>write_response\<close> points it to: the
  session's \<open>snd_buf_\<close>, or a vector of zeros of the size of the message when that is larger.
\<close>

definition serialize_into :: "proto_lib \<Rightarrow> Response \<Rightarrow> buffer \<Rightarrow> fault + buffer" where
  "serialize_into lib resp ptr =
     (let payload = ser_response lib resp in
      case write_at 0 (write_le32 lib (of_nat (length payload))) ptr of
        Inl f \<Rightarrow> Inl f
      | Inr b1 \<Rightarrow>
          (case write_at 4 (write_le32 lib PROTO_MAGIC) b1 of
             Inl f \<Rightarrow> Inl f
           | Inr b2 \<Rightarrow> write_at COMM_HEADER_SZ payload b2))"

definition response_buffer :: "proto_lib \<Rightarrow> Response \<Rightarrow> buffer \<Rightarrow> buffer" where
  "response_buffer lib resp snd_buf =
     (let msgsz = length (ser_response lib resp) + COMM_HEADER_SZ in
      if msgsz > SEND_BUFSZ then replicate msgsz (Some 0) else snd_buf)"

definition write_response :: "proto_lib \<Rightarrow> Response \<Rightarrow> session \<Rightarrow> session" where
  "write_response lib resp s =
     (let msgsz = length (ser_response lib resp) + COMM_HEADER_SZ;
          msg = serialize_msg lib resp
      in if msgsz > SEND_BUFSZ
         then s\<lparr>large_snd_buf := msg, s_state := Writing msg\<rparr>
         else s\<lparr>s_state := Writing msg\<rparr>)"

text \<open>
  \<open>command_received\<close>.  The \<open>Guards\<close> object of its first statement is a temporary: it is
  destroyed at the end of that statement, so the clean-up of the large buffer runs first
  and not when the function returns, and a large command is then parsed from freed memory.
  An exception that leaves \<open>dispatch\<close> leaves the callback and ends the daemon.
\<close>

definition command_received ::
  "proto_lib \<Rightarrow> 'j guard_env \<Rightarrow> bool \<Rightarrow> nat \<Rightarrow> bytes \<Rightarrow> session \<Rightarrow> manager \<Rightarrow> (fault + session) \<times> manager" where
  "command_received lib env ec len data s m =
     (let s1 = temporary_guard (\<lambda>s. if len > RECV_BUFSZ then clear_large_rcv_buffer s else s) s in
      if ec then (Inr (stop s1), m)
      else if len > RECV_BUFSZ then (Inl Use_after_free, m)
      else (case parse_command lib data of
              None \<Rightarrow> (Inr (stop s1), m)
            | Some c \<Rightarrow>
                let cmd = c\<lparr>cmd_pid := s_pid s1, cmd_uid := s_uid s1, cmd_gid := s_gid s1\<rparr> in
                (case dispatch env cmd m of
                   (Inl f, m') \<Rightarrow> (Inl f, m')
                 | (Inr resp, m') \<Rightarrow> (Inr (write_response lib resp s1), m'))))"

definition response_sent :: "bool \<Rightarrow> nat \<Rightarrow> session \<Rightarrow> session" where
  "response_sent ec len s =
     (let s1 = temporary_guard (\<lambda>s. if len > SEND_BUFSZ then clear_large_snd_buffer s else s) s in
      if ec then stop s1 else proto_start s1)"

section \<open>Completions\<close>

text \<open>
  What the event loop delivers: the error flag and the data read, or the count written.
  \<open>async_read\<close> and \<open>async_write\<close> complete without error only when they moved everything.
\<close>

datatype completion = Header_done bool bytes | Command_done bool bytes | Response_done bool nat

fun delivers :: "pending \<Rightarrow> completion \<Rightarrow> bool" where
  "delivers Reading_header (Header_done ec rcv) \<longleftrightarrow> ec \<or> length rcv = COMM_HEADER_SZ"
| "delivers (Reading_command sz) (Command_done ec rcv) \<longleftrightarrow> ec \<or> length rcv = unat sz"
| "delivers (Writing msg) (Response_done ec n) \<longleftrightarrow> ec \<or> n = length msg"
| "delivers _ _ \<longleftrightarrow> False"

definition command_size :: "pending \<Rightarrow> nat" where
  "command_size p = (case p of Reading_command sz \<Rightarrow> unat sz | _ \<Rightarrow> 0)"

fun session_step ::
  "proto_lib \<Rightarrow> 'j guard_env \<Rightarrow> completion \<Rightarrow> session \<Rightarrow> manager \<Rightarrow> (fault + session) \<times> manager" where
  "session_step lib env (Header_done ec rcv) s m = (Inr (header_received lib ec rcv s), m)"
| "session_step lib env (Command_done ec rcv) s m = command_received lib env ec (command_size (s_state s)) rcv s m"
| "session_step lib env (Response_done ec n) s m = (Inr (response_sent ec n s), m)"

section \<open>Server\<close>

record server =
  sv_waiting :: session
  sv_sessions :: "session list"
  sv_manager :: manager

definition start_accept :: "server \<Rightarrow> server" where
  "start_accept sv = sv\<lparr>sv_waiting := session_create\<rparr>"

definition new_session :: "bool \<Rightarrow> (u32 \<times> u32 \<times> u32) option \<Rightarrow> server \<Rightarrow> server" where
  "new_session ec peercred sv =
     start_accept
       (if \<not> ec then sv\<lparr>sv_sessions := sv_sessions sv @ [session_start peercred (sv_waiting sv)]\<rparr> else sv)"

definition server_start :: "manager \<Rightarrow> server" where
  "server_start mgr = start_accept \<lparr>sv_waiting = session_create, sv_sessions = [], sv_manager = mgr\<rparr>"

text \<open>
  The main program: it loads the configuration, creates the manager, removes a stale socket,
  and serves on the configured path.  It returns 1 when the socket cannot be removed.
\<close>

definition guard_main ::
  "(string \<Rightarrow> string option) \<Rightarrow> config_state \<Rightarrow> (string \<Rightarrow> bool) \<Rightarrow> (string \<Rightarrow> bool)
    \<Rightarrow> (fault + (int + string \<times> server)) \<times> config_state" where
  "guard_main conf cs socket_exists unlink_fails =
     (case load_config conf cs of
        (Inl f, cs') \<Rightarrow> (Inl f, cs')
      | (Inr _, cs') \<Rightarrow>
          let inst = make_instance None; path = local_ep (config_cache cs') in
          if socket_exists path \<and> unlink_fails path then (Inr (Inl 1), cs')
          else (case get_manager inst of
                  Inl f \<Rightarrow> (Inl f, cs')
                | Inr m \<Rightarrow> (Inr (Inr (path, server_start m)), cs')))"

text \<open>
  server/main-daemon.cc: the wrapper detaches and replaces itself by the daemon with the path of the
  configuration file.  The result is the command line that \<open>execlp\<close> is given, or the exit code.
\<close>

definition daemon_main :: "string list \<Rightarrow> int \<Rightarrow> int + string list" where
  "daemon_main argv detached =
     (let config = (case argv of _ # path # _ \<Rightarrow> path | _ \<Rightarrow> ''/etc/attguard/config.txt'')
      in if detached < 0 then Inl 1 else Inr [''attguard'', config])"

text \<open>The daemon as a transition system: a connection arrives, or an operation completes.\<close>

inductive server_step :: "proto_lib \<Rightarrow> 'j guard_env \<Rightarrow> server \<Rightarrow> server \<Rightarrow> bool" for lib env where
  accept: "server_step lib env sv (new_session ec peercred sv)"
| complete: "i < length (sv_sessions sv) \<Longrightarrow> delivers (s_state (sv_sessions sv ! i)) ev
    \<Longrightarrow> session_step lib env ev (sv_sessions sv ! i) (sv_manager sv) = (Inr s', m')
    \<Longrightarrow> server_step lib env sv (sv\<lparr>sv_sessions := (sv_sessions sv)[i := s'], sv_manager := m'\<rparr>)"

inductive server_run :: "proto_lib \<Rightarrow> 'j guard_env \<Rightarrow> nat \<Rightarrow> server \<Rightarrow> bool" for lib env where
  run_start: "server_run lib env 0 (server_start init_manager)"
| run_step: "server_run lib env n sv \<Longrightarrow> server_step lib env sv sv' \<Longrightarrow> server_run lib env (Suc n) sv'"

text \<open>
  What the main program hands to the event loop is the initial state of the transition system,
  on the configured path; it serves whenever the configuration loads and no stale socket is in
  the way.
\<close>

lemma guard_main_serves:
  "guard_main conf cs socket_exists unlink_fails =
     (case load_config conf cs of
        (Inl f, cs') \<Rightarrow> (Inl f, cs')
      | (Inr _, cs') \<Rightarrow>
          (if socket_exists (local_ep (config_cache cs')) \<and> unlink_fails (local_ep (config_cache cs'))
           then Inr (Inl 1) else Inr (Inr (local_ep (config_cache cs'), server_start init_manager)), cs'))"
  by (simp add: guard_main_def make_instance_def get_manager_def Let_def split: prod.split sum.split)

inductive_simps server_run_0: "server_run lib env 0 sv"

lemma guard_main_runs:
  "guard_main conf cs socket_exists unlink_fails = (Inr (Inr (path, sv)), cs') \<Longrightarrow> server_run lib env 0 sv"
  by (auto simp: guard_main_serves server_run_0 split: prod.splits sum.splits if_splits)

section \<open>Invariants of the daemon\<close>

definition stamped :: "session \<Rightarrow> Command \<Rightarrow> Command" where
  "stamped s c = c\<lparr>cmd_pid := s_pid s, cmd_uid := s_uid s, cmd_gid := s_gid s\<rparr>"

lemmas session_defs =
  header_received_def command_received_def response_sent_def write_response_def stop_def proto_start_def
  clear_large_rcv_buffer_def clear_large_snd_buffer_def Let_def

lemma command_received_small:
  assumes "len \<le> RECV_BUFSZ"
  shows "command_received lib env False len data s m =
    (case parse_command lib data of
       None \<Rightarrow> (Inr (stop s), m)
     | Some c \<Rightarrow> (case dispatch env (stamped s c) m of
         (Inl f, m') \<Rightarrow> (Inl f, m') | (Inr resp, m') \<Rightarrow> (Inr (write_response lib resp s), m')))"
  using assms by (simp add: command_received_def stamped_def Let_def not_less split: option.split)

text \<open>The manager only ever sees commands stamped with the credentials of the session.\<close>

lemma session_step_manager:
  assumes "session_step lib env ev s m = (Inr s', m')"
  shows "m' = m \<or> (\<exists>rcv c r. ev = Command_done False rcv \<and> parse_command lib rcv = Some c
    \<and> dispatch env (stamped s c) m = (Inr r, m'))"
  using assms
  by (cases ev)
    (auto simp: command_received_def stamped_def Let_def split: if_splits option.splits prod.splits sum.splits)

lemma session_step_credentials:
  "session_step lib env ev s m = (Inr s', m') \<Longrightarrow> s_pid s' = s_pid s \<and> s_uid s' = s_uid s \<and> s_gid s' = s_gid s"
  by (cases ev) (auto simp: session_defs split: if_splits option.splits prod.splits sum.splits)

lemma dispatch_speakers:
  assumes "e \<in> set (principals (snd (dispatch env cmd m)))"
  shows "e \<in> set (principals m) \<or> p_speaker (snd e) = cmd_pid cmd"
proof (cases rule: dispatch_kinds [where cmd = cmd and m = m and env = env])
  case 1 then show ?thesis using assms
    by (cases rule: create_principal_cases [of cmd env m])
      (auto simp: dispatch_state find_handler_eq add_principal_def)
next
  case 2 then show ?thesis using assms
    by (cases rule: delete_principal_cases [of cmd env m])
      (auto simp: dispatch_state find_handler_eq erase_range_def)
next
  case 3 then show ?thesis using assms by (simp add: same_registry_def)
qed

definition server_inv :: "server \<Rightarrow> bool" where
  "server_inv sv \<longleftrightarrow> sv_waiting sv = session_create
     \<and> (\<forall>s \<in> set (sv_sessions sv). s_state s \<noteq> Closed \<longrightarrow> s_pid s \<noteq> 0)
     \<and> (\<forall>e \<in> set (principals (sv_manager sv)). p_speaker (snd e) \<noteq> 0)"

lemma session_start_authenticated: "s_state (session_start cred s) \<noteq> Closed \<Longrightarrow> s_pid (session_start cred s) \<noteq> 0"
  by (auto simp: session_start_def authenticate_def stop_def proto_start_def Let_def split: prod.splits if_splits)

lemma delivers_open: "delivers (s_state s) ev \<Longrightarrow> s_state s \<noteq> Closed"
  by (cases ev) auto

lemma session_step_speakers:
  assumes "session_step lib env ev s m = (Inr s', m')" "s_pid s \<noteq> 0"
    "\<forall>e \<in> set (principals m). p_speaker (snd e) \<noteq> 0"
  shows "\<forall>e \<in> set (principals m'). p_speaker (snd e) \<noteq> 0"
proof
  fix e assume e: "e \<in> set (principals m')"
  from session_step_manager [OF assms(1)] show "p_speaker (snd e) \<noteq> 0"
  proof
    assume "\<exists>rcv c r. ev = Command_done False rcv \<and> parse_command lib rcv = Some c
      \<and> dispatch env (stamped s c) m = (Inr r, m')"
    then obtain c where "m' = snd (dispatch env (stamped s c) m)" by (metis snd_conv)
    with e dispatch_speakers [of e env "stamped s c" m] assms(2,3) show ?thesis by (auto simp: stamped_def)
  qed (use e assms(3) in simp)
qed

lemma server_step_inv:
  assumes "server_step lib env sv sv'" "server_inv sv"
  shows "server_inv sv'"
  using assms(1)
proof cases
  case (accept ec cred)
  with assms(2) session_start_authenticated show ?thesis
    by (auto simp: server_inv_def new_session_def start_accept_def)
next
  case (complete i ev s' m')
  let ?s = "sv_sessions sv ! i"
  have pid: "s_pid ?s \<noteq> 0"
    using assms(2) nth_mem [OF complete(2)] delivers_open [OF complete(3)] by (simp add: server_inv_def)
  have "s \<in> set ((sv_sessions sv)[i := s']) \<Longrightarrow> s = s' \<or> s \<in> set (sv_sessions sv)" for s
    using set_update_subset_insert [of "sv_sessions sv" i s'] by auto
  with assms(2) complete pid session_step_credentials [OF complete(4)] session_step_speakers [OF complete(4) pid]
  show ?thesis by (fastforce simp: server_inv_def)
qed

lemma server_run_inv: "server_run lib env n sv \<Longrightarrow> server_inv sv"
proof (induction rule: server_run.induct)
  case run_start show ?case
    by (simp add: server_inv_def server_start_def start_accept_def init_manager_def)
qed (rule server_step_inv)

lemma server_step_served:
  assumes "server_step lib env sv sv'" "served env k (sv_manager sv)"
  shows "served env k (sv_manager sv') \<or> served env (Suc k) (sv_manager sv')"
  using assms(1)
proof cases
  case (complete i ev s' m')
  with session_step_manager [OF complete(4)] assms(2) served.answered show ?thesis by fastforce
qed (use assms(2) in \<open>simp add: new_session_def start_accept_def\<close>)

lemma server_run_served: "server_run lib env n sv \<Longrightarrow> \<exists>k \<le> n. served env k (sv_manager sv)"
proof (induction rule: server_run.induct)
  case run_start show ?case by (auto simp: server_start_def start_accept_def intro: served.started)
next
  case (run_step n sv sv')
  then obtain k where "k \<le> n" "served env k (sv_manager sv)" by auto
  with server_step_served [OF run_step(2)] show ?case by (meson Suc_le_mono le_SucI)
qed

section \<open>Properties\<close>

lemma demo_run:
  "server_run lib env 1 (new_session False (Some (42, 1000, 1000)) (server_start init_manager))"
  using run_step [OF run_start accept] by simp



text \<open>
  C6.  A peer cannot forge its identity: whatever bytes it sends, if a step of its session
  takes a registered principal away, then the pid the kernel reported for the peer is the one
  that registered the newest generation, or the kernel reported root.
\<close>

theorem sessions_cannot_forge:
  assumes "session_step lib env ev s m = (Inr s', m')"
    and "find_latest i (principals m) = Some q" "find_latest i (principals m') = None"
  shows "s_pid s = p_speaker q \<or> s_uid s = 0"
proof (rule ccontr)
  assume stranger: "\<not> ?thesis"
  from session_step_manager [OF assms(1)] show False
  proof
    assume "\<exists>rcv c r. ev = Command_done False rcv \<and> parse_command lib rcv = Some c
      \<and> dispatch env (stamped s c) m = (Inr r, m')"
    then obtain c where c: "m' = snd (dispatch env (stamped s c) m)" by (metis snd_conv)
    have "find_latest i (principals m') \<noteq> None"
    proof (cases "registers_id (stamped s c) i")
      case False
      with stranger c guard.stranger_keeps [OF assms(2), of "stamped s c" env]
      show ?thesis by (auto simp: stamped_def)
    next
      case True
      have "find_latest i (principals m) \<noteq> None" using assms(2) by simp
      with True c show ?thesis
        by (cases rule: create_principal_cases [of "stamped s c" env m])
          (auto simp: registers_id_def dispatch_state find_handler_eq find_latest_None add_principal_def)
    qed
    with assms(3) show False by simp
  qed (use assms in simp)
qed

definition demo_session :: "u64 \<Rightarrow> u64 \<Rightarrow> pending \<Rightarrow> session" where
  "demo_session pid uid st = session_create\<lparr>s_pid := pid, s_uid := uid, s_state := st\<rparr>"

theorem sessions_cannot_forge_witness:
  "s_pid (demo_session 42 1000 (Reading_command 2)) = 42 \<or> s_uid (demo_session 42 1000 (Reading_command 2)) = 0"
proof -
  let ?p = "default_Principal\<lparr>p_id := 7, p_speaker := 42\<rparr>"
  let ?m = "\<lparr>next_gn = 1, principals = [(7, ?p)], posted = []\<rparr>"
  let ?lib = "demo_lib (demo_cmd DELETE_PRINCIPAL 0 0 7) not_implemented 2"
  obtain s' m' where st: "session_step ?lib (demo_env 200) (Command_done False [1, 1])
      (demo_session 42 1000 (Reading_command 2)) ?m = (Inr s', m')" "principals m' = []"
    by (simp add: demo_session_def session_create_def command_size_def command_received_small RECV_BUFSZ_def
        demo_lib_def stamped_def demo_eval delete_principal_def find_latest_def default_Principal_def
        call_metadata_eq erase_range_def md_delete_instance_def)
  have "find_latest 7 (principals ?m) = Some ?p" by (simp add: find_latest_def default_Principal_def)
  moreover have "find_latest 7 (principals m') = None" using st(2) by (simp add: find_latest_def)
  ultimately show ?thesis using sessions_cannot_forge [OF st(1)] by fastforce
qed

text \<open>
  C16.  One request and its answer: when a command of at most \<open>RECV_BUFSZ\<close> bytes arrives framed
  as the client frames it, the session dispatches exactly that command, stamped with the
  peer's credentials, writes out the framed response, and then waits for the next header.
\<close>

theorem session_serves_request:
  assumes "le32_ok lib" "parse_command lib (ser_command lib c) = Some c"
    and "length (ser_command lib c) \<le> RECV_BUFSZ" "s_state s = Reading_header"
    and "dispatch env (c\<lparr>cmd_pid := s_pid s, cmd_uid := s_uid s, cmd_gid := s_gid s\<rparr>) m = (Inr resp, m')"
  shows "\<exists>s1 s2 s3.
      session_step lib env (Header_done False (take 8 (frame lib (ser_command lib c)))) s m = (Inr s1, m)
    \<and> delivers (s_state s) (Header_done False (take 8 (frame lib (ser_command lib c))))
    \<and> session_step lib env (Command_done False (drop 8 (frame lib (ser_command lib c)))) s1 m = (Inr s2, m')
    \<and> delivers (s_state s1) (Command_done False (drop 8 (frame lib (ser_command lib c))))
    \<and> s_state s2 = Writing (frame lib (ser_response lib resp))
    \<and> session_step lib env (Response_done False (length (frame lib (ser_response lib resp)))) s2 m' = (Inr s3, m')
    \<and> s_state s3 = Reading_header \<and> s_pid s3 = s_pid s \<and> s_uid s3 = s_uid s"
proof -
  let ?f = "frame lib (ser_command lib c)" and ?n = "of_nat (length (ser_command lib c)) :: u32"
  have small: "length (ser_command lib c) < 2 ^ 31" using assms(3) by (simp add: RECV_BUFSZ_def)
  have n: "unat ?n = length (ser_command lib c)" using assms(3) by (simp add: RECV_BUFSZ_def unat_of_nat)
  have h: "read_le32 lib (take 8 ?f) = ?n" "length (take 8 ?f) = 8" "drop 8 ?f = ser_command lib c"
    using frame_header(2,3) [OF assms(1) small, of "[]"] length_frame [OF assms(1)] by simp_all
  let ?s1 = "s\<lparr>s_state := Reading_command ?n\<rparr>"
  have s1: "header_received lib False (take 8 ?f) s = ?s1"
    using h n assms(3) by (simp add: header_received_def Let_def COMM_HEADER_SZ_def)
  let ?s2 = "write_response lib resp ?s1"
  have "stamped ?s1 c = c\<lparr>cmd_pid := s_pid s, cmd_uid := s_uid s, cmd_gid := s_gid s\<rparr>"
    by (simp add: stamped_def)
  then have s2: "command_received lib env False (unat ?n) (drop 8 ?f) ?s1 m = (Inr ?s2, m')"
    using h n assms(2,3,5) by (simp add: command_received_small)
  have "s_state ?s2 = Writing (frame lib (ser_response lib resp))"
    by (simp add: write_response_def serialize_msg_def frame_def Let_def)
  with s1 s2 h n assms(4) show ?thesis
    by (simp add: command_size_def COMM_HEADER_SZ_def response_sent_def write_response_def proto_start_def
        clear_large_snd_buffer_def Let_def)
qed

theorem session_serves_request_witness:
  "\<exists>lib s s1 s2. delivers (s_state s) (Header_done False (take 8 (frame lib [1, 1])))
    \<and> session_step lib (demo_env 200) (Header_done False (take 8 (frame lib [1, 1]))) s init_manager = (Inr s1, init_manager)
    \<and> session_step lib (demo_env 200) (Command_done False [1, 1]) s1 init_manager = (Inr s2, init_manager)
    \<and> s_state s2 = Writing (frame lib [2, 2])"
proof -
  let ?c = "prepare 1 REVOKE Any_Empty ''me''" and ?s = "demo_session 42 1000 Reading_header"
  let ?lib = "demo_lib ?c not_implemented 2"
  have d: "dispatch (demo_env 200) (?c\<lparr>cmd_pid := s_pid ?s, cmd_uid := s_uid ?s, cmd_gid := s_gid ?s\<rparr>) init_manager
      = (Inr not_implemented, init_manager)"
    by (simp add: dispatch_handled find_handler_eq prepare_def revoke_def)
  have p: "parse_command ?lib (ser_command ?lib ?c) = Some ?c" "ser_command ?lib ?c = [1, 1]"
    "ser_response ?lib not_implemented = [2, 2]"
    by (simp_all add: demo_lib_def numeral_2_eq_2)
  have dr: "drop 8 (frame ?lib [1, 1]) = [1, 1]"
    using frame_header(2) [OF demo_lib_le32, where payload = "[1, 1]" and rest = "[]"] by simp
  have st: "s_state ?s = Reading_header" by (simp add: demo_session_def)
  have "length (ser_command ?lib ?c) \<le> RECV_BUFSZ" unfolding p by (simp add: RECV_BUFSZ_def)
  from session_serves_request [OF demo_lib_le32 p(1) this st d, unfolded p dr]
  show ?thesis by blast
qed





end
