(* ===== verification/Client.thy ===== *)
theory Client
  imports Comm Config "HOL-Library.AList"
begin

text \<open>
  \<open>AttGuardClient\<close> of client/client.cc: every operation builds a statement, sends it as a
  command to the daemon over the Unix socket and reads the answer.  The socket is a
  \<open>channel\<close>: the schedules of the system calls and the daemon, which turns the bytes it is
  sent into the bytes it answers with, over a state \<open>'g\<close>.
\<close>

section \<open>State\<close>

record 'g channel =
  snd_sched :: "io_event list"
  rcv_sched :: "io_event list"
  reply :: "bytes \<Rightarrow> 'g \<Rightarrow> bytes \<times> 'g"

text \<open>The random message id and the log level of the process are part of the record.\<close>

record 'g client =
  c_myid :: string
  c_myip :: string
  c_daemon_path :: string
  c_sock :: "'g channel"
  c_lib :: proto_lib
  c_rand :: u64
  c_loglevel :: int

text \<open>\<open>redial\<close>: connecting, with what \<open>unix_stream_conn\<close> gives for the path.\<close>

definition redial :: "(string \<Rightarrow> 'g channel option) \<Rightarrow> string \<Rightarrow> fault + 'g channel" where
  "redial dial path =
     (case dial path of
        None \<Rightarrow> Inl (Runtime_error ''can not connect to the attestation guard, abort'')
      | Some ch \<Rightarrow> Inr ch)"

text \<open>The constructor: a client exists only with a connection.\<close>

definition client_new ::
  "(string \<Rightarrow> 'g channel option) \<Rightarrow> proto_lib \<Rightarrow> u64 \<Rightarrow> int \<Rightarrow> string \<Rightarrow> string \<Rightarrow> string \<Rightarrow> fault + 'g client" where
  "client_new dial lib rand level myid myip daemon_path =
     (case redial dial daemon_path of
        Inl f \<Rightarrow> Inl f
      | Inr ch \<Rightarrow> Inr \<lparr>c_myid = myid, c_myip = myip, c_daemon_path = daemon_path, c_sock = ch, c_lib = lib,
                        c_rand = rand, c_loglevel = level\<rparr>)"

section \<open>Posting\<close>

text \<open>
  \<open>post\<close> on a socket that still holds \<open>unread\<close> bytes from the daemon: what it returns, and the
  bytes that are left.  The client keeps the socket after a failure, with everything on it.
\<close>

definition post_on :: "'g client \<Rightarrow> Command \<Rightarrow> bytes \<times> 'g \<Rightarrow> (fault + Response) \<times> bytes \<times> 'g" where
  "post_on c cmd ug =
     (case ug of (unread, g) \<Rightarrow>
        (case proto_send_msg (c_lib c) (ser_command (c_lib c)) (snd_sched (c_sock c)) cmd of
           None \<Rightarrow> (Inl Blocked, unread, g)
         | Some (ret, wire) \<Rightarrow>
             let (answer, g') = reply (c_sock c) wire g; stream = unread @ answer in
             if ret \<noteq> 0
             then (Inr (make_status_response False (''send failure, code '' @ show_int ret)), stream, g')
             else (case proto_recv_msg (c_lib c) (parse_response (c_lib c)) (rcv_sched (c_sock c)) stream of
                     None \<Rightarrow> (Inl Blocked, stream, g')
                   | Some (Inl f) \<Rightarrow> (Inl f, stream, g')
                   | Some (Inr (ret, result, _, rest)) \<Rightarrow>
                       (case result of
                          Some resp \<Rightarrow> (Inr resp, rest, g')
                        | None \<Rightarrow> (Inr (make_status_response False (''recv failure '' @ show_int ret)), rest, g')))))"

text \<open>\<open>post\<close> on a socket without unread bytes, which is how a connection starts.\<close>

definition post :: "'g client \<Rightarrow> Command \<Rightarrow> 'g \<Rightarrow> (fault + Response) \<times> 'g" where
  "post c cmd g = (case post_on c cmd ([], g) of (r, unread, g') \<Rightarrow> (r, g'))"

text \<open>\<open>status_int<type>\<close>: the two branches on the log level.\<close>

definition client_status_int :: "int \<Rightarrow> Response \<Rightarrow> int" where
  "client_status_int level r = (if level = LOG_DEBUG then fst (status r) else status_int r)"

definition quick_post :: "'g client \<Rightarrow> command_type \<Rightarrow> any_msg \<Rightarrow> 'g \<Rightarrow> (fault + int) \<times> 'g" where
  "quick_post c t stmt g =
     (case post c (prepare (c_rand c) t stmt (c_myid c)) g of
        (Inl f, g') \<Rightarrow> (Inl f, g')
      | (Inr resp, g') \<Rightarrow> (Inr (client_status_int (c_loglevel c) resp), g'))"

definition post_extract ::
  "'g client \<Rightarrow> command_type \<Rightarrow> any_msg \<Rightarrow> (Response \<Rightarrow> 'a option) \<Rightarrow> 'g \<Rightarrow> (fault + 'a option) \<times> 'g" where
  "post_extract c t stmt extract g =
     (case post c (prepare (c_rand c) t stmt (c_myid c)) g of
        (Inl f, g') \<Rightarrow> (Inl f, g')
      | (Inr resp, g') \<Rightarrow> (Inr (extract resp), g'))"

definition quick_get_principal ::
  "'g client \<Rightarrow> command_type \<Rightarrow> any_msg \<Rightarrow> 'g \<Rightarrow> (fault + Principal option) \<times> 'g" where
  "quick_get_principal c t stmt = post_extract c t stmt response_principal"

section \<open>Statements\<close>

text \<open>
  \<open>raw_configs\<close> entries have the form key=value; without a \<open>=\<close> the iterator arithmetic
  leaves the string.  Later entries overwrite earlier ones.
\<close>

definition split_config :: "string \<Rightarrow> fault + (string \<times> string)" where
  "split_config s =
     (case find_char (CHR ''='') s of
        None \<Rightarrow> Inl Out_of_range
      | Some i \<Rightarrow> Inr (take i s, drop (i + 1) s))"

fun parse_configs :: "string list \<Rightarrow> confmap \<Rightarrow> fault + confmap" where
  "parse_configs [] confmap = Inr confmap"
| "parse_configs (s # rest) confmap =
     (case split_config s of
        Inl f \<Rightarrow> Inl f
      | Inr (k, v) \<Rightarrow> parse_configs rest (AList.update k v confmap))"

definition address :: "string \<Rightarrow> u32 \<Rightarrow> AuthID" where
  "address ip port = default_AuthID\<lparr>auth_ip := ip, port_lo := port\<rparr>"

definition cl_create_instance ::
  "'g client \<Rightarrow> u64 \<Rightarrow> string \<Rightarrow> string list \<Rightarrow> string \<Rightarrow> u32 \<Rightarrow> u32 \<Rightarrow> string \<Rightarrow> 'g \<Rightarrow> (fault + int) \<times> 'g" where
  "cl_create_instance c pid img raw_configs ip lport rport storage g =
     (case parse_configs raw_configs [] of
        Inl f \<Rightarrow> (Inl f, g)
      | Inr confmap \<Rightarrow>
          let p = default_Principal
                \<lparr>p_id := pid,
                 p_auth := default_AuthID
                   \<lparr>auth_ip := (if length ip = 0 then c_myip c else ip), port_lo := lport, port_hi := rport\<rparr>,
                 p_code := default_CodeID
                   \<lparr>code_image := img, image_store := storage, code_config := confmap\<rparr>\<rparr>
          in quick_post c CREATE_PRINCIPAL (Any_Principal p) g)"

definition cl_create_principal ::
  "'g client \<Rightarrow> u64 \<Rightarrow> string \<Rightarrow> string \<Rightarrow> string \<Rightarrow> u32 \<Rightarrow> u32 \<Rightarrow> 'g \<Rightarrow> (fault + int) \<times> 'g" where
  "cl_create_principal c uuid img config ip lo hi =
     cl_create_instance c uuid img [LEGACY_CONFIG_KEY @ ''='' @ config] ip lo hi ''''"

definition cl_delete_principal :: "'g client \<Rightarrow> u64 \<Rightarrow> 'g \<Rightarrow> (fault + int) \<times> 'g" where
  "cl_delete_principal c uuid =
     quick_post c DELETE_PRINCIPAL (Any_Principal (default_Principal\<lparr>p_id := uuid\<rparr>))"

definition cl_endorse :: "'g client \<Rightarrow> string \<Rightarrow> string \<Rightarrow> string \<Rightarrow> 'g \<Rightarrow> (fault + int) \<times> 'g" where
  "cl_endorse c ident prop val =
     quick_post c ENDORSE (Any_Endorse (default_Endorse
       \<lparr>e_id := ident,
        e_endorsements := [default_Endorsement\<lparr>property := prop, endorsement_value := val\<rparr>]\<rparr>))"

definition cl_link_image :: "'g client \<Rightarrow> string \<Rightarrow> string \<Rightarrow> 'g \<Rightarrow> (fault + int) \<times> 'g" where
  "cl_link_image c host img = quick_post c LINK_IMAGE (Any_LinkImage \<lparr>link_host = host, link_image_name = img\<rparr>)"

definition cl_get_principal :: "'g client \<Rightarrow> string \<Rightarrow> u32 \<Rightarrow> 'g \<Rightarrow> (fault + Principal option) \<times> 'g" where
  "cl_get_principal c ip lo =
     quick_get_principal c GET_PRINCIPAL (Any_Principal (default_Principal\<lparr>p_auth := address ip lo\<rparr>))"

text \<open>It sends \<open>GET_PRINCIPAL\<close>, not \<open>GET_LOCAL_PRINCIPAL\<close>.\<close>

definition cl_get_local_principal :: "'g client \<Rightarrow> u64 \<Rightarrow> 'g \<Rightarrow> (fault + Principal option) \<times> 'g" where
  "cl_get_local_principal c uuid =
     quick_get_principal c GET_PRINCIPAL (Any_Principal (default_Principal\<lparr>p_id := uuid\<rparr>))"

definition cl_get_metadata_config :: "'g client \<Rightarrow> 'g \<Rightarrow> (fault + MetadataConfig option) \<times> 'g" where
  "cl_get_metadata_config c = post_extract c GET_METADATA_CONFIG Any_Empty response_metadata_config"

definition endorsed_principal :: "string \<Rightarrow> u32 \<Rightarrow> u64 \<Rightarrow> int \<Rightarrow> string \<Rightarrow> EndorsePrincipal" where
  "endorsed_principal ip port gn ty prop =
     \<lparr>ep_principal = default_Principal
        \<lparr>p_gn := gn, p_auth := address ip port,
         p_code := default_CodeID\<lparr>code_config := [(LEGACY_CONFIG_KEY, ''*'')]\<rparr>\<rparr>,
      ep_endorsements = [default_Endorsement\<lparr>endorsement_type := ty, property := prop\<rparr>]\<rparr>"

definition cl_endorse_principal ::
  "'g client \<Rightarrow> string \<Rightarrow> u32 \<Rightarrow> u64 \<Rightarrow> int \<Rightarrow> string \<Rightarrow> 'g \<Rightarrow> (fault + int) \<times> 'g" where
  "cl_endorse_principal c ip port gn ty prop =
     quick_post c ENDORSE_PRINCIPAL (Any_EndorsePrincipal (endorsed_principal ip port gn ty prop))"

definition cl_revoke_principal_endorse :: "string \<Rightarrow> u32 \<Rightarrow> int \<Rightarrow> string \<Rightarrow> 'g \<Rightarrow> (fault + int) \<times> 'g" where
  "cl_revoke_principal_endorse ip port ty prop g = (Inr (-1), g)"

definition endorse_statement ::
  "'g client \<Rightarrow> string \<Rightarrow> string \<Rightarrow> int \<Rightarrow> int \<Rightarrow> string \<Rightarrow> 'g \<Rightarrow> (fault + int) \<times> 'g" where
  "endorse_statement c ident config stmt_type endorse_type prop =
     quick_post c ENDORSE (Any_Endorse
       \<lparr>e_id = ident, e_type = stmt_type, e_config = [(LEGACY_CONFIG_KEY, config)],
        e_endorsements = [default_Endorsement\<lparr>endorsement_type := endorse_type, property := prop\<rparr>]\<rparr>)"

definition cl_endorse_image :: "'g client \<Rightarrow> string \<Rightarrow> string \<Rightarrow> int \<Rightarrow> string \<Rightarrow> 'g \<Rightarrow> (fault + int) \<times> 'g" where
  "cl_endorse_image c ident config ty prop = endorse_statement c ident config Endorse_IMAGE ty prop"

definition cl_endorse_source_typed :: "'g client \<Rightarrow> string \<Rightarrow> string \<Rightarrow> int \<Rightarrow> string \<Rightarrow> 'g \<Rightarrow> (fault + int) \<times> 'g" where
  "cl_endorse_source_typed c ident config ty prop = endorse_statement c ident config Endorse_SOURCE ty prop"

definition cl_revoke :: "string \<Rightarrow> string \<Rightarrow> int \<Rightarrow> string \<Rightarrow> 'g \<Rightarrow> (fault + int) \<times> 'g" where
  "cl_revoke ident config ty prop g = (Inr (-1), g)"

definition cl_endorse_membership ::
  "'g client \<Rightarrow> string \<Rightarrow> u32 \<Rightarrow> u64 \<Rightarrow> string \<Rightarrow> 'g \<Rightarrow> (fault + int) \<times> 'g" where
  "cl_endorse_membership c ip port gn prop =
     quick_post c ENDORSE_MEMBERSHIP (Any_EndorsePrincipal (endorsed_principal ip port gn MEMBERSHIP prop))"

definition image_endorsement :: "string \<Rightarrow> string \<Rightarrow> int \<Rightarrow> string \<Rightarrow> any_msg" where
  "image_endorsement ident config ty prop =
     Any_Endorse (default_Endorse
       \<lparr>e_id := ident, e_config := [(LEGACY_CONFIG_KEY, config)],
        e_endorsements := [default_Endorsement\<lparr>endorsement_type := ty, property := prop\<rparr>]\<rparr>)"

definition cl_endorse_attester :: "'g client \<Rightarrow> string \<Rightarrow> string \<Rightarrow> 'g \<Rightarrow> (fault + int) \<times> 'g" where
  "cl_endorse_attester c ident config =
     quick_post c ENDORSE_ATTESTER_IMAGE (image_endorsement ident config ATTESTER '''')"

definition cl_endorse_builder :: "'g client \<Rightarrow> string \<Rightarrow> string \<Rightarrow> 'g \<Rightarrow> (fault + int) \<times> 'g" where
  "cl_endorse_builder c ident config =
     quick_post c ENDORSE_BUILDER_IMAGE (image_endorsement ident config BUILDER '''')"

definition cl_endorse_source :: "'g client \<Rightarrow> string \<Rightarrow> string \<Rightarrow> string \<Rightarrow> 'g \<Rightarrow> (fault + int) \<times> 'g" where
  "cl_endorse_source c ident config source =
     quick_post c ENDORSE_SOURCE_IMAGE (image_endorsement ident config SOURCE source)"

definition cl_post_acl :: "'g client \<Rightarrow> string \<Rightarrow> string \<Rightarrow> 'g \<Rightarrow> (fault + int) \<times> 'g" where
  "cl_post_acl c ident acl = quick_post c POST_ACL (Any_PostACL \<lparr>acl_name = ident, acl_policies = [acl]\<rparr>)"

definition cl_check_property :: "'g client \<Rightarrow> string \<Rightarrow> u32 \<Rightarrow> string \<Rightarrow> 'g \<Rightarrow> (fault + int) \<times> 'g" where
  "cl_check_property c ip port prop =
     quick_post c CHECK_PROPERTY (Any_CheckProperty
       \<lparr>cp_principal = default_Principal\<lparr>p_auth := address ip port\<rparr>, cp_properties = [prop]\<rparr>)"

definition access_check :: "string \<Rightarrow> u32 \<Rightarrow> string \<Rightarrow> any_msg" where
  "access_check ip port obj =
     Any_CheckAccess \<lparr>ca_principal = default_Principal\<lparr>p_auth := address ip port\<rparr>, ca_objects = [obj]\<rparr>"

definition cl_check_access :: "'g client \<Rightarrow> string \<Rightarrow> u32 \<Rightarrow> string \<Rightarrow> 'g \<Rightarrow> (fault + int) \<times> 'g" where
  "cl_check_access c ip port obj = quick_post c CHECK_ACCESS (access_check ip port obj)"

definition cl_check_attestation :: "'g client \<Rightarrow> string \<Rightarrow> u32 \<Rightarrow> 'g \<Rightarrow> (fault + Attestation option) \<times> 'g" where
  "cl_check_attestation c ip port =
     post_extract c CHECK_ATTESTATION
       (Any_CheckAttestation \<lparr>catt_principal = default_Principal\<lparr>p_auth := address ip port\<rparr>\<rparr>)
       response_attestation"

definition cl_check_worker_access :: "'g client \<Rightarrow> string \<Rightarrow> u32 \<Rightarrow> string \<Rightarrow> 'g \<Rightarrow> (fault + int) \<times> 'g" where
  "cl_check_worker_access c ip port obj = quick_post c CHECK_WORKER_ACCESS (access_check ip port obj)"

definition cl_check_image_property :: "'g client \<Rightarrow> string \<Rightarrow> string \<Rightarrow> string \<Rightarrow> 'g \<Rightarrow> (fault + int) \<times> 'g" where
  "cl_check_image_property c img config prop =
     quick_post c CHECK_IMAGE_PROPERTY (Any_CheckImage
       \<lparr>ci_image = img, ci_config = [(LEGACY_CONFIG_KEY, config)], ci_property = [prop]\<rparr>)"

definition cl_free_call :: "'g client \<Rightarrow> string \<Rightarrow> string list \<Rightarrow> 'g \<Rightarrow> (fault + int) \<times> 'g" where
  "cl_free_call c cmd vals = quick_post c FREE_CALL (Any_FreeCall \<lparr>free_cmd = cmd, free_values = vals\<rparr>)"

definition cl_guard_call :: "'g client \<Rightarrow> string \<Rightarrow> string list \<Rightarrow> 'g \<Rightarrow> (fault + int) \<times> 'g" where
  "cl_guard_call c cmd vals =
     quick_post c GUARD_CALL (Any_GuardCall \<lparr>guard_cmd = cmd, guard_ip = '''', guard_port = 0, guard_values = vals\<rparr>)"

section \<open>Lemmas\<close>

lemma client_status_int_eq [simp]: "client_status_int level r = status_int r"
  by (simp add: client_status_int_def status_int_status)

section \<open>Properties\<close>

lemma split_config_join: "CHR ''='' \<notin> set k \<Longrightarrow> split_config (k @ CHR ''='' # v) = Inr (k, v)"
  by (simp add: split_config_def find_char_first)

lemma parse_configs_append:
  "\<forall>e \<in> set kvs. CHR ''='' \<notin> set (fst e) \<Longrightarrow>
    \<exists>m'. parse_configs (map (\<lambda>e. fst e @ CHR ''='' # snd e) kvs) m = Inr m'
      \<and> map_of m' = map_of m ++ map_of (rev kvs)"
proof (induction kvs arbitrary: m)
  case (Cons e kvs)
  then obtain m' where m': "parse_configs (map (\<lambda>e. fst e @ CHR ''='' # snd e) kvs)
      (AList.update (fst e) (snd e) m) = Inr m'"
    "map_of m' = map_of (AList.update (fst e) (snd e) m) ++ map_of (rev kvs)" by force
  with Cons.prems show ?case
    by (cases e) (auto simp: split_config_join update_conv' map_add_def split: option.split)
qed simp

text \<open>
  The key=value arguments of \<open>create_instance\<close> are read back exactly: when no key contains
  an equals sign, the configuration map has the given entries, the last one for each key, and
  an argument without an equals sign makes the string arithmetic leave the string.
\<close>

theorem parse_configs_round_trip:
  assumes "\<forall>e \<in> set kvs. CHR ''='' \<notin> set (fst e)"
  shows "(\<exists>m. parse_configs (map (\<lambda>e. fst e @ ''='' @ snd e) kvs) [] = Inr m \<and> map_of m = map_of (rev kvs))
    \<and> (\<forall>s rest. CHR ''='' \<notin> set s \<longrightarrow>
        parse_configs (map (\<lambda>e. fst e @ ''='' @ snd e) kvs @ s # rest) [] = Inl Out_of_range)"
proof (intro conjI allI impI)
  show "\<exists>m. parse_configs (map (\<lambda>e. fst e @ ''='' @ snd e) kvs) [] = Inr m \<and> map_of m = map_of (rev kvs)"
    using parse_configs_append [OF assms, of "[]"] by simp
  have bad: "parse_configs (xs @ s # rest) m = Inl Out_of_range"
    if "CHR ''='' \<notin> set s" "parse_configs xs m = Inr m'" for xs m m' s rest
  proof -
    have "split_config s = Inl Out_of_range" using that(1) by (simp add: split_config_def find_char_None [THEN iffD2])
    with that(2) show ?thesis
      by (induction xs m rule: parse_configs.induct) (auto split: sum.splits)
  qed
  fix s rest assume "CHR ''='' \<notin> set s"
  then show "parse_configs (map (\<lambda>e. fst e @ ''='' @ snd e) kvs @ s # rest) [] = Inl Out_of_range"
    using bad parse_configs_append [OF assms, of "[]"] by auto
qed

theorem parse_configs_round_trip_witness:
  "\<exists>m. parse_configs [''a=1'', ''b=x=y'', ''a=2''] [] = Inr m \<and> map_of m ''a'' = Some ''2'' \<and> map_of m ''b'' = Some ''x=y''"
  using parse_configs_round_trip [of "[(''a'', ''1''), (''b'', ''x=y''), (''a'', ''2'')]"] by auto

end
