(* ===== verification/Syscall.thy ===== *)
theory Syscall
  imports Prelude
begin

text \<open>
  \<open>SyscallProxyImpl\<close> of include/port-syscall.h.  The modified kernel is a parameter: the port
  system calls on a kernel state \<open>'k\<close>.  A query returns its code and the range it wrote.
\<close>

record 'k kernel =
  sys_get_local :: "int \<Rightarrow> 'k \<Rightarrow> int \<times> int \<times> int"
  sys_set_local :: "int \<Rightarrow> int \<Rightarrow> int \<Rightarrow> 'k \<Rightarrow> int \<times> 'k"
  sys_add_reserved :: "int \<Rightarrow> int \<Rightarrow> 'k \<Rightarrow> int \<times> 'k"
  sys_del_reserved :: "int \<Rightarrow> int \<Rightarrow> 'k \<Rightarrow> int \<times> 'k"
  sys_clear_reserved :: "'k \<Rightarrow> int \<times> 'k"
  sys_alloc_local :: "int \<Rightarrow> int \<Rightarrow> int \<Rightarrow> 'k \<Rightarrow> int \<times> 'k"

text \<open>
  The constructor clamps the local range to the one in
  /proc/sys/net/ipv4/ip_local_port_range, here the argument \<open>sys\<close>.  It ignores the code of
  the query, and the range then holds whatever the stack held.
\<close>

definition proxy_init :: "'k kernel \<Rightarrow> int \<times> int \<Rightarrow> 'k \<Rightarrow> 'k" where
  "proxy_init ops sys k =
     (let (ret, lo, hi) = sys_get_local ops 0 k; (syslo, syshi) = sys
      in if lo < syslo \<or> hi > syshi
         then snd (sys_set_local ops 0 (if lo < syslo then syslo else lo) (if hi > syshi then syshi else hi) k)
         else k)"

definition set_child_ports :: "'k kernel \<Rightarrow> int \<Rightarrow> int \<Rightarrow> int \<Rightarrow> 'k \<Rightarrow> int \<times> 'k" where
  "set_child_ports ops pid lo hi = sys_set_local ops pid lo hi"

definition get_local_ports :: "'k kernel \<Rightarrow> 'k \<Rightarrow> int \<times> int \<times> int" where
  "get_local_ports ops k = sys_get_local ops 0 k"

definition get_child_ports :: "'k kernel \<Rightarrow> int \<Rightarrow> 'k \<Rightarrow> int \<times> int \<times> int" where
  "get_child_ports ops pid k = sys_get_local ops pid k"

text \<open>The proxy takes half-open ranges; the system calls take closed ones.\<close>

definition add_reserved_ports :: "'k kernel \<Rightarrow> int \<Rightarrow> int \<Rightarrow> 'k \<Rightarrow> int \<times> 'k" where
  "add_reserved_ports ops lo hi = sys_add_reserved ops lo (hi - 1)"

definition del_reserved_ports :: "'k kernel \<Rightarrow> int \<Rightarrow> int \<Rightarrow> 'k \<Rightarrow> int \<times> 'k" where
  "del_reserved_ports ops lo hi = sys_del_reserved ops lo (hi - 1)"

definition clear_reserved_ports :: "'k kernel \<Rightarrow> 'k \<Rightarrow> int \<times> 'k" where
  "clear_reserved_ports ops = sys_clear_reserved ops"

definition alloc_child_ports :: "'k kernel \<Rightarrow> int \<Rightarrow> int \<Rightarrow> int \<Rightarrow> 'k \<Rightarrow> int \<times> 'k" where
  "alloc_child_ports ops ppid pid n = sys_alloc_local ops ppid pid n"

section \<open>The system calls\<close>

text \<open>
  The wrappers around \<open>syscall\<close>, with the numbers of x86_64.  A call takes a number and three
  arguments; the two integers the kernel writes through pointers come with the result.  The calls
  that concern the own process pass 0 for its pid.
\<close>

definition GET_PROC_LOCAL_PORTS :: nat where "GET_PROC_LOCAL_PORTS = 326"
definition SET_PROC_LOCAL_PORTS :: nat where "SET_PROC_LOCAL_PORTS = 327"
definition GET_PROC_RESERVED_PORTS :: nat where "GET_PROC_RESERVED_PORTS = 328"
definition ADD_PROC_RESERVED_PORTS :: nat where "ADD_PROC_RESERVED_PORTS = 329"
definition DELETE_PROC_RESERVED_PORTS :: nat where "DELETE_PROC_RESERVED_PORTS = 330"
definition CLEAR_PROC_RESERVED_PORTS :: nat where "CLEAR_PROC_RESERVED_PORTS = 331"
definition ALLOC_PROC_LOCAL_PORTS :: nat where "ALLOC_PROC_LOCAL_PORTS = 332"

type_synonym 'k syscall = "nat \<Rightarrow> int list \<Rightarrow> 'k \<Rightarrow> (int \<times> int \<times> int) \<times> 'k"

definition raw_get :: "'k syscall \<Rightarrow> nat \<Rightarrow> int \<Rightarrow> 'k \<Rightarrow> int \<times> int \<times> int" where
  "raw_get sc number pid k = fst (sc number [pid] k)"

definition raw_call :: "'k syscall \<Rightarrow> nat \<Rightarrow> int list \<Rightarrow> 'k \<Rightarrow> int \<times> 'k" where
  "raw_call sc number args k = (case sc number args k of ((ret, _, _), k') \<Rightarrow> (ret, k'))"

definition port_kernel :: "'k syscall \<Rightarrow> 'k kernel" where
  "port_kernel sc =
     \<lparr>sys_get_local = raw_get sc GET_PROC_LOCAL_PORTS,
      sys_set_local = (\<lambda>pid lo hi. raw_call sc SET_PROC_LOCAL_PORTS [pid, lo, hi]),
      sys_add_reserved = (\<lambda>lo hi. raw_call sc ADD_PROC_RESERVED_PORTS [0, lo, hi]),
      sys_del_reserved = (\<lambda>lo hi. raw_call sc DELETE_PROC_RESERVED_PORTS [0, lo, hi]),
      sys_clear_reserved = raw_call sc CLEAR_PROC_RESERVED_PORTS [0],
      sys_alloc_local = (\<lambda>ppid pid n. raw_call sc ALLOC_PROC_LOCAL_PORTS [ppid, pid, n])\<rparr>"

definition get_reserved_ports :: "'k syscall \<Rightarrow> 'k \<Rightarrow> int \<times> int \<times> int" where
  "get_reserved_ports sc k = raw_get sc GET_PROC_RESERVED_PORTS 0 k"

text \<open>
  \<open>get_system_local_ports\<close> extracts two integers from the file.  Extraction from a stream that
  could not be opened, has failed or has only white space left keeps the variable as it was, here
  what the stack held (\<open>junk\<close>); a text that is not a number stores 0, one that does not fit the
  nearest \<open>int\<close>, and both make the stream fail.
\<close>

definition read_int :: "int \<Rightarrow> string option \<Rightarrow> int \<times> string option" where
  "read_int old stream =
     (case stream of
        None \<Rightarrow> (old, None)
      | Some s \<Rightarrow>
          (case dropWhile is_space s of
             [] \<Rightarrow> (old, None)
           | c # r \<Rightarrow>
               let body = (if c = CHR ''-'' \<or> c = CHR ''+'' then r else c # r);
                   ds = takeWhile is_digit body;
                   v = (if c = CHR ''-'' then - int (read_nat ds) else int (read_nat ds))
               in if ds = [] then (0, None)
                  else if v > 2 ^ 31 - 1 then (2 ^ 31 - 1, None)
                  else if v < - (2 ^ 31) then (- (2 ^ 31), None)
                  else (v, Some (dropWhile is_digit body))))"

definition get_system_local_ports :: "string option \<Rightarrow> int \<times> int \<Rightarrow> int \<times> int" where
  "get_system_local_ports file junk =
     (case read_int (fst junk) file of (lo, rest) \<Rightarrow> (lo, fst (read_int (snd junk) rest)))"

section \<open>A kernel with one range per process\<close>

text \<open>
  A kernel that keeps a local range per process, whose calls succeed: for the examples.
\<close>

definition range_kernel :: "(int \<Rightarrow> int \<times> int) kernel" where
  "range_kernel =
     \<lparr>sys_get_local = (\<lambda>pid k. (0, fst (k pid), snd (k pid))),
      sys_set_local = (\<lambda>pid lo hi k. (0, k(pid := (lo, hi)))),
      sys_add_reserved = (\<lambda>lo hi k. (0, k)), sys_del_reserved = (\<lambda>lo hi k. (0, k)),
      sys_clear_reserved = (\<lambda>k. (0, k)),
      sys_alloc_local = (\<lambda>ppid pid n k. let lo = fst (k ppid) in (lo, k(pid := (lo, lo + n - 1))))\<rparr>"

section \<open>Properties\<close>

text \<open>
  With a kernel whose query reports the range that was last set, the constructor leaves
  the process with the intersection of its range and the system's, whatever either was, and
  it makes no change when its range already lies inside.
\<close>

theorem proxy_clamps_range:
  assumes "\<And>pid lo hi k. sys_get_local ops pid (snd (sys_set_local ops pid lo hi k)) = (0, lo, hi)"
    and "sys_get_local ops 0 k = (ret, lo, hi)"
  shows "\<exists>ret'. get_local_ports ops (proxy_init ops (syslo, syshi) k) = (ret', max lo syslo, min hi syshi)
    \<and> (syslo \<le> lo \<and> hi \<le> syshi \<longrightarrow> proxy_init ops (syslo, syshi) k = k)"
  using assms by (auto simp: proxy_init_def get_local_ports_def Let_def max_def min_def)

theorem proxy_clamps_range_witness:
  "get_local_ports range_kernel (proxy_init range_kernel (32768, 60999) (\<lambda>_. (1, 65535))) = (0, 32768, 60999)"
  using proxy_clamps_range [of range_kernel "\<lambda>_. (1, 65535)" 0 1 65535 32768 60999]
  by (simp add: range_kernel_def get_local_ports_def)


text \<open>
  The kernel writes the file as two decimal numbers separated by a tab; both are read back, and
  the constructor of the proxy clamps to them through the system calls.
\<close>

lemma read_int_show_nat:
  assumes "n < 2 ^ 31" "rest = [] \<or> \<not> is_digit (hd rest)" "\<forall>c \<in> set blanks. is_space c"
  shows "read_int old (Some (blanks @ show_nat n @ rest)) = (int n, Some rest)"
proof -
  obtain c t where ct: "show_nat n = c # t" by (cases "show_nat n") auto
  then have digits: "\<forall>d \<in> set (c # t). is_digit d" using show_nat_digits [of _ n] by simp
  then have c: "\<not> is_space c" "c \<noteq> CHR ''-''" "c \<noteq> CHR ''+''" by (auto simp: is_digit_def is_space_def)
  have "dropWhile is_space (blanks @ show_nat n @ rest) = c # t @ rest"
    using assms(3) c(1) by (simp add: ct dropWhile_append2)
  moreover have "takeWhile is_digit (c # t @ rest) = show_nat n" "dropWhile is_digit (c # t @ rest) = rest"
    using digits assms(2) by (auto simp: ct takeWhile_append dropWhile_append takeWhile_eq_Nil_iff dropWhile_eq_self_iff)
  ultimately show ?thesis using assms(1) c by (simp add: read_int_def Let_def)
qed

lemma get_system_local_ports_reads:
  assumes "lo < 2 ^ 31" "hi < 2 ^ 31"
  shows "get_system_local_ports (Some (show_nat lo @ [CHR 0x09] @ show_nat hi @ [CHR 0x0A])) junk = (int lo, int hi)"
  using read_int_show_nat [of lo "[CHR 0x09] @ show_nat hi @ [CHR 0x0A]" Nil "fst junk"]
    read_int_show_nat [of hi "[CHR 0x0A]" "[CHR 0x09]" "snd junk"] assms
  by (simp add: get_system_local_ports_def is_digit_def is_space_def)

end
