(* ===== verification/Api.thy ===== *)
theory Api
  imports Client Syscall Metadata
begin

text \<open>
  The C interface of client/client.cc: the process-wide state of the library and the
  \<open>liblatte\<close> functions.  A \<open>const char*\<close> is an optional string; building a \<open>std::string\<close> from
  a null pointer is undefined.  A call through a null \<open>latte_client\<close> or \<open>syscall_gate\<close> is a
  null dereference; the functions that start with \<open>CHECK_LIB_INIT\<close> return before.
\<close>

section \<open>Library state\<close>

record ('g, 'k) latte =
  latte_client :: "'g client option"
  syscall_gate :: "'k kernel option"
  port_usage :: "u64 \<rightharpoonup> u32 \<times> u32"
  auth_speaker :: string
  auth_ip_of :: string
  daemon :: 'g
  kern :: 'k

type_synonym ('g, 'k, 'a) api = "('g, 'k) latte \<Rightarrow> (fault + 'a) \<times> ('g, 'k) latte"

definition EINVAL :: int where "EINVAL = 22"
definition URL_MAX_ALLOWED :: nat where "URL_MAX_ALLOWED = 3000"
definition DEFAULT_DAEMON_PATH :: string where "DEFAULT_DAEMON_PATH = ''/var/run/attguard.sock''"

definition return :: "'a \<Rightarrow> ('g, 'k, 'a) api" where
  "return a st = (Inr a, st)"

definition CHECK_LIB_INIT :: "('g, 'k, int) api \<Rightarrow> ('g, 'k, int) api" where
  "CHECK_LIB_INIT k st = (if latte_client st = None then (Inr (-1), st) else k st)"

definition CHECK_LIB_INIT_PTR :: "('g, 'k, 'a option) api \<Rightarrow> ('g, 'k, 'a option) api" where
  "CHECK_LIB_INIT_PTR k st = (if latte_client st = None then (Inr None, st) else k st)"

definition CHECK_NULL_PTR :: "'p option \<Rightarrow> ('p \<Rightarrow> ('g, 'k, int) api) \<Rightarrow> ('g, 'k, int) api" where
  "CHECK_NULL_PTR ptr k = (case ptr of None \<Rightarrow> return EINVAL | Some p \<Rightarrow> k p)"

definition CHECK_NULL_PTR1 :: "'p option \<Rightarrow> ('p \<Rightarrow> ('g, 'k, 'a option) api) \<Rightarrow> ('g, 'k, 'a option) api" where
  "CHECK_NULL_PTR1 ptr k = (case ptr of None \<Rightarrow> return None | Some p \<Rightarrow> k p)"

text \<open>A \<open>const char*\<close> passed where a \<open>std::string\<close> is expected, and \<open>if (!p) p = dflt\<close>.\<close>

definition with_string :: "string option \<Rightarrow> (string \<Rightarrow> ('g, 'k, 'a) api) \<Rightarrow> ('g, 'k, 'a) api" where
  "with_string ptr k = (case ptr of None \<Rightarrow> (\<lambda>st. (Inl Null_deref, st)) | Some s \<Rightarrow> k s)"

definition or_default :: "string option \<Rightarrow> string \<Rightarrow> string" where
  "or_default ptr dflt = (case ptr of None \<Rightarrow> dflt | Some s \<Rightarrow> s)"

definition on_client :: "('g client \<Rightarrow> 'g \<Rightarrow> (fault + 'a) \<times> 'g) \<Rightarrow> ('g, 'k, 'a) api" where
  "on_client f st =
     (case latte_client st of
        None \<Rightarrow> (Inl Null_deref, st)
      | Some c \<Rightarrow> (case f c (daemon st) of (r, g') \<Rightarrow> (r, st\<lparr>daemon := g'\<rparr>)))"

text \<open>A system call through the gate; a \<open>uint64_t\<close> passed as a \<open>pid_t\<close> keeps its low 32 bits.\<close>

definition on_gate :: "('k kernel \<Rightarrow> 'k \<Rightarrow> 'r \<times> 'k) \<Rightarrow> ('g, 'k, 'r) api" where
  "on_gate f st =
     (case syscall_gate st of
        None \<Rightarrow> (Inl Null_deref, st)
      | Some ops \<Rightarrow> (case f ops (kern st) of (r, k') \<Rightarrow> (Inr r, st\<lparr>kern := k'\<rparr>)))"

definition pid_of :: "u64 \<Rightarrow> int" where
  "pid_of uuid = int_of_u32 (ucast uuid)"

section \<open>Initialisation\<close>

text \<open>
  \<open>liblatte_init\<close>.  The environment gives the kernel, the system port range, the interfaces,
  and the result of connecting to a socket path.
\<close>

definition speaker_of :: "string option \<Rightarrow> bool \<Rightarrow> 'k kernel \<Rightarrow> 'k \<Rightarrow> string \<Rightarrow> string" where
  "speaker_of ident run_as_iaas ops k ip =
     (if run_as_iaas then IAAS_IDENTITY
      else if or_default ident '''' = ''''
      then (let (ret, l, h) = get_local_ports ops k; (lo, hi) = (if ret < 0 then (1, 65535) else (l, h))
            in format_id ip lo hi)
      else or_default ident '''')"

definition liblatte_init ::
  "'k kernel \<Rightarrow> int \<times> int \<Rightarrow> fault + ifaddr list \<Rightarrow> (string \<Rightarrow> 'g channel option) \<Rightarrow> proto_lib \<Rightarrow> u64 \<Rightarrow> int
    \<Rightarrow> string option \<Rightarrow> bool \<Rightarrow> string option \<Rightarrow> ('g, 'k, int) api" where
  "liblatte_init ops sys ifs dial lib rand level ident run_as_iaas daemon_path st =
     (let st1 = st\<lparr>syscall_gate := Some ops, kern := proxy_init ops sys (kern st)\<rparr> in
      case get_myip ifs of
        Inl f \<Rightarrow> (Inl f, st1)
      | Inr ip \<Rightarrow>
          let speaker = speaker_of ident run_as_iaas ops (kern st1) ip;
              ipname = (if run_as_iaas then ''must_provide_ip_in_creation_as_iaas'' else ip);
              st2 = st1\<lparr>auth_ip_of := ip, auth_speaker := speaker\<rparr>;
              path = (if or_default daemon_path '''' = '''' then DEFAULT_DAEMON_PATH else or_default daemon_path '''')
          in if ip = '''' then (Inr (-1), st2)
             else (case client_new dial lib rand level speaker ipname path of
                     Inl f \<Rightarrow> (Inl f, st2)
                   | Inr c \<Rightarrow> (Inr 0, st2\<lparr>latte_client := Some c\<rparr>)))"

section \<open>Principals\<close>

definition create_principal_new ::
  "u64 \<Rightarrow> string \<Rightarrow> string \<Rightarrow> string option \<Rightarrow> u32 \<Rightarrow> u32 \<Rightarrow> ('g, 'k, int) api" where
  "create_principal_new uuid img config ip lo hi =
     on_client (\<lambda>c. cl_create_principal c uuid img config
       (if or_default ip '''' = '''' then c_myip c else or_default ip '''') lo hi)"

text \<open>The \<open>!\<close> takes the failure value 0 for success: the ports are recorded and 0 is returned then.\<close>

definition liblatte_create_principal_new ::
  "u64 \<Rightarrow> string option \<Rightarrow> string option \<Rightarrow> int \<Rightarrow> string option \<Rightarrow> ('g, 'k, int) api" where
  "liblatte_create_principal_new uuid img config nport new_ip =
     CHECK_LIB_INIT (\<lambda>st.
       case on_gate (\<lambda>ops. alloc_child_ports ops 0 (pid_of uuid) nport) st of
         (Inl f, st1) \<Rightarrow> (Inl f, st1)
       | (Inr v, st1) \<Rightarrow>
           if v < 0 then (Inr (-1), st1)
           else let lo = word_of_int v; hi = lo + word_of_int nport in
             (case create_principal_new uuid (or_default img '''') (or_default config ''*'') new_ip lo hi st1 of
                (Inl f, st2) \<Rightarrow> (Inl f, st2)
              | (Inr r, st2) \<Rightarrow>
                  if r = 0 then (Inr 0, st2\<lparr>port_usage := (port_usage st2)(uuid \<mapsto> (lo, hi))\<rparr>)
                  else (Inr 1, st2)))"

definition liblatte_create_principal ::
  "u64 \<Rightarrow> string option \<Rightarrow> string option \<Rightarrow> int \<Rightarrow> ('g, 'k, int) api" where
  "liblatte_create_principal uuid img config nport =
     liblatte_create_principal_new uuid img config nport (Some '''')"

definition liblatte_create_principal_with_allocated_ports ::
  "u64 \<Rightarrow> string option \<Rightarrow> string option \<Rightarrow> string option \<Rightarrow> int \<Rightarrow> int \<Rightarrow> ('g, 'k, int) api" where
  "liblatte_create_principal_with_allocated_ports uuid img config ip lo hi =
     create_principal_new uuid (or_default img '''') (or_default config ''*'') ip (word_of_int lo) (word_of_int hi)"

definition liblatte_delete_principal_without_allocated_ports :: "u64 \<Rightarrow> ('g, 'k, int) api" where
  "liblatte_delete_principal_without_allocated_ports uuid = on_client (\<lambda>c. cl_delete_principal c uuid)"

definition liblatte_delete_principal :: "u64 \<Rightarrow> ('g, 'k, int) api" where
  "liblatte_delete_principal uuid st =
     (case on_gate (\<lambda>ops k. (get_child_ports ops (pid_of uuid) k, k)) st of
        (Inl f, st1) \<Rightarrow> (Inl f, st1)
      | (Inr (ret, l, h), st1) \<Rightarrow>
          let (lo, hi) = (if ret < 0 then (1, 65535) else (l, h));
              st2 = (if lo > 1 \<and> hi < 65535
                     then snd (on_gate (\<lambda>ops. del_reserved_ports ops lo hi) st1) else st1)
          in liblatte_delete_principal_without_allocated_ports uuid st2)"

definition liblatte_create_instance ::
  "int \<Rightarrow> u64 \<Rightarrow> string option \<Rightarrow> string option \<Rightarrow> int \<Rightarrow> string option \<Rightarrow> string list \<Rightarrow> ('g, 'k, int) api" where
  "liblatte_create_instance getpid pid img ip nport store args st =
     (if nport \<le> 0 \<and> or_default ip '''' = '''' then (Inr (-1), st)
      else
        (case (if nport > 0 then on_gate (\<lambda>ops. alloc_child_ports ops getpid (pid_of pid) nport) st
               else (Inr 1, st)) of
           (Inl f, st1) \<Rightarrow> (Inl f, st1)
         | (Inr lport, st1) \<Rightarrow>
             if nport > 0 \<and> lport < 0 then (Inr (-1), st1)
             else let rport = (if nport > 0 then lport + nport - 1 else 65535) in
               with_string img (\<lambda>image_name. on_client (\<lambda>c. cl_create_instance c pid image_name args
                  (or_default ip '''') (word_of_int lport) (word_of_int rport) (or_default store ''''))) st1))"

definition liblatte_delete_instance :: "u64 \<Rightarrow> ('g, 'k, int) api" where
  "liblatte_delete_instance pid = liblatte_delete_principal pid"

section \<open>Statements and checks\<close>

definition liblatte_create_image ::
  "string option \<Rightarrow> string option \<Rightarrow> string option \<Rightarrow> string option \<Rightarrow> ('g, 'k, int) api" where
  "liblatte_create_image image_hash source_url source_rev misc_conf =
     CHECK_LIB_INIT (CHECK_NULL_PTR image_hash (\<lambda>hash. CHECK_NULL_PTR source_url (\<lambda>url.
       on_client (\<lambda>c. cl_endorse_source c hash (or_default misc_conf ''*'')
         (format_image_source url (or_default source_rev ''''))))))"

definition liblatte_post_object_acl :: "string option \<Rightarrow> string option \<Rightarrow> ('g, 'k, int) api" where
  "liblatte_post_object_acl obj_id requirement =
     CHECK_LIB_INIT (CHECK_NULL_PTR obj_id (\<lambda>obj. CHECK_NULL_PTR requirement (\<lambda>acl.
       on_client (\<lambda>c. cl_post_acl c obj acl))))"

definition liblatte_attest_principal_property :: "string option \<Rightarrow> u32 \<Rightarrow> string option \<Rightarrow> ('g, 'k, int) api" where
  "liblatte_attest_principal_property ip port prop =
     CHECK_LIB_INIT (CHECK_NULL_PTR ip (\<lambda>i. CHECK_NULL_PTR prop (\<lambda>p.
       on_client (\<lambda>c. cl_check_property c i port p))))"

definition liblatte_attest_principal_access :: "string option \<Rightarrow> u32 \<Rightarrow> string option \<Rightarrow> ('g, 'k, int) api" where
  "liblatte_attest_principal_access ip port obj =
     CHECK_LIB_INIT (CHECK_NULL_PTR ip (\<lambda>i. CHECK_NULL_PTR obj (\<lambda>ob.
       on_client (\<lambda>c. cl_check_access c i port ob))))"

definition liblatte_set_log_level :: "int \<Rightarrow> int \<Rightarrow> int" where
  "liblatte_set_log_level new_level level = setloglevel new_level level"

definition liblatte_endorse_principal ::
  "string option \<Rightarrow> u32 \<Rightarrow> u64 \<Rightarrow> int \<Rightarrow> string option \<Rightarrow> ('g, 'k, int) api" where
  "liblatte_endorse_principal ip port gn ty prop =
     CHECK_LIB_INIT (CHECK_NULL_PTR ip (\<lambda>i. CHECK_NULL_PTR prop (\<lambda>p.
       on_client (\<lambda>c. cl_endorse_principal c i port gn ty p))))"

definition liblatte_revoke_principal :: "string option \<Rightarrow> u32 \<Rightarrow> int \<Rightarrow> string option \<Rightarrow> ('g, 'k, int) api" where
  "liblatte_revoke_principal ip port ty prop = return (-1)"

text \<open>The third argument of \<open>endorse_image\<close> is a member of \<open>Endorse::Type\<close>, not of \<open>Endorsement::Type\<close>.\<close>

definition liblatte_endorse_image ::
  "string option \<Rightarrow> string option \<Rightarrow> string option \<Rightarrow> ('g, 'k, int) api" where
  "liblatte_endorse_image ident config prop =
     CHECK_LIB_INIT (CHECK_NULL_PTR ident (\<lambda>i. CHECK_NULL_PTR prop (\<lambda>p.
       on_client (\<lambda>c. cl_endorse_image c i (or_default config ''*'') Endorse_IMAGE p))))"

definition liblatte_endorse_source ::
  "string option \<Rightarrow> string option \<Rightarrow> string option \<Rightarrow> string option \<Rightarrow> ('g, 'k, int) api" where
  "liblatte_endorse_source url srev config prop =
     CHECK_LIB_INIT (CHECK_NULL_PTR url (\<lambda>u. CHECK_NULL_PTR srev (\<lambda>r. CHECK_NULL_PTR prop (\<lambda>p.
       on_client (\<lambda>c. cl_endorse_source_typed c (format_image_source u r) (or_default config ''*'')
         Endorse_SOURCE p)))))"

definition liblatte_revoke :: "string option \<Rightarrow> string option \<Rightarrow> int \<Rightarrow> string option \<Rightarrow> ('g, 'k, int) api" where
  "liblatte_revoke ident config ty prop = return (-1)"

definition liblatte_endorse_membership :: "string option \<Rightarrow> u32 \<Rightarrow> u64 \<Rightarrow> string option \<Rightarrow> ('g, 'k, int) api" where
  "liblatte_endorse_membership ip port gn master =
     CHECK_LIB_INIT (CHECK_NULL_PTR master (\<lambda>p. with_string ip (\<lambda>i.
       on_client (\<lambda>c. cl_endorse_membership c i port gn p))))"

definition liblatte_endorse_attester :: "string option \<Rightarrow> string option \<Rightarrow> ('g, 'k, int) api" where
  "liblatte_endorse_attester ident config =
     CHECK_LIB_INIT (CHECK_NULL_PTR ident (\<lambda>i.
       on_client (\<lambda>c. cl_endorse_attester c i (or_default config ''*''))))"

text \<open>It calls \<open>endorse_attester\<close>.\<close>

definition liblatte_endorse_builder :: "string option \<Rightarrow> string option \<Rightarrow> ('g, 'k, int) api" where
  "liblatte_endorse_builder ident config =
     CHECK_LIB_INIT (CHECK_NULL_PTR ident (\<lambda>i.
       on_client (\<lambda>c. cl_endorse_attester c i (or_default config ''*''))))"

definition liblatte_endorse_image_source ::
  "string option \<Rightarrow> string option \<Rightarrow> string option \<Rightarrow> string option \<Rightarrow> ('g, 'k, int) api" where
  "liblatte_endorse_image_source ident config source_url source_rev =
     CHECK_LIB_INIT (CHECK_NULL_PTR ident (\<lambda>i. CHECK_NULL_PTR source_url (\<lambda>url. CHECK_NULL_PTR source_rev (\<lambda>r.
       on_client (\<lambda>c. cl_endorse_source c i (or_default config ''*'') (format_image_source url r))))))"

definition liblatte_check_property :: "string option \<Rightarrow> u32 \<Rightarrow> string option \<Rightarrow> ('g, 'k, int) api" where
  "liblatte_check_property ip port prop =
     CHECK_LIB_INIT (CHECK_NULL_PTR ip (\<lambda>i. CHECK_NULL_PTR prop (\<lambda>p.
       on_client (\<lambda>c. cl_check_property c i port p))))"

definition liblatte_check_access :: "string option \<Rightarrow> u32 \<Rightarrow> string option \<Rightarrow> ('g, 'k, int) api" where
  "liblatte_check_access ip port obj =
     CHECK_LIB_INIT (CHECK_NULL_PTR ip (\<lambda>i. CHECK_NULL_PTR obj (\<lambda>ob.
       on_client (\<lambda>c. cl_check_access c i port ob))))"

definition liblatte_check_worker_access :: "string option \<Rightarrow> u32 \<Rightarrow> string option \<Rightarrow> ('g, 'k, int) api" where
  "liblatte_check_worker_access ip port obj =
     CHECK_LIB_INIT (CHECK_NULL_PTR ip (\<lambda>i. CHECK_NULL_PTR obj (\<lambda>ob.
       on_client (\<lambda>c. cl_check_worker_access c i port ob))))"

definition liblatte_check_image_property ::
  "string option \<Rightarrow> string option \<Rightarrow> string option \<Rightarrow> ('g, 'k, int) api" where
  "liblatte_check_image_property img config prop =
     with_string img (\<lambda>im. with_string config (\<lambda>conf. with_string prop (\<lambda>p.
       on_client (\<lambda>c. cl_check_image_property c im conf p))))"

definition liblatte_endorse :: "string option \<Rightarrow> string option \<Rightarrow> string option \<Rightarrow> ('g, 'k, int) api" where
  "liblatte_endorse ident prop val =
     (case (ident, prop, val) of
        (Some i, Some p, Some v) \<Rightarrow> on_client (\<lambda>c. cl_endorse c i p v)
      | _ \<Rightarrow> return (-1))"

definition liblatte_link_image :: "string option \<Rightarrow> string option \<Rightarrow> ('g, 'k, int) api" where
  "liblatte_link_image host img = on_client (\<lambda>c. cl_link_image c (or_default host '''') (or_default img ''''))"

definition liblatte_free_call :: "string option \<Rightarrow> string list \<Rightarrow> ('g, 'k, int) api" where
  "liblatte_free_call cmd args = with_string cmd (\<lambda>s. on_client (\<lambda>c. cl_free_call c s args))"

definition liblatte_guard_call :: "string option \<Rightarrow> string option \<Rightarrow> int \<Rightarrow> string list \<Rightarrow> ('g, 'k, int) api" where
  "liblatte_guard_call cmd ip port args =
     with_string ip (\<lambda>i. with_string cmd (\<lambda>s. on_client (\<lambda>c. cl_guard_call c s (format_netaddr i port # args))))"

section \<open>Queries\<close>

text \<open>
  \<open>wrap_proto_msg\<close>: the serialised message in fresh memory, if there is any and the
  serialisation succeeds.  \<open>ser\<close> is the serialiser of the protobuf library.
\<close>

definition wrap_proto_msg :: "('m \<Rightarrow> bytes option) \<Rightarrow> bool \<Rightarrow> 'm \<Rightarrow> bytes option" where
  "wrap_proto_msg ser malloc_ok p = (if \<not> malloc_ok then None else ser p)"

definition wrap_result ::
  "('m \<Rightarrow> bytes option) \<Rightarrow> bool \<Rightarrow> ('g, 'k, 'm option) api \<Rightarrow> ('g, 'k, bytes option) api" where
  "wrap_result ser malloc_ok f st =
     (case f st of
        (Inl e, st') \<Rightarrow> (Inl e, st')
      | (Inr None, st') \<Rightarrow> (Inr None, st')
      | (Inr (Some p), st') \<Rightarrow> (Inr (wrap_proto_msg ser malloc_ok p), st'))"

definition liblatte_get_principal ::
  "(Principal \<Rightarrow> bytes option) \<Rightarrow> bool \<Rightarrow> string option \<Rightarrow> u32 \<Rightarrow> unit option \<Rightarrow> unit option \<Rightarrow> ('g, 'k, bytes option) api" where
  "liblatte_get_principal ser malloc_ok ip lo out_ptr size_ptr =
     CHECK_LIB_INIT_PTR (CHECK_NULL_PTR1 ip (\<lambda>i. CHECK_NULL_PTR1 out_ptr (\<lambda>_. CHECK_NULL_PTR1 size_ptr (\<lambda>_.
       wrap_result ser malloc_ok (on_client (\<lambda>c. cl_get_principal c i lo))))))"

definition liblatte_get_local_principal ::
  "(Principal \<Rightarrow> bytes option) \<Rightarrow> bool \<Rightarrow> u64 \<Rightarrow> unit option \<Rightarrow> unit option \<Rightarrow> ('g, 'k, bytes option) api" where
  "liblatte_get_local_principal ser malloc_ok uuid out_ptr size_ptr =
     CHECK_LIB_INIT_PTR (CHECK_NULL_PTR1 out_ptr (\<lambda>_. CHECK_NULL_PTR1 size_ptr (\<lambda>_.
       wrap_result ser malloc_ok (on_client (\<lambda>c. cl_get_local_principal c uuid)))))"

definition liblatte_get_metadata_config ::
  "(MetadataConfig \<Rightarrow> bytes option) \<Rightarrow> bool \<Rightarrow> unit option \<Rightarrow> unit option \<Rightarrow> ('g, 'k, bytes option) api" where
  "liblatte_get_metadata_config ser malloc_ok out_ptr size_ptr =
     CHECK_LIB_INIT_PTR (CHECK_NULL_PTR1 out_ptr (\<lambda>_. CHECK_NULL_PTR1 size_ptr (\<lambda>_.
       wrap_result ser malloc_ok (on_client cl_get_metadata_config))))"

definition liblatte_check_attestation ::
  "(Attestation \<Rightarrow> bytes option) \<Rightarrow> bool \<Rightarrow> string option \<Rightarrow> u32 \<Rightarrow> unit option \<Rightarrow> unit option \<Rightarrow> ('g, 'k, bytes option) api" where
  "liblatte_check_attestation ser malloc_ok ip port out_ptr size_ptr =
     CHECK_LIB_INIT_PTR (CHECK_NULL_PTR1 ip (\<lambda>i. CHECK_NULL_PTR1 out_ptr (\<lambda>_. CHECK_NULL_PTR1 size_ptr (\<lambda>_.
       wrap_result ser malloc_ok (on_client (\<lambda>c. cl_check_attestation c i port))))))"

text \<open>
  \<open>liblatte_get_metadata_config_easy\<close>: the return code, the text \<open>snprintf\<close> leaves in a buffer of
  \<open>n\<close> bytes, and the new \<open>*url_sz\<close>, which is the untruncated length.
\<close>

definition liblatte_get_metadata_config_easy :: "bool \<Rightarrow> nat option \<Rightarrow> ('g, 'k, int \<times> string \<times> nat) api" where
  "liblatte_get_metadata_config_easy url_null url_sz st =
     (if latte_client st = None then (Inr (-1, '''', 0), st)
      else if url_null then (Inr (EINVAL, '''', 0), st)
      else (case url_sz of
              None \<Rightarrow> (Inr (EINVAL, '''', 0), st)
            | Some n \<Rightarrow>
                if n > URL_MAX_ALLOWED then (Inr (- EINVAL, '''', n), st)
                else (case on_client cl_get_metadata_config st of
                        (Inl f, st') \<Rightarrow> (Inl f, st')
                      | (Inr None, st') \<Rightarrow> (Inr (0, '''', n), st')
                      | (Inr (Some m), st') \<Rightarrow>
                          let text = meta_ip m @ '':'' @ show_nat (unat (meta_port m)) in
                          (Inr (1, take (n - 1) text, length text), st'))))"

text \<open>
  \<open>liblatte_speaker\<close> and \<open>liblatte_authip\<close>: the characters \<open>strncpy\<close> writes.  A negative
  \<open>max_len\<close> becomes a huge \<open>size_t\<close>, and no terminator is ever written.
\<close>

definition copy_out :: "string \<Rightarrow> int \<Rightarrow> int \<times> string" where
  "copy_out s max_len =
     (let sz = (if max_len < 0 \<or> max_len > int (length s) then length s else nat max_len) in (0, take sz s))"

definition liblatte_speaker :: "int \<Rightarrow> ('g, 'k, int \<times> string) api" where
  "liblatte_speaker max_len st = (Inr (copy_out (auth_speaker st) max_len), st)"

definition liblatte_authip :: "int \<Rightarrow> ('g, 'k, int \<times> string) api" where
  "liblatte_authip max_len st = (Inr (copy_out (auth_ip_of st) max_len), st)"

section \<open>Properties\<close>

lemmas api_defs =
  CHECK_LIB_INIT_def CHECK_LIB_INIT_PTR_def CHECK_NULL_PTR_def CHECK_NULL_PTR1_def with_string_def on_client_def
  return_def

lemma check_null_Some [simp]:
  "CHECK_NULL_PTR (Some p) k = k p" "CHECK_NULL_PTR1 (Some p) k1 = k1 p" "with_string (Some s) k2 = k2 s"
  "or_default (Some s) d = s" "or_default None d = d"
  by (simp_all add: CHECK_NULL_PTR_def CHECK_NULL_PTR1_def with_string_def or_default_def)

text \<open>
  What happens before \<open>liblatte_init\<close>: the functions that begin with the check return -1
  (or a null pointer) and change nothing, whatever their arguments; the deletion, instance,
  endorsement, linking and call functions have no such check and dereference a null client.
\<close>

theorem uninitialised_library:
  assumes "latte_client st = None"
  shows "liblatte_create_principal_new u im cf np ip st = (Inr (-1), st)
    \<and> liblatte_create_image im cf ip pr st = (Inr (-1), st)
    \<and> liblatte_post_object_acl im pr st = (Inr (-1), st)
    \<and> liblatte_endorse_principal ip port gn ty pr st = (Inr (-1), st)
    \<and> liblatte_endorse_image im cf pr st = (Inr (-1), st)
    \<and> liblatte_endorse_membership ip port gn pr st = (Inr (-1), st)
    \<and> liblatte_endorse_attester im cf st = (Inr (-1), st)
    \<and> liblatte_check_property ip port pr st = (Inr (-1), st)
    \<and> liblatte_check_access ip port pr st = (Inr (-1), st)
    \<and> liblatte_get_local_principal ser ok u out sz st = (Inr None, st)
    \<and> liblatte_delete_principal_without_allocated_ports u st = (Inl Null_deref, st)
    \<and> liblatte_create_principal_with_allocated_ports u im cf ip lo hi st = (Inl Null_deref, st)
    \<and> liblatte_endorse (Some a) (Some b) (Some c) st = (Inl Null_deref, st)
    \<and> liblatte_link_image im ip st = (Inl Null_deref, st)
    \<and> liblatte_free_call cf args st = (Inl Null_deref, st)"
  using assms
  by (simp add: liblatte_create_principal_new_def liblatte_create_image_def liblatte_post_object_acl_def
      liblatte_endorse_principal_def liblatte_endorse_image_def liblatte_endorse_membership_def
      liblatte_endorse_attester_def liblatte_check_property_def liblatte_check_access_def
      liblatte_get_local_principal_def liblatte_delete_principal_without_allocated_ports_def
      liblatte_create_principal_with_allocated_ports_def create_principal_new_def liblatte_endorse_def
      liblatte_link_image_def liblatte_free_call_def api_defs split: option.split)

definition blank_latte :: "(unit, int \<Rightarrow> int \<times> int) latte" where
  "blank_latte = \<lparr>latte_client = None, syscall_gate = None, port_usage = Map.empty, auth_speaker = '''',
     auth_ip_of = '''', daemon = (), kern = (\<lambda>_. (1, 65535))\<rparr>"

theorem uninitialised_library_witness:
  "liblatte_link_image (Some ''h'') (Some ''i'') blank_latte = (Inl Null_deref, blank_latte)
   \<and> liblatte_post_object_acl None None blank_latte = (Inr (-1), blank_latte)"
proof -
  have "latte_client blank_latte = None" by (simp add: blank_latte_def)
  from uninitialised_library [OF this] show ?thesis by blast
qed

text \<open>
  The identity \<open>liblatte_init\<close> establishes when it returns 0: as the infrastructure provider
  the fixed \<open>IAAS_IDENTITY\<close>; otherwise the given id, or else the host address with the local port
  range after clamping.  The client is connected to the given path, or else to the default one.
\<close>

theorem init_identity:
  assumes "liblatte_init ops sys ifs dial lib rand level ident iaas path st = (Inr 0, st')"
  shows "\<exists>ip c. get_myip ifs = Inr ip \<and> ip \<noteq> '''' \<and> latte_client st' = Some c
    \<and> syscall_gate st' = Some ops \<and> auth_speaker st' = c_myid c \<and> auth_ip_of st' = ip
    \<and> dial (c_daemon_path c) = Some (c_sock c)
    \<and> c_daemon_path c = (if path = None \<or> path = Some '''' then DEFAULT_DAEMON_PATH else the path)
    \<and> c_myid c =
        (if iaas then IAAS_IDENTITY
         else if ident = None \<or> ident = Some ''''
         then (case get_local_ports ops (proxy_init ops sys (kern st)) of
                 (ret, lo, hi) \<Rightarrow> if ret < 0 then format_id ip 1 65535 else format_id ip lo hi)
         else the ident)"
proof -
  from assms obtain ip where ip: "get_myip ifs = Inr ip" "ip \<noteq> ''''"
    by (auto simp: liblatte_init_def Let_def split: sum.splits if_splits)
  with assms obtain ch where "redial dial
      (if or_default path '''' = '''' then DEFAULT_DAEMON_PATH else or_default path '''') = Inr ch"
    by (auto simp: liblatte_init_def client_new_def Let_def split: sum.splits)
  then have ch: "dial (if or_default path '''' = '''' then DEFAULT_DAEMON_PATH else or_default path '''') = Some ch"
    by (auto simp: redial_def split: option.splits if_splits)
  have od: "or_default x '''' = '''' \<longleftrightarrow> x = None \<or> x = Some ''''" "x \<noteq> None \<Longrightarrow> or_default x '''' = the x" for x
    by (auto simp: or_default_def split: option.splits)
  show ?thesis
    using assms ip ch
    by (auto simp: liblatte_init_def client_new_def redial_def speaker_of_def od Let_def split: prod.splits if_splits)
qed

definition demo_channel :: "unit channel" where
  "demo_channel = \<lparr>snd_sched = [], rcv_sched = [], reply = (\<lambda>b g. ([], g))\<rparr>"

definition demo_ifs :: "fault + ifaddr list" where
  "demo_ifs = Inr [\<lparr>ifa_name = ''lo'', sa_family = Some 2, ntop = Inr ''127.0.0.1''\<rparr>,
     \<lparr>ifa_name = ''eth0'', sa_family = Some 10, ntop = Inr ''::1''\<rparr>,
     \<lparr>ifa_name = ''eth0'', sa_family = Some 2, ntop = Inr ''10.0.0.9''\<rparr>]"

lemma demo_init:
  "\<exists>st'. liblatte_init range_kernel (32768, 60999) demo_ifs (\<lambda>_. Some demo_channel)
     (demo_lib (prepare 0 REVOKE Any_Empty '''') not_implemented 0) 1 LOG_INFO None False None blank_latte = (Inr 0, st')"
  by (simp add: liblatte_init_def client_new_def demo_ifs_def get_myip_def AF_INET_def redial_def Let_def)

theorem init_identity_witness:
  "\<exists>st' c. liblatte_init range_kernel (32768, 60999) demo_ifs (\<lambda>_. Some demo_channel)
      (demo_lib (prepare 0 REVOKE Any_Empty '''') not_implemented 0) 1 LOG_INFO None False None blank_latte = (Inr 0, st')
    \<and> latte_client st' = Some c \<and> c_myid c = format_id ''10.0.0.9'' 32768 60999"
proof -
  obtain st' where st': "liblatte_init range_kernel (32768, 60999) demo_ifs (\<lambda>_. Some demo_channel)
     (demo_lib (prepare 0 REVOKE Any_Empty '''') not_implemented 0) 1 LOG_INFO None False None blank_latte = (Inr 0, st')"
    using demo_init by blast
  have "get_local_ports range_kernel (proxy_init range_kernel (32768, 60999) (kern blank_latte)) = (0, 32768, 60999)"
    by (simp add: range_kernel_def get_local_ports_def proxy_init_def blank_latte_def)
  with init_identity [OF st'] st' show ?thesis
    by (auto simp: demo_ifs_def get_myip_def AF_INET_def)
qed

lemma create_principal_new_result:
  assumes "latte_client st \<noteq> None"
    and "on_gate (\<lambda>ops. alloc_child_ports ops 0 (pid_of uuid) nport) st = (Inr v, st1)" "0 \<le> v"
    and "create_principal_new uuid (or_default img '''') (or_default config ''*'') ip
           (word_of_int v) (word_of_int v + word_of_int nport) st1 = (Inr r, st2)"
  shows "liblatte_create_principal_new uuid img config nport ip st =
    (if r = 0
     then (Inr 0, st2\<lparr>port_usage := (port_usage st2)(uuid \<mapsto> (word_of_int v, word_of_int v + word_of_int nport))\<rparr>)
     else (Inr 1, st2))"
  using assms by (simp add: liblatte_create_principal_new_def CHECK_LIB_INIT_def Let_def)


text \<open>\<open>liblatte_endorse_builder\<close> makes an attester of what it is asked to make a builder.\<close>

lemma builder_endorses_attester: "liblatte_endorse_builder ident config = liblatte_endorse_attester ident config"
  by (simp add: liblatte_endorse_builder_def liblatte_endorse_attester_def)

end
