(* ===== verification/End_to_End.thy ===== *)
theory End_to_End
  imports Session Api
begin

text \<open>
  The client library connected to the daemon: a client's channel whose other end is a
  session of server/session.cc over the manager.  A client call is then a \<open>dispatch\<close> of its
  command under the credentials the kernel reports, and the properties of the manager become
  properties of the library functions.
\<close>

section \<open>The daemon at the other end of the socket\<close>

text \<open>
  The session receives one frame, answers, and waits for the next header.  A crash or a closed
  session sends nothing.
\<close>

definition guard_reply ::
  "proto_lib \<Rightarrow> 'j guard_env \<Rightarrow> bytes \<Rightarrow> session \<times> manager \<Rightarrow> bytes \<times> session \<times> manager" where
  "guard_reply lib env wire sm =
     (case sm of (s, m) \<Rightarrow>
        (case session_step lib env (Header_done False (take 8 wire)) s m of
           (Inl f, m1) \<Rightarrow> ([], stop s, m1)
         | (Inr s1, m1) \<Rightarrow>
             (case session_step lib env (Command_done False (take (command_size (s_state s1)) (drop 8 wire))) s1 m1 of
                (Inl f, m2) \<Rightarrow> ([], stop s1, m2)
              | (Inr s2, m2) \<Rightarrow>
                  (case s_state s2 of
                     Writing msg \<Rightarrow> (msg, response_sent False (length msg) s2, m2)
                   | _ \<Rightarrow> ([], s2, m2)))))"

text \<open>The connection can carry a command and its response.\<close>

definition carries :: "'g client \<Rightarrow> Command \<Rightarrow> Response \<Rightarrow> bool" where
  "carries c cmd resp \<longleftrightarrow>
     le32_ok (c_lib c)
     \<and> round_trips (ser_command (c_lib c)) (parse_command (c_lib c)) cmd
     \<and> length (ser_command (c_lib c) cmd) \<le> RECV_BUFSZ
     \<and> round_trips (ser_response (c_lib c)) (parse_response (c_lib c)) resp
     \<and> (\<forall>ev \<in> set (snd_sched (c_sock c)) \<union> set (rcv_sched (c_sock c)). live ev)
     \<and> length (ser_command (c_lib c) cmd) + 8 \<le> moves (snd_sched (c_sock c))
     \<and> length (ser_response (c_lib c) resp) + 8 \<le> moves (rcv_sched (c_sock c))"

definition connected :: "(session \<times> manager) client \<Rightarrow> 'j guard_env \<Rightarrow> session \<Rightarrow> bool" where
  "connected c env s \<longleftrightarrow> reply (c_sock c) = guard_reply (c_lib c) env \<and> s_state s = Reading_header"

lemma guard_reply_frame:
  assumes "le32_ok lib" "parse_command lib (ser_command lib cmd) = Some cmd"
    and "length (ser_command lib cmd) \<le> RECV_BUFSZ" "s_state s = Reading_header"
    and "dispatch env (stamped s cmd) m = (Inr resp, m')"
  shows "\<exists>s'. guard_reply lib env (frame lib (ser_command lib cmd)) (s, m)
      = (frame lib (ser_response lib resp), s', m')
    \<and> s_state s' = Reading_header \<and> s_pid s' = s_pid s \<and> s_uid s' = s_uid s \<and> s_gid s' = s_gid s"
proof -
  let ?f = "frame lib (ser_command lib cmd)" and ?n = "of_nat (length (ser_command lib cmd)) :: u32"
  have small: "length (ser_command lib cmd) < 2 ^ 31" using assms(3) by (simp add: RECV_BUFSZ_def)
  have n: "unat ?n = length (ser_command lib cmd)" using assms(3) by (simp add: RECV_BUFSZ_def unat_of_nat)
  have h: "read_le32 lib (take 8 ?f) = ?n" "length (take 8 ?f) = 8" "drop 8 ?f = ser_command lib cmd"
    using frame_header(2,3) [OF assms(1) small, of "[]"] length_frame [OF assms(1)] by simp_all
  let ?s1 = "s\<lparr>s_state := Reading_command ?n\<rparr>"
  have s1: "header_received lib False (take 8 ?f) s = ?s1"
    using h n assms(3) by (simp add: header_received_def Let_def COMM_HEADER_SZ_def)
  have "stamped ?s1 cmd = stamped s cmd" by (simp add: stamped_def)
  with h n assms(2,3,5) have s2: "command_received lib env False (unat ?n) (take (unat ?n) (drop 8 ?f)) ?s1 m =
      (Inr (write_response lib resp ?s1), m')"
    by (simp add: command_received_small)
  show ?thesis
    using s1 s2
    by (simp add: guard_reply_def command_size_def write_response_def serialize_msg_def frame_def Let_def
        response_sent_def proto_start_def clear_large_snd_buffer_def)
qed

text \<open>
  A command that goes out over the connection is dispatched, and its framed response is on the
  socket behind whatever was there.
\<close>

lemma post_on_sent:
  assumes "connected c env s" "carries c cmd resp" "dispatch env (stamped s cmd) m = (Inr resp, m')"
  shows "\<exists>s'. proto_send_msg (c_lib c) (ser_command (c_lib c)) (snd_sched (c_sock c)) cmd
      = Some (0, frame (c_lib c) (ser_command (c_lib c) cmd))
    \<and> reply (c_sock c) (frame (c_lib c) (ser_command (c_lib c) cmd)) (s, m)
      = (frame (c_lib c) (ser_response (c_lib c) resp), s', m')
    \<and> s_state s' = Reading_header \<and> s_pid s' = s_pid s \<and> s_uid s' = s_uid s \<and> s_gid s' = s_gid s"
proof -
  have "proto_send_msg (c_lib c) (ser_command (c_lib c)) (snd_sched (c_sock c)) cmd
      = Some (0, frame (c_lib c) (ser_command (c_lib c) cmd))"
    using assms(2) by (intro proto_send_complete) (auto simp: carries_def)
  with guard_reply_frame [of "c_lib c" cmd s env m resp m'] assms show ?thesis
    by (auto simp: carries_def connected_def round_trips_def)
qed

lemma post_on_connected:
  assumes "connected c env s" "carries c cmd resp" "dispatch env (stamped s cmd) m = (Inr resp, m')"
  shows "\<exists>s'. post_on c cmd ([], s, m) = (Inr resp, [], s', m') \<and> connected c env s'
    \<and> s_pid s' = s_pid s \<and> s_uid s' = s_uid s \<and> s_gid s' = s_gid s"
proof -
  let ?lib = "c_lib c"
  obtain s' where s': "proto_send_msg ?lib (ser_command ?lib) (snd_sched (c_sock c)) cmd = Some (0, frame ?lib (ser_command ?lib cmd))"
    "reply (c_sock c) (frame ?lib (ser_command ?lib cmd)) (s, m) = (frame ?lib (ser_response ?lib resp), s', m')"
    "s_state s' = Reading_header" "s_pid s' = s_pid s" "s_uid s' = s_uid s" "s_gid s' = s_gid s"
    using post_on_sent [OF assms] by blast
  obtain evs where "proto_recv_msg ?lib (parse_response ?lib) (rcv_sched (c_sock c))
      (frame ?lib (ser_response ?lib resp) @ []) = Some (Inr (0, Some resp, evs, []))"
    using proto_recv_complete [of ?lib "ser_response ?lib" "parse_response ?lib" resp "rcv_sched (c_sock c)" "[]"] assms(2)
    by (auto simp: carries_def)
  with s' assms(1) show ?thesis by (simp add: post_on_def connected_def Let_def)
qed

lemma post_connected:
  assumes "connected c env s" "carries c cmd resp" "dispatch env (stamped s cmd) m = (Inr resp, m')"
  shows "\<exists>s'. post c cmd (s, m) = (Inr resp, s', m') \<and> connected c env s'
    \<and> s_pid s' = s_pid s \<and> s_uid s' = s_uid s \<and> s_gid s' = s_gid s"
  using post_on_connected [OF assms] by (auto simp: post_def)

section \<open>Several processes\<close>

text \<open>
  Processes that use the library one call at a time: a call names the session of its process,
  the client with the schedules of its system calls, and the command.  Each process has its
  own socket, with the bytes it has not read; the sessions share the manager.
\<close>

fun library_calls ::
  "(nat \<times> (session \<times> manager) client \<times> Command) list \<Rightarrow> bytes list \<times> session list \<times> manager
    \<Rightarrow> (fault + Response) list \<times> bytes list \<times> session list \<times> manager" where
  "library_calls [] g = ([], g)"
| "library_calls ((i, c, cmd) # calls) (us, ss, m) =
     (case post_on c cmd (us ! i, ss ! i, m) of
        (r, u, s', m1) \<Rightarrow>
          (case library_calls calls (us[i := u], ss[i := s'], m1) of (rs, g) \<Rightarrow> (r # rs, g)))"

text \<open>Nothing unread on any socket.\<close>

abbreviation fresh :: "session list \<Rightarrow> bytes list" where
  "fresh ss \<equiv> replicate (length ss) []"

text \<open>The commands as the manager sees them.\<close>

definition stamped_calls :: "session list \<Rightarrow> (nat \<times> (session \<times> manager) client \<times> Command) list \<Rightarrow> Command list" where
  "stamped_calls ss = map (\<lambda>(i, c, cmd). stamped (ss ! i) cmd)"

definition working ::
  "'j guard_env \<Rightarrow> session list \<Rightarrow> (nat \<times> (session \<times> manager) client \<times> Command) list \<Rightarrow> Response list \<Rightarrow> bool" where
  "working env ss calls resps \<longleftrightarrow>
     list_all (\<lambda>s. s_state s = Reading_header) ss
     \<and> list_all2 (\<lambda>(i, c, cmd) resp. i < length ss \<and> reply (c_sock c) = guard_reply (c_lib c) env \<and> carries c cmd resp)
         calls resps"

lemma stamped_calls_update:
  assumes "s_pid s' = s_pid (ss ! i)" "s_uid s' = s_uid (ss ! i)" "s_gid s' = s_gid (ss ! i)"
  shows "stamped_calls (ss[i := s']) calls = stamped_calls ss calls"
proof -
  have "stamped (ss[i := s'] ! j) cmd = stamped (ss ! j) cmd" for j cmd
    using assms by (cases "i = j"; cases "i < length ss") (simp_all add: stamped_def not_less list_update_beyond)
  then show ?thesis by (simp add: stamped_calls_def)
qed

lemma library_calls_answers:
  "working env ss calls resps \<Longrightarrow> answers env (stamped_calls ss calls) m = (map Inr resps, m') \<Longrightarrow>
    \<exists>ss'. library_calls calls (fresh ss, ss, m) = (map Inr resps, fresh ss, ss', m')
      \<and> list_all (\<lambda>s. s_state s = Reading_header) ss'"
proof (induction calls arbitrary: ss m resps)
  case Nil
  then show ?case by (auto simp: working_def stamped_calls_def)
next
  case (Cons call calls)
  obtain i c cmd where call: "call = (i, c, cmd)" by (cases call)
  obtain resp resps1 where resps: "resps = resp # resps1" using Cons.prems(1) by (cases resps) (auto simp: working_def)
  obtain m1 where d: "dispatch env (stamped (ss ! i) cmd) m = (Inr resp, m1)"
    and rest: "answers env (stamped_calls ss calls) m1 = (map Inr resps1, m')"
    using Cons.prems(2) call resps by (auto simp: stamped_calls_def split: prod.splits)
  have i: "i < length ss" and con: "connected c env (ss ! i)" "carries c cmd resp"
    using Cons.prems(1) call resps by (auto simp: working_def connected_def list_all_length)
  obtain s' where s': "post_on c cmd ([], ss ! i, m) = (Inr resp, [], s', m1)" "connected c env s'"
    "s_pid s' = s_pid (ss ! i)" "s_uid s' = s_uid (ss ! i)" "s_gid s' = s_gid (ss ! i)"
    using post_on_connected [OF con d] by blast
  have u: "fresh ss ! i = []" "(fresh ss)[i := []] = fresh (ss[i := s'])"
    using i by (simp_all add: list_update_same_conv)
  have "working env (ss[i := s']) calls resps1"
    using Cons.prems(1) resps s'(2) i by (auto simp: working_def connected_def list_all_length nth_list_update)
  with Cons.IH [of "ss[i := s']" resps1 m1] rest stamped_calls_update [OF s'(3-5)] s'(1) u call resps
  show ?case by auto
qed

section \<open>Properties\<close>

definition demo_client :: "string guard_env \<Rightarrow> Command \<Rightarrow> Response \<Rightarrow> (session \<times> manager) client" where
  "demo_client env cmd resp =
     \<lparr>c_myid = ''guard'', c_myip = ''10.0.0.9'', c_daemon_path = ''/run/s'',
      c_sock = \<lparr>snd_sched = replicate 10 (Moved 1), rcv_sched = replicate 10 (Moved 4),
        reply = guard_reply (demo_lib cmd resp 2) env\<rparr>,
      c_lib = demo_lib cmd resp 2, c_rand = 1, c_loglevel = LOG_INFO\<rparr>"

lemma demo_dispatch_create:
  "cmd_type cmd = 0 \<Longrightarrow> statement cmd = Any_Principal p \<Longrightarrow>
    dispatch (demo_env 200) cmd m = (Inr (make_status_response True ''''), snd (dispatch (demo_env 200) cmd m))"
  by (simp add: demo_eval)

lemma demo_carries: "carries (demo_client env cmd resp) cmd resp"
  by (simp add: carries_def demo_client_def demo_lib_le32 demo_lib_round_trips)
    (simp add: demo_lib_def RECV_BUFSZ_def moves_def)

lemma demo_connected: "connected (demo_client env cmd resp) env (demo_session 42 1000 Reading_header)"
  by (simp add: connected_def demo_client_def demo_session_def)

text \<open>
  C7.  The client library refines the manager: over a working connection, posting a command
  returns exactly the response \<open>dispatch\<close> computes for that command with the pid, uid and gid
  of the calling process filled in by the daemon, leaves the manager in the state \<open>dispatch\<close>
  leaves it in, and leaves the connection ready for the next command.
\<close>

theorem post_refines_dispatch:
  assumes "reply (c_sock c) = guard_reply (c_lib c) env" "s_state s = Reading_header" "carries c cmd resp"
    and "dispatch env (cmd\<lparr>cmd_pid := s_pid s, cmd_uid := s_uid s, cmd_gid := s_gid s\<rparr>) m = (Inr resp, m')"
  shows "\<exists>s'. post c cmd (s, m) = (Inr resp, s', m') \<and> s_state s' = Reading_header
    \<and> s_pid s' = s_pid s \<and> s_uid s' = s_uid s \<and> s_gid s' = s_gid s"
  using post_connected [of c env s cmd resp m m'] assms by (auto simp: connected_def stamped_def)

theorem post_refines_dispatch_witness:
  "\<exists>s'. post (demo_client (demo_env 200) (prepare 1 REVOKE Any_Empty ''me'') not_implemented)
      (prepare 1 REVOKE Any_Empty ''me'') (demo_session 42 1000 Reading_header, init_manager) =
      (Inr not_implemented, s', init_manager) \<and> s_pid s' = 42"
proof -
  let ?cmd = "prepare 1 REVOKE Any_Empty ''me''" and ?s = "demo_session 42 1000 Reading_header"
  have "dispatch (demo_env 200) (?cmd\<lparr>cmd_pid := s_pid ?s, cmd_uid := s_uid ?s, cmd_gid := s_gid ?s\<rparr>) init_manager
      = (Inr not_implemented, init_manager)"
    by (simp add: dispatch_handled find_handler_eq prepare_def revoke_def)
  from post_refines_dispatch [OF _ _ demo_carries this] demo_connected [of "demo_env 200" ?cmd not_implemented]
  show ?thesis by (auto simp: connected_def demo_session_def)
qed

text \<open>
  C13.  The whole stack refines a map: let several processes make calls of the library in any
  order, each over its own connection, against a daemon that has served \<open>n\<close> commands.  If the
  connections work, every call returns the response the manager computes for the command with
  the caller's credentials and leaves nothing unread, and what the calls do to the registry is what the abstract map of
  ids to principals does under those commands and responses.
\<close>

theorem library_refines_registry:
  assumes "served env n m" "n + length calls < 2 ^ 64" "working env ss calls resps"
    and "answers env (stamped_calls ss calls) m = (map Inr resps, m')"
  shows "\<exists>ss'. library_calls calls (fresh ss, ss, m) = (map Inr resps, fresh ss, ss', m')
    \<and> registry_view m' = spec_run (zip (stamped_calls ss calls) (map Inr resps)) (registry_view m)"
proof -
  have "length (stamped_calls ss calls) = length calls" by (simp add: stamped_calls_def)
  with answers_refine_spec [of m "stamped_calls ss calls" env "map Inr resps" m'] served_inv [OF assms(1)] assms(2,4)
  have "registry_view m' = spec_run (zip (stamped_calls ss calls) (map Inr resps)) (registry_view m)" by simp
  with library_calls_answers [OF assms(3,4)] show ?thesis by blast
qed


text \<open>Two processes: the first registers an id, the second tries to delete it.\<close>

definition demo_sessions :: "session list" where
  "demo_sessions = [demo_session 42 1000 Reading_header, demo_session 66 1000 Reading_header]"

lemma demo_fresh: "fresh demo_sessions = [[], []]"
  by (simp add: demo_sessions_def)

definition denied :: Response where "denied = make_status_response False ''privilege not matching''"

abbreviation demo_call :: "nat \<Rightarrow> command_type \<Rightarrow> Response \<Rightarrow> nat \<times> (session \<times> manager) client \<times> Command" where
  "demo_call i t resp \<equiv>
     (let cmd = demo_cmd t 0 0 7 in (i, demo_client (demo_env 200) cmd resp, cmd))"

lemma demo_working:
  "working (demo_env 200) demo_sessions [demo_call 0 CREATE_PRINCIPAL (make_status_response True ''''),
     demo_call 1 DELETE_PRINCIPAL denied] [make_status_response True '''', denied]"
  by (simp add: working_def demo_sessions_def demo_session_def Let_def demo_carries)
    (simp add: demo_client_def)

lemma demo_answers:
  "\<exists>m'. answers (demo_env 200) (stamped_calls demo_sessions [demo_call 0 CREATE_PRINCIPAL (make_status_response True ''''),
       demo_call 1 DELETE_PRINCIPAL denied]) init_manager = (map Inr [make_status_response True '''', denied], m')"
  by (simp add: stamped_calls_def stamped_def demo_sessions_def demo_session_def session_create_def Let_def demo_eval
      add_principal_def registered_def init_manager_def find_latest_def default_Principal_def delete_principal_def denied_def)

theorem library_refines_registry_witness:
  "\<exists>ss' m'. library_calls [demo_call 0 CREATE_PRINCIPAL (make_status_response True ''''), demo_call 1 DELETE_PRINCIPAL denied]
      ([[], []], demo_sessions, init_manager) = ([Inr (make_status_response True ''''), Inr denied], [[], []], ss', m')
    \<and> registry_view m' = (1, [7 \<mapsto> default_Principal\<lparr>p_id := 7, p_speaker := 42\<rparr>])"
proof -
  obtain m' where m': "answers (demo_env 200) (stamped_calls demo_sessions [demo_call 0 CREATE_PRINCIPAL (make_status_response True ''''),
       demo_call 1 DELETE_PRINCIPAL denied]) init_manager = (map Inr [make_status_response True '''', denied], m')"
    using demo_answers by blast
  have spec: "spec_run (zip (stamped_calls demo_sessions [demo_call 0 CREATE_PRINCIPAL (make_status_response True ''''),
       demo_call 1 DELETE_PRINCIPAL denied]) (map Inr [make_status_response True '''', denied])) (registry_view init_manager)
     = (1, [7 \<mapsto> default_Principal\<lparr>p_id := 7, p_speaker := 42\<rparr>])"
    by (simp add: stamped_calls_def stamped_def demo_sessions_def demo_session_def session_create_def Let_def
        spec_run_def spec_step_def extract_principal_def demo_cmd_def may_delete_def registry_view_def init_manager_def
        find_latest_def default_Principal_def)
  from library_refines_registry [OF served.started _ demo_working m', unfolded spec] show ?thesis by (auto simp: demo_fresh)
qed



text \<open>
  C38.  A failed receive shifts every later answer: when \<open>recv\<close> is interrupted before the response
  is read (any error but \<open>EAGAIN\<close>, \<open>EINTR\<close> for one), the call reports a failure although the daemon
  carried the command out, the client keeps the socket with the response on it, and the next
  call returns that response as its own while the answer to its own command stays unread.
\<close>

theorem stale_response:
  assumes "reply (c_sock c) = guard_reply (c_lib c) env" "s_state s = Reading_header"
    and "carries c cmd1 resp1" "dispatch env (cmd1\<lparr>cmd_pid := s_pid s, cmd_uid := s_uid s, cmd_gid := s_gid s\<rparr>) m = (Inr resp1, m1)"
    and "carries c cmd2 resp2" "dispatch env (cmd2\<lparr>cmd_pid := s_pid s, cmd_uid := s_uid s, cmd_gid := s_gid s\<rparr>) m1 = (Inr resp2, m2)"
    and "errno \<noteq> EAGAIN" "errno \<noteq> 0"
    and "interrupted = c\<lparr>c_sock := (c_sock c)\<lparr>rcv_sched := Failed errno # rcv_sched (c_sock c)\<rparr>\<rparr>"
  shows "\<exists>s1 s2. post_on interrupted cmd1 ([], s, m) =
        (Inr (make_status_response False (''recv failure '' @ show_int errno)), frame (c_lib c) (ser_response (c_lib c) resp1), s1, m1)
    \<and> post_on c cmd2 (frame (c_lib c) (ser_response (c_lib c) resp1), s1, m1) =
        (Inr resp1, frame (c_lib c) (ser_response (c_lib c) resp2), s2, m2)"
proof -
  let ?lib = "c_lib c"
  let ?f1 = "frame ?lib (ser_response ?lib resp1)" and ?f2 = "frame ?lib (ser_response ?lib resp2)"
  have con: "connected c env s" using assms(1,2) by (simp add: connected_def)
  obtain s1 where s1: "proto_send_msg ?lib (ser_command ?lib) (snd_sched (c_sock c)) cmd1 = Some (0, frame ?lib (ser_command ?lib cmd1))"
    "reply (c_sock c) (frame ?lib (ser_command ?lib cmd1)) (s, m) = (?f1, s1, m1)"
    "s_state s1 = Reading_header" "s_pid s1 = s_pid s" "s_uid s1 = s_uid s" "s_gid s1 = s_gid s"
    using post_on_sent [OF con assms(3)] assms(4) by (auto simp: stamped_def)
  have "connected c env s1" using assms(1) s1(3) by (simp add: connected_def)
  from post_on_sent [OF this assms(5), of m1 m2] obtain s2 where
    s2: "proto_send_msg ?lib (ser_command ?lib) (snd_sched (c_sock c)) cmd2 = Some (0, frame ?lib (ser_command ?lib cmd2))"
    "reply (c_sock c) (frame ?lib (ser_command ?lib cmd2)) (s1, m1) = (?f2, s2, m2)"
    using assms(6) s1(4-6) by (auto simp: stamped_def)
  have "proto_recv_msg ?lib (parse_response ?lib) (Failed errno # rcv_sched (c_sock c)) ?f1 =
      Some (Inr (errno, None, rcv_sched (c_sock c), ?f1))"
    using assms(7,8) by (simp add: proto_recv_msg_eq COMM_HEADER_SZ_def)
  with s1 have first: "post_on interrupted cmd1 ([], s, m) =
      (Inr (make_status_response False (''recv failure '' @ show_int errno)), ?f1, s1, m1)"
    by (simp add: post_on_def assms(9) Let_def)
  obtain evs where "proto_recv_msg ?lib (parse_response ?lib) (rcv_sched (c_sock c)) (?f1 @ ?f2)
      = Some (Inr (0, Some resp1, evs, ?f2))"
    using proto_recv_complete [of ?lib "ser_response ?lib" "parse_response ?lib" resp1 "rcv_sched (c_sock c)" ?f2] assms(3)
    by (auto simp: carries_def)
  with s2 have "post_on c cmd2 (?f1, s1, m1) = (Inr resp1, ?f2, s2, m2)" by (simp add: post_on_def Let_def)
  with first show ?thesis by blast
qed

text \<open>A library with two commands and two responses.\<close>

definition demo_pair :: "Command \<Rightarrow> Command \<Rightarrow> Response \<Rightarrow> Response \<Rightarrow> proto_lib" where
  "demo_pair c1 c2 r1 r2 = (demo_lib c1 r1 1)
     \<lparr>ser_command := (\<lambda>c. [if c = c1 then 1 else 2]), parse_command := (\<lambda>bs. Some (if hd bs = 1 then c1 else c2)),
      ser_response := (\<lambda>r. [if r = r1 then 1 else 2]), parse_response := (\<lambda>bs. Some (if hd bs = 1 then r1 else r2))\<rparr>"

definition absent :: Response where "absent = make_status_response False ''latest principal not found''"

text \<open>
  The creation of one principal is interrupted by a signal (errno 4); the deletion of another that
  does not exist then reports success.
\<close>

theorem stale_response_witness:
  defines "create \<equiv> demo_cmd CREATE_PRINCIPAL 0 0 7" and "remove \<equiv> demo_cmd DELETE_PRINCIPAL 0 0 9"
    and "ok \<equiv> make_status_response True ''''" and "s \<equiv> demo_session 42 1000 Reading_header"
  shows "\<exists>c interrupted u s1 m1 u2 s2 m2. post_on interrupted create ([], s, init_manager) =
        (Inr (make_status_response False ''recv failure 4''), u, s1, m1)
    \<and> find_latest 7 (principals m1) \<noteq> None
    \<and> post_on c remove (u, s1, m1) = (Inr ok, u2, s2, m2)"
proof -
  let ?lib = "demo_pair create remove ok absent"
  let ?c = "(demo_client (demo_env 200) create ok)\<lparr>c_lib := ?lib,
    c_sock := \<lparr>snd_sched = replicate 10 (Moved 1), rcv_sched = replicate 10 (Moved 4), reply = guard_reply ?lib (demo_env 200)\<rparr>\<rparr>"
  let ?i = "?c\<lparr>c_sock := (c_sock ?c)\<lparr>rcv_sched := Failed 4 # rcv_sched (c_sock ?c)\<rparr>\<rparr>"
  let ?st = "\<lambda>cmd. cmd\<lparr>cmd_pid := s_pid s, cmd_uid := s_uid s, cmd_gid := s_gid s\<rparr>"
  let ?m1 = "snd (dispatch (demo_env 200) (?st create) init_manager)"
  have lib: "le32_ok ?lib"
    using demo_lib_le32 [of create ok 1] by (simp add: demo_pair_def le32_ok_def)
  have neq: "create \<noteq> remove" "ok \<noteq> absent"
    by (simp_all add: create_def remove_def demo_cmd_def ok_def absent_def make_status_response_def)
  have carry: "carries ?c create ok" "carries ?c remove absent"
    using lib neq by (simp_all add: carries_def round_trips_def demo_pair_def RECV_BUFSZ_def moves_def)
  have d1: "dispatch (demo_env 200) (?st create) init_manager = (Inr ok, ?m1)"
    unfolding ok_def by (rule demo_dispatch_create) (simp_all add: create_def demo_cmd_def)
  have m1: "principals ?m1 = [(7, default_Principal\<lparr>p_id := 7, p_speaker := 42\<rparr>)]"
    by (simp add: demo_eval create_def s_def demo_session_def add_principal_def registered_def init_manager_def
        default_Principal_def)
  have d2: "dispatch (demo_env 200) (?st remove) ?m1 = (Inr absent, snd (dispatch (demo_env 200) (?st remove) ?m1))"
    using m1 by (simp add: demo_eval remove_def delete_principal_def find_latest_def absent_def)
  have "\<exists>s1 s2. post_on ?i create ([], s, init_manager) =
        (Inr (make_status_response False (''recv failure '' @ show_int 4)), frame (c_lib ?c) (ser_response (c_lib ?c) ok), s1, ?m1)
    \<and> post_on ?c remove (frame (c_lib ?c) (ser_response (c_lib ?c) ok), s1, ?m1) =
        (Inr ok, frame (c_lib ?c) (ser_response (c_lib ?c) absent), s2, snd (dispatch (demo_env 200) (?st remove) ?m1))"
    by (rule stale_response [OF _ _ carry(1) d1 carry(2) d2 _ _ refl]) (simp_all add: s_def demo_session_def EAGAIN_def)
  moreover have "find_latest 7 (principals ?m1) \<noteq> None" using m1 by (simp add: find_latest_None equal_range_def)
  moreover have "''recv failure '' @ show_int 4 = ''recv failure 4''" by code_simp
  ultimately show ?thesis by metis
qed

text \<open>
  C39.  \<open>get_local_principal\<close> of the client never finds anything: it sends \<open>GET_PRINCIPAL\<close>, which the
  daemon does not implement, so it returns a null pointer over every working connection, also
  for a principal that the daemon has registered.
\<close>

theorem client_get_local_principal_null:
  assumes "reply (c_sock c) = guard_reply (c_lib c) env" "s_state s = Reading_header"
    and "carries c (prepare (c_rand c) GET_PRINCIPAL (Any_Principal (default_Principal\<lparr>p_id := uuid\<rparr>)) (c_myid c))
           not_implemented"
  shows "\<exists>s'. cl_get_local_principal c uuid (s, m) = (Inr None, s', m)"
proof -
  let ?cmd = "prepare (c_rand c) GET_PRINCIPAL (Any_Principal (default_Principal\<lparr>p_id := uuid\<rparr>)) (c_myid c)"
  have "dispatch env (stamped s ?cmd) m = (Inr not_implemented, m)"
    by (simp add: dispatch_handled find_handler_eq prepare_def stamped_def get_principal_def)
  then obtain s' where "post c ?cmd (s, m) = (Inr not_implemented, s', m)"
    using post_connected [of c env s ?cmd not_implemented m m] assms by (auto simp: connected_def)
  then show ?thesis
    by (simp add: cl_get_local_principal_def quick_get_principal_def post_extract_def response_principal_def
        not_implemented_def make_status_response_def)
qed

theorem client_get_local_principal_null_witness:
  "\<exists>c q s'. \<exists>m :: manager. find_latest 7 (principals m) = Some q
     \<and> cl_get_local_principal c 7 (demo_session 42 1000 Reading_header, m) = (Inr None, s', m)"
proof -
  let ?cmd = "prepare 1 GET_PRINCIPAL (Any_Principal (default_Principal\<lparr>p_id := 7\<rparr>)) ''guard''"
  let ?c = "demo_client (demo_env 200) ?cmd not_implemented"
  let ?m = "\<lparr>next_gn = 1, principals = [(7, default_Principal\<lparr>p_id := 7, p_speaker := 42\<rparr>)], posted = []\<rparr>"
  have q: "find_latest 7 (principals ?m) = Some (default_Principal\<lparr>p_id := 7, p_speaker := 42\<rparr>)"
    by (simp add: find_latest_def default_Principal_def)
  have "carries ?c (prepare (c_rand ?c) GET_PRINCIPAL (Any_Principal (default_Principal\<lparr>p_id := 7\<rparr>)) (c_myid ?c))
      not_implemented"
    using demo_carries [of "demo_env 200" ?cmd not_implemented] by (simp add: demo_client_def)
  then have "\<exists>s'. cl_get_local_principal ?c 7 (demo_session 42 1000 Reading_header, ?m) = (Inr None, s', ?m)"
    using demo_connected [of "demo_env 200" ?cmd not_implemented]
    by (intro client_get_local_principal_null) (simp_all add: connected_def)
  then obtain s' where s': "cl_get_local_principal ?c 7 (demo_session 42 1000 Reading_header, ?m) = (Inr None, s', ?m)" ..
  show ?thesis by (intro exI conjI, rule q, rule s')
qed

text \<open>The command that creating a principal through the legacy interface sends.\<close>

definition creation_command :: "'g client \<Rightarrow> u64 \<Rightarrow> string \<Rightarrow> string \<Rightarrow> string \<Rightarrow> u32 \<Rightarrow> u32 \<Rightarrow> Command" where
  "creation_command c uuid img config ip lo hi =
     prepare (c_rand c) CREATE_PRINCIPAL (Any_Principal (default_Principal
       \<lparr>p_id := uuid,
        p_auth := default_AuthID\<lparr>auth_ip := ip, port_lo := lo, port_hi := hi\<rparr>,
        p_code := default_CodeID\<lparr>code_image := img, code_config := [(LEGACY_CONFIG_KEY, config)]\<rparr>\<rparr>)) (c_myid c)"

lemma cl_create_principal_post:
  assumes "ip \<noteq> ''''"
  shows "cl_create_principal c uuid img config ip lo hi g =
    (case post c (creation_command c uuid img config ip lo hi) g of
       (Inl f, g') \<Rightarrow> (Inl f, g') | (Inr resp, g') \<Rightarrow> (Inr (status_int resp), g'))"
proof -
  have "CHR ''='' \<notin> set LEGACY_CONFIG_KEY" by (simp add: LEGACY_CONFIG_KEY_def)
  then have "parse_configs [LEGACY_CONFIG_KEY @ ''='' @ config] [] = Inr [(LEGACY_CONFIG_KEY, config)]"
    by (simp add: split_config_join)
  with assms show ?thesis
    by (simp add: cl_create_principal_def cl_create_instance_def creation_command_def quick_post_def Let_def
        default_CodeID_def split: prod.split sum.split)
qed


definition demo_creation :: Command where
  "demo_creation = prepare 1 CREATE_PRINCIPAL (Any_Principal (default_Principal
     \<lparr>p_id := 7,
      p_auth := default_AuthID\<lparr>auth_ip := ''10.0.0.9'', port_lo := 32768, port_hi := 32778\<rparr>,
      p_code := default_CodeID\<lparr>code_image := ''img'', code_config := [(LEGACY_CONFIG_KEY, ''*'')]\<rparr>\<rparr>)) ''guard''"

definition demo_latte :: "(session \<times> manager, int \<Rightarrow> int \<times> int) latte" where
  "demo_latte =
     \<lparr>latte_client = Some (demo_client (demo_env 200) demo_creation (make_status_response True '''')),
      syscall_gate = Some range_kernel, port_usage = Map.empty, auth_speaker = ''guard'', auth_ip_of = ''10.0.0.9'',
      daemon = (demo_session 42 1000 Reading_header, init_manager), kern = (\<lambda>_. (32768, 60999))\<rparr>"


text \<open>
  With the defaults the two ends do not meet: a daemon whose configuration file names no
  socket listens on \<open>/var/run/latte/guard.sock\<close>, and a client that is initialised without a path
  dials \<open>/var/run/attguard.sock\<close>.
\<close>

theorem default_paths_differ:
  assumes "load_config conf s = (Inr (), s')" "conf ''daemon_socket'' = None"
    and "liblatte_init ops sys ifs dial lib rand level ident iaas None st = (Inr 0, st')"
    and "latte_client st' = Some c"
  shows "c_daemon_path c \<noteq> local_ep (config_cache s') \<and> dial (c_daemon_path c) = Some (c_sock c)"
proof -
  have "local_ep (config_cache s') = DAEMON_SOCKET_DEFAULT_PATH"
    using assms(1,2) by (auto simp: load_config_def Let_def split: option.splits)
  moreover have "c_daemon_path c = DEFAULT_DAEMON_PATH \<and> dial (c_daemon_path c) = Some (c_sock c)"
    using assms(3,4) by (auto simp: liblatte_init_def client_new_def redial_def Let_def split: sum.splits if_splits option.splits)
  ultimately show ?thesis by (auto simp: DEFAULT_DAEMON_PATH_def DAEMON_SOCKET_DEFAULT_PATH_def)
qed

theorem default_paths_differ_witness:
  "\<exists>conf s s' st' c. load_config conf s = (Inr (), s')
    \<and> liblatte_init range_kernel (32768, 60999) demo_ifs (\<lambda>_. Some demo_channel)
        (demo_lib (prepare 0 REVOKE Any_Empty '''') not_implemented 0) 1 LOG_INFO None False None blank_latte = (Inr 0, st')
    \<and> latte_client st' = Some c \<and> c_daemon_path c \<noteq> local_ep (config_cache s')"
proof -
  let ?conf = "map_of [(''log'', ''debug''), (''speaker_id'', ''a''), (''speaker_ip'', ''b''),
      (''run_as_iaas'', ''0''), (''metadata_ip'', ''c'')]"
  let ?s = "\<lparr>config_cache = env_conf (demo_env 200), current_level = 5\<rparr>"
  obtain s' where s': "load_config ?conf ?s = (Inr (), s')" by (simp add: load_config_def Let_def)
  obtain st' c where st': "liblatte_init range_kernel (32768, 60999) demo_ifs (\<lambda>_. Some demo_channel)
        (demo_lib (prepare 0 REVOKE Any_Empty '''') not_implemented 0) 1 LOG_INFO None False None blank_latte = (Inr 0, st')"
    "latte_client st' = Some c"
    by (simp add: liblatte_init_def client_new_def demo_ifs_def get_myip_def AF_INET_def redial_def Let_def)
  have "c_daemon_path c \<noteq> local_ep (config_cache s')"
    using default_paths_differ [OF s' _ st'] by simp
  with s' st' show ?thesis by blast
qed

end
