(* ===== verification/Store.thy ===== *)
theory Store
  imports Log
begin

text \<open>
  \<open>FileStore\<close> of store/store.cc: messages are kept as files named by the digest of their
  serialised form.  The hash function, the serialiser and the hexadecimal encoder are
  parameters; the state is the descriptor \<open>dirfd_\<close> and the files of the directory
  \<open>SYNC_DIR\<close>.  A relative path is found through \<open>dirfd_\<close> only when that is a descriptor of
  the directory, which the parameter \<open>is_dir\<close> says.
\<close>

section \<open>State and operations\<close>

record file_store =
  dirfd :: int
  dir_files :: "string \<rightharpoonup> bytes"

record 'm store_lib =
  serialize_as_string :: "'m \<Rightarrow> bytes"
  digest :: "bytes \<Rightarrow> bytes"
  digest_size :: nat
  hex_encode :: "bytes \<Rightarrow> string"

definition MAX_DIGEST_SZ :: nat where "MAX_DIGEST_SZ = 2048"

text \<open>The constructor does not call \<open>init\<close>: \<open>dirfd_\<close> keeps the value the memory had.\<close>

definition store_new :: "'m store_lib \<Rightarrow> int \<Rightarrow> (string \<rightharpoonup> bytes) \<Rightarrow> fault + file_store" where
  "store_new lib junk fs =
     (if digest_size lib > MAX_DIGEST_SZ
      then Inl (Runtime_error ''hash digest size larger than expected'')
      else Inr \<lparr>dirfd = junk, dir_files = fs\<rparr>)"

text \<open>The destructor: the descriptor it closes.\<close>

definition store_drop :: "file_store \<Rightarrow> int option" where
  "store_drop st = (if dirfd st > 0 then Some (dirfd st) else None)"

definition store_init :: "int \<Rightarrow> file_store \<Rightarrow> (fault + unit) \<times> file_store" where
  "store_init opened st =
     (let st' = st\<lparr>dirfd := opened\<rparr> in
      if opened < 0 then (Inl (Runtime_error ''can not open sync directory ''), st') else (Inr (), st'))"

text \<open>
  \<open>openat\<close> with \<open>O_CREAT | O_TRUNC | O_WRONLY\<close> creates the file, and \<open>fdopen(fd, "r")\<close> then asks
  for reading on a descriptor that is open for writing only, which fails with a null result:
  a stream can be opened when its mode is the one of the descriptor.  Without a directory
  \<open>openat\<close> returns no descriptor, and \<open>fdopen\<close> fails as well.
\<close>

datatype open_mode = Read_only | Write_only

definition fdopen :: "open_mode option \<Rightarrow> open_mode \<Rightarrow> bool" where
  "fdopen fd stream_mode \<longleftrightarrow> fd = Some stream_mode"

definition sync_file :: "(int \<Rightarrow> bool) \<Rightarrow> string \<Rightarrow> bytes \<Rightarrow> file_store \<Rightarrow> (fault + bool) \<times> file_store" where
  "sync_file is_dir fname data st =
     (if is_dir (dirfd st) \<and> dir_files st fname \<noteq> None then (Inr False, st)
      else let st1 = (if is_dir (dirfd st) then st\<lparr>dir_files := (dir_files st)(fname \<mapsto> [])\<rparr> else st);
               fd = (if is_dir (dirfd st) then Some Write_only else None)
        in if \<not> fdopen fd Read_only then (Inl Null_deref, st1)
           else (Inr True, st1\<lparr>dir_files := (dir_files st1)(fname \<mapsto> data)\<rparr>))"

definition digest_name :: "'m store_lib \<Rightarrow> bytes \<Rightarrow> string" where
  "digest_name lib s = hex_encode lib (take (digest_size lib) (digest lib s))"

definition store_add :: "'m store_lib \<Rightarrow> (int \<Rightarrow> bool) \<Rightarrow> 'm \<Rightarrow> file_store \<Rightarrow> (fault + bool) \<times> file_store" where
  "store_add lib is_dir msg st =
     (let s = serialize_as_string lib msg in sync_file is_dir (digest_name lib s) s st)"

definition store_remove :: "'m store_lib \<Rightarrow> (int \<Rightarrow> bool) \<Rightarrow> 'm \<Rightarrow> file_store \<Rightarrow> (fault + bool) \<times> file_store" where
  "store_remove lib is_dir msg st =
     (let fname = digest_name lib (serialize_as_string lib msg)
      in (Inr True, if is_dir (dirfd st) then st\<lparr>dir_files := (dir_files st)(fname := None)\<rparr> else st))"

section \<open>Properties\<close>

text \<open>What \<open>init\<close> throws is what \<open>log_err_throw\<close> throws, wherever the log goes.\<close>

lemma store_init_throws:
  "fst (store_init opened st) =
     (if opened < 0 then Inl (fst (log_err_throw fs ''can not open sync directory '' l)) else Inr ())"
  by (simp add: store_init_def log_err_throw_def vsnprintf_def LOG_BUF_SIZE_def Let_def)

text \<open>
  The store never stores anything: adding a message writes through a null stream, whatever
  \<open>dirfd_\<close> is, unless a file of its name exists and the call is refused.  With the directory open
  it leaves an empty file under the digest, so that adding the message again is refused, and
  removing it clears the name.
\<close>

theorem store_never_stores:
  "(if is_dir (dirfd st) \<and> dir_files st (digest_name lib (serialize_as_string lib msg)) \<noteq> None
    then store_add lib is_dir msg st = (Inr False, st)
    else fst (store_add lib is_dir msg st) = Inl Null_deref)
   \<and> (is_dir (dirfd st) \<longrightarrow>
        dir_files (snd (store_remove lib is_dir msg (snd (store_add lib is_dir msg st))))
          = (dir_files st)(digest_name lib (serialize_as_string lib msg) := None)
        \<and> fst (store_add lib is_dir msg (snd (store_add lib is_dir msg st))) = Inr False)
   \<and> (\<not> is_dir (dirfd st) \<longrightarrow> snd (store_add lib is_dir msg st) = st \<and> store_remove lib is_dir msg st = (Inr True, st))"
  by (simp add: store_add_def store_remove_def sync_file_def fdopen_def Let_def)

definition demo_store_lib :: "bytes store_lib" where
  "demo_store_lib = \<lparr>serialize_as_string = (\<lambda>m. m), digest = (\<lambda>b. b), digest_size = 32,
     hex_encode = (\<lambda>b. map (\<lambda>x. char_of (unat x)) b)\<rparr>"

theorem store_never_stores_witness:
  "fst (store_add demo_store_lib (\<lambda>fd. fd = 3) [1, 2] \<lparr>dirfd = 3, dir_files = Map.empty\<rparr>) = Inl Null_deref"
  using store_never_stores [of "\<lambda>fd. fd = 3" "\<lparr>dirfd = 3, dir_files = Map.empty\<rparr>" demo_store_lib "[1, 2]"] by simp

text \<open>
  Since the constructor leaves \<open>dirfd_\<close> as it finds it, the destructor of a store that was never
  initialised closes whatever positive descriptor number the memory held.
\<close>

lemma store_closes_junk:
  "store_new lib junk fs = Inr st \<Longrightarrow> store_drop st = (if junk > 0 then Some junk else None)"
  by (auto simp: store_new_def store_drop_def split: if_splits)

end
