(* ===== verification/Concurrency.thy ===== *)
theory Concurrency
  imports Registry
begin

text \<open>
  The handlers of server/manager.cc as they run on the thread pool: \<open>create_principal\<close> and
  \<open>delete_principal\<close> cut at the points where another thread can come between, any number of
  commands in progress over one manager.  \<open>gn_++\<close> is a load and a store; the lock \<open>plock_\<close>
  covers the insertion and the search and erasure of a deletion, which are one step each; a
  request to the metadata service and its answer are one step.
\<close>

section \<open>A command in progress\<close>

datatype task =
    Received Command
  | Loaded Command Principal u64
  | Numbered Command Principal
  | Posted Command Principal
  | Confirmed Command Principal
  | Erased Command Principal
  | Answered "fault + Response"

text \<open>One step of the thread that works on a command.\<close>

definition begin_create :: "Command \<Rightarrow> manager \<Rightarrow> task \<times> manager" where
  "begin_create cmd m =
     (case extract_principal cmd of
        None \<Rightarrow> (Answered (Inr (make_status_response False ''principal not found or mal-formed'')), m)
      | Some p \<Rightarrow> (Loaded cmd p (next_gn m), m))"

definition begin_delete :: "Command \<Rightarrow> manager \<Rightarrow> task \<times> manager" where
  "begin_delete cmd m =
     (case extract_principal cmd of
        None \<Rightarrow> (Answered (Inr (make_status_response False ''principal not found or mal-formed'')), m)
      | Some p \<Rightarrow>
          (case find_latest (p_id p) (principals m) of
             Some latest \<Rightarrow>
               if p_speaker latest \<noteq> cmd_pid cmd \<and> cmd_uid cmd \<noteq> 0
               then (Answered (Inr (make_status_response False ''privilege not matching'')), m)
               else (Erased cmd latest, m\<lparr>principals := erase_range (p_id p) (principals m)\<rparr>)
           | None \<Rightarrow>
               (Answered (Inr (make_status_response False ''latest principal not found'')),
                m\<lparr>principals := erase_range (p_id p) (principals m)\<rparr>)))"

text \<open>The two requests of \<open>create_instance\<close>: the instance, and the configuration once it has a key.\<close>

definition post_instance :: "'j guard_env \<Rightarrow> Command \<Rightarrow> Principal \<Rightarrow> string posted" where
  "post_instance env cmd p sent =
     (case post_statement (env_web env) ''/postInstance'' (cmd_auth cmd)
             [principal_name p, code_image (p_code p),
              format_id (auth_ip (p_auth p)) (int_of_u32 (port_lo (p_auth p))) (int_of_u32 (port_hi (p_auth p))),
              if length (image_store (p_code p)) = 0 then cmd_auth cmd else image_store (p_code p)] '''' sent of
        (t, sent1) \<Rightarrow>
          (case json_task (env_web env) ''creating instance new'' t of
             Inl f \<Rightarrow> Inl f
           | Inr j \<Rightarrow> extract_safe_identity (env_web env) j, sent1))"

definition post_configs :: "'j guard_env \<Rightarrow> Command \<Rightarrow> Principal \<Rightarrow> unit posted" where
  "post_configs env cmd p =
     sink_wait ''posting configs''
       (post_statement (env_web env) ''/postInstanceConfig'' (cmd_auth cmd)
          (config_statements (principal_name p) (env_order env (code_config (p_code p)))) '''')"

fun task_step :: "'j guard_env \<Rightarrow> task \<Rightarrow> manager \<Rightarrow> task \<times> manager" where
  "task_step env (Received cmd) m =
     (if cmd_type cmd = type_value CREATE_PRINCIPAL then begin_create cmd m
      else if cmd_type cmd = type_value DELETE_PRINCIPAL then begin_delete cmd m
      else (case dispatch env cmd m of (r, m') \<Rightarrow> (Answered r, m')))"
| "task_step env (Loaded cmd p g) m = (Numbered cmd (p\<lparr>p_gn := g\<rparr>), m\<lparr>next_gn := g + 1\<rparr>)"
| "task_step env (Numbered cmd p) m =
     (case post_instance env cmd p (posted m) of
        (Inl f, sent) \<Rightarrow> (Answered (catch_fault f), m\<lparr>posted := sent\<rparr>)
      | (Inr _, sent) \<Rightarrow> (Posted cmd p, m\<lparr>posted := sent\<rparr>))"
| "task_step env (Posted cmd p) m =
     (case post_configs env cmd p (posted m) of
        (Inl f, sent) \<Rightarrow> (Answered (catch_fault f), m\<lparr>posted := sent\<rparr>)
      | (Inr _, sent) \<Rightarrow> (Confirmed cmd p, m\<lparr>posted := sent\<rparr>))"
| "task_step env (Confirmed cmd p) m =
     (Answered (Inr (make_status_response True '''')),
      m\<lparr>principals := add_principal (p_id p) (p\<lparr>p_speaker := cmd_pid cmd\<rparr>) (principals m)\<rparr>)"
| "task_step env (Erased cmd latest) m =
     (case call_metadata (md_delete_instance (env_web env) (cmd_auth cmd) (principal_name latest))
             (\<lambda>_. make_status_response True '''') m of
        (Inl f, m') \<Rightarrow> (Answered (catch_fault f), m')
      | (Inr r, m') \<Rightarrow> (Answered (Inr r), m'))"
| "task_step env (Answered r) m = (Answered r, m)"

text \<open>
  A state of the daemon that \<open>n\<close> steps can reach while every state on the way meets \<open>ok\<close>:
  a command arrives, or one of the commands in progress makes a step.
\<close>

inductive interleaved :: "'j guard_env \<Rightarrow> (task list \<Rightarrow> bool) \<Rightarrow> nat \<Rightarrow> task list \<Rightarrow> manager \<Rightarrow> bool"
  for env ok where
  boot: "interleaved env ok 0 [] init_manager"
| arrive: "interleaved env ok n ts m \<Longrightarrow> interleaved env ok (Suc n) (ts @ [Received cmd]) m"
| advance: "interleaved env ok n (xs @ t # ys) m \<Longrightarrow> task_step env t m = (t', m')
    \<Longrightarrow> ok (xs @ t' # ys) \<Longrightarrow> interleaved env ok (Suc n) (xs @ t' # ys) m'"

text \<open>At most one thread is between the load and the store of \<open>gn_++\<close>.\<close>

fun is_loaded :: "task \<Rightarrow> bool" where
  "is_loaded (Loaded _ _ _) = True"
| "is_loaded _ = False"

definition one_in_gn :: "task list \<Rightarrow> bool" where
  "one_in_gn ts \<longleftrightarrow> length (filter is_loaded ts) \<le> 1"

section \<open>The invariant\<close>

text \<open>Generations that are taken and not yet registered.\<close>

fun pending_gn :: "task \<Rightarrow> u64 list" where
  "pending_gn (Numbered _ p) = [p_gn p]"
| "pending_gn (Posted _ p) = [p_gn p]"
| "pending_gn (Confirmed _ p) = [p_gn p]"
| "pending_gn _ = []"

fun loaded_gn :: "task \<Rightarrow> u64 list" where
  "loaded_gn (Loaded _ _ g) = [g]"
| "loaded_gn _ = []"

definition issued :: "task list \<Rightarrow> principal_map \<Rightarrow> u64 list" where
  "issued ts ps = concat (map pending_gn ts) @ map (\<lambda>e. p_gn (snd e)) ps"

definition conc_inv :: "task list \<Rightarrow> manager \<Rightarrow> bool" where
  "conc_inv ts m \<longleftrightarrow>
     distinct (issued ts (principals m))
     \<and> (\<forall>g \<in> set (issued ts (principals m)). g < next_gn m)
     \<and> (\<forall>t \<in> set ts. \<forall>g \<in> set (loaded_gn t). g = next_gn m)
     \<and> (\<forall>e \<in> set (principals m). fst e = p_id (snd e))"

lemma issued_simps [simp]:
  "set (issued (xs @ t # ys) ps) = set (pending_gn t) \<union> set (issued (xs @ ys) ps)"
  "distinct (issued (xs @ t # ys) ps) \<longleftrightarrow>
     distinct (pending_gn t) \<and> distinct (issued (xs @ ys) ps)
     \<and> set (pending_gn t) \<inter> set (issued (xs @ ys) ps) = {}"
  "set (issued ts (add_principal i p ps)) = insert (p_gn p) (set (issued ts ps))"
  "distinct (issued ts (add_principal i p ps)) \<longleftrightarrow>
     p_gn p \<notin> set (issued ts ps) \<and> distinct (issued ts ps)"
  by (auto simp: issued_def add_principal_def)

lemma issued_arrive [simp]: "issued (ts @ [Received cmd]) ps = issued ts ps"
  by (simp add: issued_def)

lemma issued_erase:
  "set (issued ts (erase_range i ps)) \<subseteq> set (issued ts ps)"
  "distinct (issued ts ps) \<Longrightarrow> distinct (issued ts (erase_range i ps))"
  by (auto simp: issued_def erase_range_def distinct_map_filter)

text \<open>
  Every step but the store keeps the counter, takes no generation, and leaves the others'
  loads valid.
\<close>

lemma conc_inv_quiet:
  assumes "conc_inv (xs @ t # ys) m" "next_gn m' = next_gn m"
    and "set (pending_gn t') \<subseteq> set (pending_gn t)" "distinct (pending_gn t')"
    and "principals m' = principals m" "\<forall>g \<in> set (loaded_gn t'). g = next_gn m"
  shows "conc_inv (xs @ t' # ys) m'"
  using assms by (auto simp: conc_inv_def)

lemma conc_inv_erase:
  assumes "conc_inv ts m"
  shows "conc_inv ts (m\<lparr>principals := erase_range i (principals m)\<rparr>)"
  using assms issued_erase [where ts = ts and i = i and ps = "principals m"]
  by (auto simp: conc_inv_def erase_range_def)

lemma loaded_alone:
  assumes "one_in_gn (xs @ t # ys)" "is_loaded t" "s \<in> set (xs @ ys)"
  shows "loaded_gn s = []"
proof -
  have "\<not> is_loaded s" using assms by (auto simp: one_in_gn_def filter_empty_conv)
  then show ?thesis by (cases s) simp_all
qed

lemma conc_inv_store:
  assumes "conc_inv (xs @ Loaded cmd p g # ys) m" "one_in_gn (xs @ Loaded cmd p g # ys)" "next_gn m \<noteq> - 1"
  shows "conc_inv (xs @ Numbered cmd (p\<lparr>p_gn := g\<rparr>) # ys) (m\<lparr>next_gn := g + 1\<rparr>)"
proof -
  have g: "g = next_gn m" using assms(1) by (simp add: conc_inv_def)
  have "\<forall>s \<in> set (xs @ ys). loaded_gn s = []" using loaded_alone [OF assms(2)] by simp
  with assms(1) g next_gn_less [OF assms(3)] show ?thesis by (fastforce simp: conc_inv_def)
qed

lemma conc_inv_register:
  assumes "conc_inv (xs @ Confirmed cmd p # ys) m"
  shows "conc_inv (xs @ Answered r # ys)
    (m\<lparr>principals := add_principal (p_id p) (p\<lparr>p_speaker := cmd_pid cmd\<rparr>) (principals m)\<rparr>)"
  using assms by (auto simp: conc_inv_def add_principal_def [of _ _ "principals m"]) (auto simp: issued_def)


lemma conc_inv_begin_delete:
  assumes "conc_inv (xs @ Received cmd # ys) m" "begin_delete cmd m = (t', m')"
  shows "conc_inv (xs @ t' # ys) m' \<and> next_gn m' = next_gn m"
proof -
  have same: "conc_inv (xs @ s # ys) m" if "pending_gn s = []" "loaded_gn s = []" for s
    using conc_inv_quiet [OF assms(1), of m s] that by simp
  have erased: "conc_inv (xs @ s # ys) (m\<lparr>principals := erase_range i (principals m)\<rparr>)"
    if "pending_gn s = []" "loaded_gn s = []" for s i
    using conc_inv_erase [OF same [OF that]] .
  show ?thesis
    using assms(2) same [of t'] erased [of t']
    by (auto simp: begin_delete_def split: option.splits if_splits)
qed

lemma conc_inv_begin_create:
  assumes "conc_inv (xs @ Received cmd # ys) m" "begin_create cmd m = (t', m')"
  shows "conc_inv (xs @ t' # ys) m' \<and> next_gn m' = next_gn m"
  using assms(2) conc_inv_quiet [OF assms(1), of m]
  by (auto simp: begin_create_def split: option.splits)

lemma conc_inv_step:
  assumes "conc_inv (xs @ t # ys) m" "one_in_gn (xs @ t # ys)" "next_gn m \<noteq> - 1"
    and "task_step env t m = (t', m')"
  shows "conc_inv (xs @ t' # ys) m' \<and> (next_gn m' = next_gn m \<or> next_gn m' = next_gn m + 1)"
proof (cases t)
  case (Received cmd)
  show ?thesis
  proof (cases rule: dispatch_kinds [where cmd = cmd and m = m and env = env])
    case 3
    then show ?thesis
      using assms(1,4) Received conc_inv_quiet [OF assms(1), of m' t']
      by (auto simp: same_registry_def split: prod.splits)
  next
    case 1
    then show ?thesis using assms(1,4) Received conc_inv_begin_create [of xs cmd ys m t' m'] by simp
  next
    case 2
    then show ?thesis using assms(1,4) Received conc_inv_begin_delete [of xs cmd ys m t' m'] by simp
  qed
next
  case (Loaded cmd p g)
  moreover from this have "g = next_gn m" using assms(1) by (simp add: conc_inv_def)
  ultimately show ?thesis using assms conc_inv_store [of xs cmd p g ys m] by auto
next
  case (Numbered cmd p)
  then show ?thesis
    using assms(4) conc_inv_quiet [OF assms(1), of m' t'] by (auto split: prod.splits sum.splits)
next
  case (Posted cmd p)
  then show ?thesis
    using assms(4) conc_inv_quiet [OF assms(1), of m' t'] by (auto split: prod.splits sum.splits)
next
  case (Confirmed cmd p)
  then show ?thesis using assms(1,4) conc_inv_register by auto
next
  case (Erased cmd p)
  then show ?thesis
    using assms(4) conc_inv_quiet [OF assms(1), of m' t']
    by (auto simp: call_metadata_eq split: prod.splits sum.splits)
qed (use assms in auto)

lemma interleaved_inv:
  "interleaved env one_in_gn n ts m \<Longrightarrow> n < 2 ^ 64
    \<Longrightarrow> conc_inv ts m \<and> one_in_gn ts \<and> unat (next_gn m) \<le> n"
proof (induction rule: interleaved.induct)
  case boot show ?case by (simp add: conc_inv_def issued_def one_in_gn_def init_manager_def)
next
  case (arrive n ts m cmd)
  then show ?case by (auto simp: conc_inv_def one_in_gn_def)
next
  case (advance n xs t ys m t' m')
  then have IH: "conc_inv (xs @ t # ys) m" "one_in_gn (xs @ t # ys)" "unat (next_gn m) \<le> n" by simp_all
  have small: "next_gn m \<noteq> - 1" using counter_small [OF IH(3)] advance.prems by simp
  show ?case
    using conc_inv_step [OF IH(1,2) small advance.hyps(2)] next_gn_less(3) [OF small] IH(3) advance.hyps(3)
    by auto
qed


section \<open>A thread that is not interrupted\<close>

definition run_task :: "'j guard_env \<Rightarrow> nat \<Rightarrow> Command \<Rightarrow> manager \<Rightarrow> task \<times> manager" where
  "run_task env k cmd m = ((\<lambda>(t, m). task_step env t m) ^^ k) (Received cmd, m)"

lemma run_task_5:
  "run_task env 5 cmd m =
     (let (t1, m1) = task_step env (Received cmd) m; (t2, m2) = task_step env t1 m1;
          (t3, m3) = task_step env t2 m2; (t4, m4) = task_step env t3 m3 in task_step env t4 m4)"
  by (simp add: run_task_def numeral_eq_Suc split_beta)

lemma creation_posts:
  "creation env cmd m p sent =
     (case post_instance env cmd (p\<lparr>p_gn := next_gn m\<rparr>) sent of
        (Inl f, sent1) \<Rightarrow> (Inl f, sent1)
      | (Inr _, sent1) \<Rightarrow>
          (case post_configs env cmd (p\<lparr>p_gn := next_gn m\<rparr>) sent1 of
             (Inl f, sent2) \<Rightarrow> (Inl f, sent2) | (Inr _, sent2) \<Rightarrow> (Inr True, sent2)))"
  by (simp add: creation_def registered_def principal_name_def md_create_instance_def post_instance_def
      post_configs_def split: prod.split sum.split)

lemma begin_create_runs:
  assumes "cmd_type cmd = type_value CREATE_PRINCIPAL"
  shows "run_task env 5 cmd m =
    (Answered (case fst (create_principal env cmd m) of Inl f \<Rightarrow> catch_fault f | Inr r \<Rightarrow> Inr r),
     snd (create_principal env cmd m))"
proof (cases "extract_principal cmd")
  case None
  with assms show ?thesis by (simp add: run_task_5 begin_create_def create_principal_def)
next
  case (Some p)
  with assms show ?thesis
    by (simp add: run_task_5 begin_create_def create_principal_eq creation_posts registered_def
        split: prod.split sum.split)
qed

lemma begin_delete_runs:
  assumes "cmd_type cmd = type_value DELETE_PRINCIPAL"
  shows "run_task env 5 cmd m =
    (Answered (case fst (delete_principal env cmd m) of Inl f \<Rightarrow> catch_fault f | Inr r \<Rightarrow> Inr r),
     snd (delete_principal env cmd m))"
  using assms
  by (simp add: run_task_5 begin_delete_def delete_principal_def call_metadata_eq
      split: option.split sum.split)

section \<open>Properties\<close>


text \<open>
  C23.  However the threads interleave, for fewer than 2^64 steps in which no two of them are
  inside \<open>gn()\<close> at once: every principal is registered under its own id with a generation
  below the counter, and no two registered principals share a generation or a name, nor does
  one that is registered share its generation with one that is still being created.
\<close>

theorem serialised_counter_unique:
  assumes "interleaved env one_in_gn n ts m" "n < 2 ^ 64"
  shows "(\<forall>e \<in> set (principals m). fst e = p_id (snd e) \<and> p_gn (snd e) < next_gn m)
    \<and> distinct (map (\<lambda>e. principal_name (snd e)) (principals m))
    \<and> distinct (concat (map pending_gn ts) @ map (\<lambda>e. p_gn (snd e)) (principals m))"
proof -
  have inv: "conc_inv ts m" using interleaved_inv [OF assms] by simp
  then have "distinct (map (\<lambda>e. p_gn (snd e)) (principals m))"
    by (simp add: conc_inv_def issued_def)
  then have "distinct (map (\<lambda>e. principal_name (snd e)) (principals m))"
    using inv by (auto simp: conc_inv_def distinct_map inj_on_def principal_name_inj)
  with inv show ?thesis by (auto simp: conc_inv_def issued_def)
qed

text \<open>A schedule names the thread that makes the next step; it fails where \<open>ok\<close> does.\<close>

fun schedule ::
  "'j guard_env \<Rightarrow> (task list \<Rightarrow> bool) \<Rightarrow> nat list \<Rightarrow> task list \<Rightarrow> manager \<Rightarrow> (task list \<times> manager) option" where
  "schedule env ok [] ts m = Some (ts, m)"
| "schedule env ok (i # is) ts m =
     (case task_step env (ts ! i) m of (t', m') \<Rightarrow>
        if i < length ts \<and> ok (ts[i := t']) then schedule env ok is (ts[i := t']) m' else None)"

lemma schedule_interleaved:
  "interleaved env ok n ts m \<Longrightarrow> schedule env ok is ts m = Some (ts', m')
    \<Longrightarrow> interleaved env ok (n + length is) ts' m'"
proof (induction env ok "is" ts m arbitrary: n rule: schedule.induct)
  case (2 env ok i "is" ts m)
  obtain t1 m1 where t: "task_step env (ts ! i) m = (t1, m1)" by fastforce
  with "2.prems"(2) have i: "i < length ts" "ok (ts[i := t1])" "schedule env ok is (ts[i := t1]) m1 = Some (ts', m')"
    by (auto split: if_splits)
  have "interleaved env ok (Suc n) (ts[i := t1]) m1"
    using interleaved.advance [of env ok n "take i ts" "ts ! i" "drop (Suc i) ts" m t1 m1] "2.prems"(1) t i
    by (simp add: upd_conv_take_nth_drop id_take_nth_drop [symmetric])
  from "2.IH" [OF t [symmetric] _ this i(3)] i show ?case by simp
qed simp

text \<open>Two processes create a principal with the same id.\<close>

abbreviation racers :: "task list" where
  "racers \<equiv> [Received (demo_cmd CREATE_PRINCIPAL 42 1000 7), Received (demo_cmd CREATE_PRINCIPAL 43 1000 7)]"

lemma racers_arrive: "interleaved env ok 2 racers init_manager"
  using interleaved.arrive [OF interleaved.arrive [OF interleaved.boot]] by (simp add: numeral_2_eq_2)

lemma race_eval:
  "map_option (\<lambda>(ts, m). principals m) (schedule (demo_env 200) one_in_gn [0, 0, 1, 1, 0, 1, 0, 1, 0, 1] racers init_manager)
     = Some [(7, default_Principal\<lparr>p_id := 7, p_gn := 0, p_speaker := 42\<rparr>),
             (7, default_Principal\<lparr>p_id := 7, p_gn := 1, p_speaker := 43\<rparr>)]"
  "map_option (\<lambda>(ts, m). principals m) (schedule (demo_env 200) (\<lambda>_. True) [0, 1, 0, 1, 0, 1, 0, 1, 0, 1] racers init_manager)
     = Some [(7, default_Principal\<lparr>p_id := 7, p_gn := 0, p_speaker := 42\<rparr>),
             (7, default_Principal\<lparr>p_id := 7, p_gn := 0, p_speaker := 43\<rparr>)]"
  by (simp_all add: begin_create_def one_in_gn_def post_instance_def post_configs_def demo_eval default_Principal_def init_manager_def
      add_principal_def)


lemma race_run:
  assumes "map_option (\<lambda>(ts, m). principals m) (schedule env ok is racers init_manager) = Some ps"
  obtains ts m where "interleaved env ok (2 + length is) ts m" "principals m = ps"
  using assms schedule_interleaved [OF racers_arrive] by fastforce

theorem serialised_counter_unique_witness:
  "\<exists>ts m. interleaved (demo_env 200) one_in_gn 12 ts m \<and> length (principals m) = 2
     \<and> distinct (map (\<lambda>e. principal_name (snd e)) (principals m))"
proof -
  obtain ts m where run: "interleaved (demo_env 200) one_in_gn 12 ts m" and "length (principals m) = 2"
    by (rule race_run [OF race_eval(1)]) simp
  with serialised_counter_unique [OF run] show ?thesis by auto
qed

text \<open>
  C26.  The restriction is needed, and nothing in the code enforces it: \<open>gn_++\<close> is outside the
  lock.  Two threads that load the counter one after the other before either stores it
  register two principals of different processes under one id, one generation and one name.
\<close>

theorem racing_counter_duplicates:
  "\<exists>n ts m p q. interleaved (demo_env 200) (\<lambda>_. True) n ts m
     \<and> principals m = [(7, p), (7, q)] \<and> p_speaker p \<noteq> p_speaker q
     \<and> p_gn p = p_gn q \<and> principal_name p = principal_name q"
proof -
  obtain ts m where "interleaved (demo_env 200) (\<lambda>_. True) 12 ts m"
    "principals m = [(7, default_Principal\<lparr>p_id := 7, p_gn := 0, p_speaker := 42\<rparr>),
             (7, default_Principal\<lparr>p_id := 7, p_gn := 0, p_speaker := 43\<rparr>)]"
    by (rule race_run [OF race_eval(2)]) simp
  moreover have "principal_name (default_Principal\<lparr>p_id := 7, p_gn := 0, p_speaker := 42\<rparr>) =
      principal_name (default_Principal\<lparr>p_id := 7, p_gn := 0, p_speaker := 43\<rparr>)"
    by (simp add: principal_name_inj)
  ultimately show ?thesis by (intro exI conjI) (assumption, assumption, simp_all)
qed


section \<open>The registry under interleaving\<close>

text \<open>
  What one step of a thread does to the map from ids to newest principals.  A creation binds
  its id when it is confirmed, unless a younger generation was registered meanwhile; a deletion
  unbinds it while it holds the lock; no other step changes the map.
\<close>

definition keep_newer :: "Principal option \<Rightarrow> Principal \<Rightarrow> Principal" where
  "keep_newer old p = (case old of Some q \<Rightarrow> if p_gn p < p_gn q then q else p | None \<Rightarrow> p)"

fun view_step :: "task \<Rightarrow> (u64 \<rightharpoonup> Principal) \<Rightarrow> (u64 \<rightharpoonup> Principal)" where
  "view_step (Confirmed cmd p) v =
     v(p_id p \<mapsto> keep_newer (v (p_id p)) (p\<lparr>p_speaker := cmd_pid cmd\<rparr>))"
| "view_step (Received cmd) v =
     (case extract_principal cmd of
        None \<Rightarrow> v
      | Some p \<Rightarrow>
          if cmd_type cmd = type_value DELETE_PRINCIPAL
          then (case v (p_id p) of
                  Some q \<Rightarrow> if may_delete cmd q then v(p_id p := None) else v
                | None \<Rightarrow> v)
          else v)"
| "view_step t v = v"

lemma latest_loop_snoc:
  assumes "\<And>q. l = Some q \<Longrightarrow> g = p_gn q"
  shows "latest_loop (qs @ [p]) g l =
    (case latest_loop qs g l of
       Some q \<Rightarrow> Some (if p_gn p < p_gn q then q else p)
     | None \<Rightarrow> if g \<le> p_gn p then Some p else None)"
  using assms
proof (induction qs arbitrary: g l)
  case Nil
  then show ?case by (auto split: option.split)
next
  case (Cons a qs)
  have "latest_loop qs (p_gn a) (Some a) \<noteq> None" by (simp add: latest_loop_None)
  with Cons.IH [of l g] Cons.IH [of "Some a" "p_gn a"] Cons.prems show ?case
    by (auto split: option.splits)
qed

lemma find_latest_add_same:
  "find_latest i (add_principal i p ps) = Some (keep_newer (find_latest i ps) p)"
  using latest_loop_snoc [of None 0 "equal_range i ps" p]
  by (simp add: find_latest_def add_principal_def keep_newer_def split: option.split)

lemma find_latest_add:
  "(\<lambda>j. find_latest j (add_principal i p ps)) =
     (\<lambda>j. find_latest j ps)(i \<mapsto> keep_newer (find_latest i ps) p)"
  by (rule ext) (simp add: find_latest_add_same reg.newest_add_other)

lemma begin_delete_view:
  "(\<lambda>i. find_latest i (principals (snd (begin_delete cmd m)))) =
     (case extract_principal cmd of
        None \<Rightarrow> (\<lambda>i. find_latest i (principals m))
      | Some p \<Rightarrow>
          (case find_latest (p_id p) (principals m) of
             Some q \<Rightarrow> if may_delete cmd q then (\<lambda>i. find_latest i (principals m))(p_id p := None)
                       else (\<lambda>i. find_latest i (principals m))
           | None \<Rightarrow> (\<lambda>i. find_latest i (principals m))))"
  by (simp add: begin_delete_def may_delete_def reg.discard_refines_delete fun_upd_idem split: option.split)



section \<open>Progress\<close>

text \<open>The steps a command has left, at most.\<close>

fun steps_left :: "task \<Rightarrow> nat" where
  "steps_left (Received _) = 5"
| "steps_left (Loaded _ _ _) = 4"
| "steps_left (Numbered _ _) = 3"
| "steps_left (Posted _ _) = 2"
| "steps_left (Confirmed _ _) = 1"
| "steps_left (Erased _ _) = 1"
| "steps_left (Answered _) = 0"

lemma steps_left_0: "steps_left t = 0 \<longleftrightarrow> (\<exists>r. t = Answered r)"
  by (cases t) simp_all

lemma task_step_progress: "steps_left (fst (task_step env t m)) \<le> steps_left t - 1"
proof (cases t)
  case (Received cmd)
  then show ?thesis
    by (auto simp: begin_create_def begin_delete_def split: option.split prod.split)
qed (auto simp: call_metadata_eq split: prod.split sum.split)

lemma schedule_progress:
  "schedule env ok is ts m = Some (ts', m') \<Longrightarrow> i < length ts
    \<Longrightarrow> steps_left (ts' ! i) \<le> steps_left (ts ! i) - count_list is i"
proof (induction env ok "is" ts m rule: schedule.induct)
  case (2 env ok j "is" ts m)
  obtain t1 m1 where t: "task_step env (ts ! j) m = (t1, m1)" by fastforce
  with "2.prems"(1) have j: "j < length ts" "ok (ts[j := t1])"
    and rest: "schedule env ok is (ts[j := t1]) m1 = Some (ts', m')"
    by (auto split: if_splits)
  have "steps_left (ts' ! i) \<le> steps_left (ts[j := t1] ! i) - count_list is i"
    using "2.IH" [OF t [symmetric] _ rest] "2.prems"(2) j by simp
  with task_step_progress [of env "ts ! j" m] t j show ?case by (cases "i = j") auto
qed simp



end
