(* ===== verification/Port_Manager.thy ===== *)
theory Port_Manager
  imports Prelude
begin

text \<open>
  The port range allocator \<open>PortManager\<close> of include/port_manager.h.  Its two
  \<open>std::map\<close>s hold half-open segments \<open>[l, r)\<close> of 32-bit ports, one map for the free
  segments and one for the allocated ones.  The overloads of \<open>allocate\<close>, \<open>is_allocated\<close>
  and \<open>find_fit\<close> are told apart by the suffixes \<open>_cnt\<close>, \<open>_port\<close> and \<open>_range\<close>.
\<close>

section \<open>State and operations\<close>

record port_manager =
  port_low :: u32
  port_high :: u32
  free_map :: "(u32, u32) omap"
  allocated :: "(u32, u32) omap"

type_synonym port_pair = "u32 \<times> u32"

definition pm_new :: "u32 \<Rightarrow> u32 \<Rightarrow> port_manager" where
  "pm_new low high =
     \<lparr>port_low = low, port_high = high, free_map = omap_put low high [], allocated = []\<rparr>"

definition pm_default :: port_manager where
  "pm_default = pm_new 1 65535"

definition throw_full :: fault where
  "throw_full = Runtime_error ''no available port range''"

definition throw_bug :: "string \<Rightarrow> fault" where
  "throw_bug msg = Runtime_error (''a bug occurs:'' @ msg)"

definition throw_bad_port :: "u32 \<Rightarrow> fault" where
  "throw_bad_port p = Runtime_error (''port '' @ show_nat (unat p) @ '' is a bad port'')"

definition throw_bad_range :: "u32 \<Rightarrow> u32 \<Rightarrow> fault" where
  "throw_bad_range l r =
     Runtime_error (''('' @ show_nat (unat l) @ '','' @ show_nat (unat r) @ '') is a bad range'')"

text \<open>\<open>find_fit(cnt)\<close>: the first free segment that is long enough, else \<open>Bad\<close> = (0,0).\<close>

fun find_fit_cnt :: "u32 \<Rightarrow> (u32, u32) omap \<Rightarrow> port_pair" where
  "find_fit_cnt cnt [] = (0, 0)"
| "find_fit_cnt cnt ((l, r) # m) = (if cnt \<le> r - l then (l, r) else find_fit_cnt cnt m)"

text \<open>\<open>find_fit(lo, hi)\<close>: the free segment that starts at or below \<open>lo\<close>.\<close>

definition find_fit_range :: "u32 \<Rightarrow> u32 \<Rightarrow> (u32, u32) omap \<Rightarrow> fault + port_pair" where
  "find_fit_range lo hi m =
     (let p = upper_bound lo m in
      if p = 0 then
        Inl (throw_bug ''consistency broken: must be a segment smaller than lower bound'')
      else if snd (m ! (p - 1)) < hi then
        Inl (throw_bug ''consistency broken: target segment must include given range'')
      else Inr (m ! (p - 1)))"

definition is_allocated_port :: "u32 \<Rightarrow> port_manager \<Rightarrow> bool" where
  "is_allocated_port p s =
     (if length (allocated s) = 0 then False
      else let index = upper_bound p (allocated s) in
        if index = 0 then False
        else snd (allocated s ! (index - 1)) > p)"

definition is_allocated_range :: "u32 \<Rightarrow> u32 \<Rightarrow> port_manager \<Rightarrow> bool" where
  "is_allocated_range l h s =
     (if length (allocated s) = 0 then False
      else let index = upper_bound l (allocated s) in
        if index = 0 then fst (allocated s ! index) < h
        else snd (allocated s ! (index - 1)) > l
          \<or> (index \<noteq> length (allocated s) \<and> fst (allocated s ! index) < h))"

text \<open>\<open>allocate(cnt)\<close> takes the top \<open>cnt\<close> ports of the segment found.\<close>

definition allocate_cnt :: "u32 \<Rightarrow> port_manager \<Rightarrow> fault + (port_manager \<times> port_pair)" where
  "allocate_cnt cnt s =
     (let index = find_fit_cnt cnt (free_map s) in
      if index = (0, 0) then Inl throw_full
      else let
        available = snd index - fst index;
        remain = available - cnt;
        free' = (if remain \<ge> 1 then omap_put (fst index) (fst index + remain) (free_map s)
                 else omap_erase (fst index) (free_map s));
        alloc' = omap_put (fst index + remain) (snd index) (allocated s)
      in Inr (s\<lparr>free_map := free', allocated := alloc'\<rparr>, (fst index + remain, snd index)))"

definition allocate_range :: "u32 \<Rightarrow> u32 \<Rightarrow> port_manager \<Rightarrow> fault + (port_manager \<times> port_pair)" where
  "allocate_range lo hi s =
     (if lo < port_low s \<or> hi > port_high s then Inl (throw_bad_range lo hi)
      else if is_allocated_range lo hi s then Inl (throw_bad_range lo hi)
      else case find_fit_range lo hi (free_map s) of
        Inl e \<Rightarrow> Inl e
      | Inr p \<Rightarrow> let
          free1 = (if fst p < lo then omap_put (fst p) lo (free_map s)
                   else omap_erase (fst p) (free_map s));
          free2 = (if snd p > hi then omap_put hi (snd p) free1 else free1)
        in Inr (s\<lparr>free_map := free2, allocated := omap_put lo hi (allocated s)\<rparr>, (lo, hi)))"

text \<open>
  The right-merge step of \<open>deallocate\<close>: returns the end of the freed segment, the free
  map and the iterator \<open>free_index\<close> after it.  The key \<open>value\<close> looked up again after the
  erase is the key that was just erased.  The source reads \<open>value\<close> from \<open>free_index\<close> before it
  tests for \<open>end()\<close>; what it reads there is used only when the test has succeeded.
\<close>

definition merge_right :: "u32 \<Rightarrow> nat \<Rightarrow> (u32, u32) omap \<Rightarrow> u32 \<times> (u32, u32) omap \<times> nat" where
  "merge_right second free_index m =
     (if free_index \<noteq> length m \<and> fst (m ! free_index) = second
      then let right = m ! free_index; m' = omap_erase (fst right) m
           in (snd right, m', omap_find (fst right) m')
      else (second, m, free_index))"

definition merge_left :: "u32 \<Rightarrow> u32 \<Rightarrow> nat \<Rightarrow> (u32, u32) omap \<Rightarrow> (u32, u32) omap" where
  "merge_left first second free_index m =
     (if free_index \<noteq> 0 \<and> snd (m ! (free_index - 1)) = first
      then omap_put (fst (m ! (free_index - 1))) second m
      else omap_put first second m)"

definition deallocate :: "u32 \<Rightarrow> port_manager \<Rightarrow> fault + port_manager" where
  "deallocate p s =
     (case map_of (allocated s) p of
        None \<Rightarrow> Inl (throw_bad_port p)
      | Some second \<Rightarrow>
          (case merge_right second (upper_bound p (free_map s)) (free_map s) of
             (second', m, free_index) \<Rightarrow>
               Inr (s\<lparr>free_map := merge_left p second' free_index m,
                      allocated := omap_erase p (allocated s)\<rparr>)))"

definition report_fragment :: "u32 \<Rightarrow> port_manager \<Rightarrow> u32" where
  "report_fragment up s = of_nat (length (filter (\<lambda>p. snd p - fst p \<le> up) (free_map s)))"

section \<open>Segments\<close>

text \<open>The ports a map of segments covers, and what a well-formed map of segments is.\<close>

definition ports :: "(u32, u32) omap \<Rightarrow> u32 set" where
  "ports m = (\<Union>p \<in> set m. {fst p..<snd p})"

definition segs :: "(u32, u32) omap \<Rightarrow> bool" where
  "segs m \<longleftrightarrow> sorted_wrt (\<lambda>a b. snd a \<le> fst b) m \<and> (\<forall>p \<in> set m. fst p < snd p)"

text \<open>No two neighbouring segments touch.\<close>

definition coalesced :: "(u32, u32) omap \<Rightarrow> bool" where
  "coalesced m \<longleftrightarrow> sorted_wrt (\<lambda>a b. snd a < fst b) m"

lemma ports_Nil [simp]: "ports [] = {}"
  by (simp add: ports_def)

lemma ports_Cons [simp]: "ports (p # m) = {fst p..<snd p} \<union> ports m"
  by (simp add: ports_def)

lemma segs_Nil [simp]: "segs []"
  by (simp add: segs_def)

lemma segs_Cons [simp]:
  "segs (p # m) \<longleftrightarrow> fst p < snd p \<and> (\<forall>q \<in> set m. snd p \<le> fst q) \<and> segs m"
  by (auto simp: segs_def)

lemma coalesced_Nil [simp]: "coalesced []"
  by (simp add: coalesced_def)

lemma coalesced_Cons [simp]:
  "coalesced (p # m) \<longleftrightarrow> (\<forall>q \<in> set m. snd p < fst q) \<and> coalesced m"
  by (simp add: coalesced_def)

lemma segs_okeys: "segs m \<Longrightarrow> okeys m"
  by (induction m) fastforce+

lemma segs_lt: "segs m \<Longrightarrow> p \<in> set m \<Longrightarrow> fst p < snd p"
  by (simp add: segs_def)

lemma in_portsI: "p \<in> set m \<Longrightarrow> fst p \<le> x \<Longrightarrow> x < snd p \<Longrightarrow> x \<in> ports m"
  by (force simp: ports_def)

lemma in_portsE:
  assumes "x \<in> ports m"
  obtains p where "p \<in> set m" "fst p \<le> x" "x < snd p"
  using assms by (auto simp: ports_def)

lemma seg_in_ports: "(l, r) \<in> set m \<Longrightarrow> {l..<r} \<subseteq> ports m"
  by (force simp: ports_def)

lemma seg_start_in_ports: "segs m \<Longrightarrow> p \<in> set m \<Longrightarrow> fst p \<in> ports m"
  by (rule in_portsI) (auto simp: segs_lt)

text \<open>Two segments of a well-formed map with a common port are the same segment.\<close>

lemma segs_same:
  assumes "segs m" "p \<in> set m" "q \<in> set m" "fst p \<le> x" "x < snd p" "fst q \<le> x" "x < snd q"
  shows "p = q"
  using assms by (induction m) (auto dest: order_less_le_trans order_le_less_trans)

lemma segs_before:
  assumes "segs m" "p \<in> set m" "q \<in> set m" "fst p < fst q"
  shows "snd p \<le> fst q"
proof (rule ccontr)
  assume "\<not> snd p \<le> fst q"
  with assms have "p = q" by (intro segs_same [of m p q "fst q"]) (auto simp: segs_lt)
  with assms(4) show False by simp
qed

lemma ports_put_fresh:
  assumes "okeys m" "l \<notin> fst ` set m"
  shows "ports (omap_put l r m) = {l..<r} \<union> ports m"
proof -
  have "{p \<in> set m. fst p \<noteq> l} = set m" using assms(2) by auto
  with assms(1) show ?thesis by (simp add: ports_def set_omap_put)
qed

lemma segs_put_fresh:
  assumes "segs m" "l < r" "{l..<r} \<inter> ports m = {}"
  shows "segs (omap_put l r m)"
  using assms
proof (induction l r m rule: omap_put.induct)
  case (2 k v a b m)
  have km: "k \<noteq> a"
    using "2.prems" by fastforce
  show ?case
  proof (cases "k < a")
    case True
    have "v \<le> a"
    proof (rule ccontr)
      assume "\<not> v \<le> a"
      with True have "a \<in> {k..<v}" by auto
      moreover have "a \<in> ports ((a, b) # m)" using "2.prems"(1) by auto
      ultimately show False using "2.prems"(3) by blast
    qed
    with True "2.prems" show ?thesis by (auto dest: order_le_less_trans)
  next
    case False
    have "b \<le> k"
    proof (rule ccontr)
      assume "\<not> b \<le> k"
      with False have "k \<in> ports ((a, b) # m)" by auto
      moreover have "k \<in> {k..<v}" using "2.prems"(2) by auto
      ultimately show False using "2.prems"(3) by blast
    qed
    moreover have "segs (omap_put k v m)"
      using "2.IH" False km "2.prems" by auto
    ultimately show ?thesis
      using False km "2.prems" segs_okeys [of m] by (auto simp: set_omap_put)
  qed
qed simp

lemma segs_erase: "segs m \<Longrightarrow> segs (omap_erase l m)"
  by (induction l m rule: omap_erase.induct) (auto simp: set_omap_erase segs_okeys)

lemma ports_erase:
  assumes "segs m" "(l, r) \<in> set m"
  shows "ports (omap_erase l m) = ports m - {l..<r}"
proof -
  have other: "x \<notin> {l..<r}" if "p \<in> set m" "fst p \<noteq> l" "fst p \<le> x" "x < snd p" for p x
    using that assms segs_same [of m p "(l, r)" x] by auto
  have this_one: "snd p = r" if "p \<in> set m" "fst p = l" for p
    using that assms okeys_unique [OF segs_okeys] by (metis prod.collapse)
  have set: "set (omap_erase l m) = {p \<in> set m. fst p \<noteq> l}"
    using assms(1) by (simp add: set_omap_erase segs_okeys)
  have "x \<in> ports (omap_erase l m) \<longleftrightarrow> x \<in> ports m \<and> x \<notin> {l..<r}" for x
    using other [of _ x] this_one unfolding ports_def set by fastforce
  then show ?thesis by blast
qed

text \<open>
  Changing the end of an existing segment, or erasing it, in one step: the map without the
  segment gets the new one.
\<close>

lemma segs_resize:
  assumes "segs m" "(l, r) \<in> set m" "l < r'" "{l..<r'} \<inter> (ports m - {l..<r}) = {}"
  shows "segs (omap_put l r' m)" and "ports (omap_put l r' m) = {l..<r'} \<union> (ports m - {l..<r})"
proof -
  let ?m = "omap_erase l m"
  have m: "segs ?m" "ports ?m = ports m - {l..<r}" "okeys m"
    using assms by (auto simp: segs_erase ports_erase segs_okeys)
  have eq: "omap_put l r' m = omap_put l r' ?m"
    using m(3) by (simp add: omap_put_erase)
  show "segs (omap_put l r' m)"
    unfolding eq using m assms by (intro segs_put_fresh) auto
  have "l \<notin> fst ` set ?m" using m(3) by (auto simp: set_omap_erase)
  then show "ports (omap_put l r' m) = {l..<r'} \<union> (ports m - {l..<r})"
    unfolding eq using m by (simp add: ports_put_fresh segs_okeys)
qed

section \<open>The allocator invariant\<close>

text \<open>
  Free and allocated segments are non-empty, ordered and disjoint, and together they are
  exactly the managed range: no port is lost and none is handed out twice.
\<close>

definition pm_inv :: "port_manager \<Rightarrow> bool" where
  "pm_inv s \<longleftrightarrow> segs (free_map s) \<and> segs (allocated s)
     \<and> ports (free_map s) \<inter> ports (allocated s) = {}
     \<and> ports (free_map s) \<union> ports (allocated s) = {port_low s..<port_high s}"

text \<open>What a successful allocation of the segment \<open>p\<close> does to the state.\<close>

definition took :: "port_manager \<Rightarrow> port_pair \<Rightarrow> port_manager \<Rightarrow> bool" where
  "took s p s' \<longleftrightarrow> fst p < snd p
     \<and> {fst p..<snd p} \<subseteq> ports (free_map s)
     \<and> ports (free_map s') = ports (free_map s) - {fst p..<snd p}
     \<and> set (allocated s') = insert p (set (allocated s))
     \<and> port_low s' = port_low s \<and> port_high s' = port_high s"

lemma pm_inv_new: "low < high \<Longrightarrow> pm_inv (pm_new low high)"
  by (simp add: pm_inv_def pm_new_def)

lemma fresh_key:
  assumes "segs m" "l < r" "{l..<r} \<inter> ports m = {}"
  shows "l \<notin> fst ` set m"
  using assms seg_start_in_ports by fastforce

lemma took_inv:
  assumes "pm_inv s" "l < r" "{l..<r} \<subseteq> ports (free_map s)"
    and "segs m" "ports m = ports (free_map s) - {l..<r}"
    and "s' = s\<lparr>free_map := m, allocated := omap_put l r (allocated s)\<rparr>"
  shows "pm_inv s'" and "took s (l, r) s'"
proof -
  have a: "segs (allocated s)" "{l..<r} \<inter> ports (allocated s) = {}"
    using assms(1,3) by (auto simp: pm_inv_def)
  have k: "l \<notin> fst ` set (allocated s)" using a assms(2) by (simp add: fresh_key)
  have ok: "okeys (allocated s)" using a(1) by (rule segs_okeys)
  have "{p \<in> set (allocated s). fst p \<noteq> l} = set (allocated s)" using k by auto
  then show "took s (l, r) s'"
    using assms ok by (simp add: took_def set_omap_put)
  have "segs (omap_put l r (allocated s))" using a assms(2) by (intro segs_put_fresh)
  with assms k ok show "pm_inv s'"
    by (auto simp: pm_inv_def ports_put_fresh)
qed

lemma find_fit_cnt_found:
  assumes "find_fit_cnt cnt m = p" "p \<noteq> (0, 0)"
  shows "p \<in> set m \<and> cnt \<le> snd p - fst p"
  using assms by (induction cnt m rule: find_fit_cnt.induct) (auto split: if_splits)

lemma find_fit_cnt_bad:
  assumes "segs m"
  shows "find_fit_cnt cnt m = (0, 0) \<longleftrightarrow> (\<forall>p \<in> set m. snd p - fst p < cnt)"
  using assms by (induction cnt m rule: find_fit_cnt.induct) (auto simp: not_le)

lemma top_cut:
  fixes l r cnt :: u32
  assumes "l < r" "0 < cnt" "cnt \<le> r - l"
  shows "l \<le> r - cnt" and "r - cnt < r" and "1 \<le> r - l - cnt \<longleftrightarrow> l < r - cnt"
proof -
  have n: "unat l < unat r" "0 < unat cnt" "unat cnt \<le> unat r - unat l"
    using assms by (auto simp: word_less_nat_alt word_le_nat_alt unat_sub)
  then have "cnt \<le> r" by (simp add: word_le_nat_alt)
  then have rc: "unat (r - cnt) = unat r - unat cnt" by (simp add: unat_sub)
  have rl: "unat (r - l - cnt) = unat r - unat l - unat cnt"
    using assms by (simp add: unat_sub)
  show "l \<le> r - cnt" "r - cnt < r"
    using n rc by (auto simp: word_less_nat_alt word_le_nat_alt)
  show "1 \<le> r - l - cnt \<longleftrightarrow> l < r - cnt"
    using n rc rl by (auto simp: word_less_nat_alt word_le_nat_alt)
qed

lemma shrink_free:
  assumes "segs m" "(l, r) \<in> set m" "l \<le> b" "b < r"
  shows "segs (if l < b then omap_put l b m else omap_erase l m)"
    and "ports (if l < b then omap_put l b m else omap_erase l m) = ports m - {b..<r}"
proof -
  have sub: "{l..<r} \<subseteq> ports m" using assms(2) by (rule seg_in_ports)
  have "{l..<b} \<inter> (ports m - {l..<r}) = {}" using assms(4) by auto
  note resize = segs_resize [OF assms(1,2) _ this]
  show "segs (if l < b then omap_put l b m else omap_erase l m)"
    using assms(1) resize(1) by (simp add: segs_erase)
  have "{l..<r} - {b..<r} = {l..<b}" "{l..<b} \<subseteq> {l..<r}" "{b..<r} \<subseteq> {l..<r}"
    using assms(3,4) by auto
  then have "{l..<b} \<union> (ports m - {l..<r}) = ports m - {b..<r}" if "l < b"
    using sub by blast
  moreover have "ports (omap_erase l m) = ports m - {b..<r}" if "l = b"
    using that assms by (simp add: ports_erase)
  ultimately show "ports (if l < b then omap_put l b m else omap_erase l m) = ports m - {b..<r}"
    using assms(3) resize(2) by auto
qed

lemma allocate_cnt_cases:
  assumes "pm_inv s" "0 < cnt" "allocate_cnt cnt s = Inr (s', p)"
  obtains l r where "(l, r) \<in> set (free_map s)" "l < r" "cnt \<le> r - l" "p = (r - cnt, r)"
    "s' = s\<lparr>free_map := if l < r - cnt then omap_put l (r - cnt) (free_map s)
                         else omap_erase l (free_map s),
            allocated := omap_put (r - cnt) r (allocated s)\<rparr>"
proof -
  obtain l r where lr: "find_fit_cnt cnt (free_map s) = (l, r)" by fastforce
  with assms(3) have ne: "(l, r) \<noteq> (0, 0)"
    by (auto simp: allocate_cnt_def)
  with lr have f: "(l, r) \<in> set (free_map s)" "cnt \<le> r - l"
    using find_fit_cnt_found [OF lr] by auto
  moreover have "l < r" using f(1) assms(1) segs_lt by (fastforce simp: pm_inv_def)
  moreover have "l + (r - l - cnt) = r - cnt" by simp
  ultimately show thesis
    using that assms(2,3) lr ne top_cut(3) [of l r cnt]
    by (auto simp: allocate_cnt_def Let_def)
qed

lemma allocate_cnt_ok:
  assumes "pm_inv s" "0 < cnt" "allocate_cnt cnt s = Inr (s', p)"
  shows "pm_inv s'" and "took s p s'" and "snd p - fst p = cnt"
proof -
  obtain l r where lr: "(l, r) \<in> set (free_map s)" "l < r" "cnt \<le> r - l" "p = (r - cnt, r)"
    and s': "s' = s\<lparr>free_map := if l < r - cnt then omap_put l (r - cnt) (free_map s)
                         else omap_erase l (free_map s),
            allocated := omap_put (r - cnt) r (allocated s)\<rparr>"
    using allocate_cnt_cases [OF assms] .
  note cut = top_cut [OF lr(2) assms(2) lr(3)]
  have free: "segs (free_map s)" using assms(1) by (simp add: pm_inv_def)
  have sub: "{r - cnt..<r} \<subseteq> ports (free_map s)"
    using cut(1) by (intro order_trans [OF _ seg_in_ports [OF lr(1)]]) simp
  note shrunk = shrink_free [OF free lr(1) cut(1,2)]
  show "pm_inv s'" "took s p s'"
    using took_inv [OF assms(1) cut(2) sub shrunk s'] lr(4) by auto
  show "snd p - fst p = cnt" using lr(4) by simp
qed

lemma allocate_cnt_full:
  assumes "pm_inv s"
  shows "(\<exists>e. allocate_cnt cnt s = Inl e) \<longleftrightarrow> (\<forall>p \<in> set (free_map s). snd p - fst p < cnt)"
  using assms by (auto simp: allocate_cnt_def Let_def pm_inv_def find_fit_cnt_bad)

section \<open>Queries\<close>

lemma below_first: "segs m \<Longrightarrow> upper_bound k m = 0 \<Longrightarrow> k \<notin> ports m"
  by (auto elim!: in_portsE dest: upper_bound_first [OF segs_okeys])

lemma prev_covers:
  assumes "segs m" "upper_bound k m \<noteq> 0"
  shows "k < snd (m ! (upper_bound k m - 1)) \<longleftrightarrow> k \<in> ports m"
proof -
  let ?e = "m ! (upper_bound k m - 1)"
  note e = upper_bound_prev [OF segs_okeys [OF assms(1)] assms(2)]
  show ?thesis
  proof
    show "k < snd ?e \<Longrightarrow> k \<in> ports m" using e(1,2) by (blast intro: in_portsI)
  next
    assume "k \<in> ports m"
    then obtain q where q: "q \<in> set m" "fst q \<le> k" "k < snd q" by (elim in_portsE)
    then have "fst q \<le> fst ?e" by (intro e(3))
    moreover have "fst ?e < snd q" using e(2) q(3) by simp
    ultimately have "q = ?e"
      using assms(1) q(1) e(1) segs_lt [OF assms(1) e(1)] by (intro segs_same [of m q ?e "fst ?e"]) auto
    with q show "k < snd ?e" by simp
  qed
qed

lemma next_overlaps:
  assumes "segs m" "l \<notin> ports m"
  shows "upper_bound l m < length m \<and> fst (m ! upper_bound l m) < h
    \<longleftrightarrow> {l..<h} \<inter> ports m \<noteq> {}"
proof
  let ?n = "m ! upper_bound l m"
  assume a: "upper_bound l m < length m \<and> fst ?n < h"
  then have "l < fst ?n" "fst ?n \<in> ports m"
    using upper_bound_next(1,2) [OF segs_okeys [OF assms(1)], of l] assms(1)
    by (auto intro: seg_start_in_ports)
  with a have "fst ?n \<in> {l..<h} \<inter> ports m" by simp
  then show "{l..<h} \<inter> ports m \<noteq> {}" by blast
next
  assume "{l..<h} \<inter> ports m \<noteq> {}"
  then obtain x q where x: "l \<le> x" "x < h" and q: "q \<in> set m" "fst q \<le> x" "x < snd q"
    by (auto elim!: in_portsE)
  have lq: "l < fst q"
  proof (rule ccontr)
    assume "\<not> l < fst q"
    with x(1) q have "l \<in> ports m" by (intro in_portsI [OF q(1)]) auto
    with assms(2) show False by simp
  qed
  then have "upper_bound l m \<noteq> length m"
    using upper_bound_end [OF segs_okeys [OF assms(1)] _ q(1)] by fastforce
  then have i: "upper_bound l m < length m" by (simp add: order.not_eq_order_implies_strict)
  then have "fst (m ! upper_bound l m) \<le> fst q"
    using upper_bound_next(3) [OF segs_okeys [OF assms(1)] _ q(1) lq] by simp
  with i q(2) x(2) show "upper_bound l m < length m \<and> fst (m ! upper_bound l m) < h" by simp
qed

lemma is_allocated_port_iff:
  assumes "segs (allocated s)"
  shows "is_allocated_port p s \<longleftrightarrow> p \<in> ports (allocated s)"
  using assms prev_covers [OF assms, of p] below_first [OF assms, of p]
  by (auto simp: is_allocated_port_def Let_def)

lemma is_allocated_range_iff:
  assumes "segs (allocated s)" "l < h"
  shows "is_allocated_range l h s \<longleftrightarrow> {l..<h} \<inter> ports (allocated s) \<noteq> {}"
proof (cases "l \<in> ports (allocated s)")
  case True
  then have "upper_bound l (allocated s) \<noteq> 0" using assms(1) below_first by blast
  moreover have "allocated s \<noteq> []" using True by auto
  moreover have "l \<in> {l..<h} \<inter> ports (allocated s)" using True assms(2) by simp
  ultimately show ?thesis
    using True prev_covers [OF assms(1), of l] by (auto simp: is_allocated_range_def Let_def)
next
  case False
  let ?i = "upper_bound l (allocated s)"
  have i: "?i \<noteq> length (allocated s) \<longleftrightarrow> ?i < length (allocated s)"
    using upper_bound_le [of l "allocated s"] by linarith
  have prev: "?i \<noteq> 0 \<Longrightarrow> \<not> l < snd (allocated s ! (?i - 1))"
    using False prev_covers [OF assms(1)] by blast
  show ?thesis
  proof (cases "allocated s = []")
    case True
    then show ?thesis by (simp add: is_allocated_range_def)
  next
    case ne: False
    show ?thesis
      unfolding next_overlaps [OF assms(1) False, symmetric] is_allocated_range_def Let_def
      using ne prev i by (cases "?i = 0") auto
  qed
qed

section \<open>Allocation of an exact range and release\<close>

lemma find_fit_range_found:
  assumes "segs m" "find_fit_range lo hi m = Inr p"
  shows "p \<in> set m" "fst p \<le> lo" "hi \<le> snd p"
  using assms upper_bound_prev(1,2) [OF segs_okeys [OF assms(1)], of lo]
  by (auto simp: find_fit_range_def Let_def not_less split: if_splits)

lemma carve_free:
  assumes "segs m" "(f, g) \<in> set m" "f \<le> lo" "lo < hi" "hi \<le> g"
  defines "m1 \<equiv> if f < lo then omap_put f lo m else omap_erase f m"
  shows "segs (if hi < g then omap_put hi g m1 else m1)"
    and "ports (if hi < g then omap_put hi g m1 else m1) = ports m - {lo..<hi}"
proof -
  have "lo < g" using assms(4,5) by simp
  then have m1: "segs m1" "ports m1 = ports m - {lo..<g}"
    unfolding m1_def using shrink_free [OF assms(1-3)] by auto
  have "{hi..<g} \<subseteq> {lo..<g}" using assms(4) by (simp add: order_less_imp_le)
  then have dis: "{hi..<g} \<inter> ports m1 = {}" using m1(2) by blast
  show "segs (if hi < g then omap_put hi g m1 else m1)"
    using m1(1) dis by (simp add: segs_put_fresh)
  have "{f..<g} \<subseteq> ports m" using assms(2) by (rule seg_in_ports)
  moreover have "{hi..<g} \<subseteq> {f..<g}"
    using order_le_less_trans [OF assms(3,4)] by (simp add: order_less_imp_le)
  moreover have "{lo..<g} = {lo..<hi} \<union> {hi..<g}" "{lo..<hi} \<inter> {hi..<g} = {}"
    using assms(4,5) by (auto simp: ivl_disj_un)
  ultimately have "{hi..<g} \<union> (ports m - {lo..<g}) = ports m - {lo..<hi}" by blast
  moreover have "ports (omap_put hi g m1) = {hi..<g} \<union> ports m1" if "hi < g"
    using that m1(1) dis by (intro ports_put_fresh) (auto simp: segs_okeys fresh_key)
  ultimately show "ports (if hi < g then omap_put hi g m1 else m1) = ports m - {lo..<hi}"
    using m1(2) assms(5) by auto
qed

lemma allocate_range_ok:
  assumes "pm_inv s" "lo < hi" "allocate_range lo hi s = Inr (s', p)"
  shows "pm_inv s'" and "took s p s'" and "p = (lo, hi)"
proof -
  have free: "segs (free_map s)" using assms(1) by (simp add: pm_inv_def)
  from assms(3) obtain f g where fg: "find_fit_range lo hi (free_map s) = Inr (f, g)"
    and p: "p = (lo, hi)"
    and s': "s' = s\<lparr>free_map := if hi < g
        then omap_put hi g (if f < lo then omap_put f lo (free_map s) else omap_erase f (free_map s))
        else (if f < lo then omap_put f lo (free_map s) else omap_erase f (free_map s)),
      allocated := omap_put lo hi (allocated s)\<rparr>"
    by (auto simp: allocate_range_def Let_def split: if_splits sum.splits)
  note found = find_fit_range_found [OF free fg, simplified]
  note carved = carve_free [OF free found(1,2) assms(2) found(3)]
  have sub: "{lo..<hi} \<subseteq> ports (free_map s)"
    using found(2,3) by (intro order_trans [OF _ seg_in_ports [OF found(1)]]) simp
  show "pm_inv s'" "took s p s'"
    using took_inv [OF assms(1,2) sub carved s'] p by auto
  show "p = (lo, hi)" by (rule p)
qed

text \<open>What a successful release of the segment starting at \<open>p\<close> does to the state.\<close>

definition gave :: "port_manager \<Rightarrow> u32 \<Rightarrow> u32 \<Rightarrow> port_manager \<Rightarrow> bool" where
  "gave s p r s' \<longleftrightarrow> (p, r) \<in> set (allocated s)
     \<and> ports (free_map s') = ports (free_map s) \<union> {p..<r}
     \<and> set (allocated s') = set (allocated s) - {(p, r)}
     \<and> port_low s' = port_low s \<and> port_high s' = port_high s"

lemma merge_right_ok:
  assumes "segs m" "p < r" "{p..<r} \<inter> ports m = {}" "merge_right r (upper_bound p m) m = (r', m', i)"
  shows "segs m'" "p < r'" "{p..<r'} \<inter> ports m' = {}"
    "ports m' \<union> {p..<r'} = ports m \<union> {p..<r}" "i \<le> length m'"
proof -
  let ?i = "upper_bound p m"
  have "segs m' \<and> p < r' \<and> {p..<r'} \<inter> ports m' = {} \<and>
    ports m' \<union> {p..<r'} = ports m \<union> {p..<r} \<and> i \<le> length m'"
  proof (cases "?i \<noteq> length m \<and> fst (m ! ?i) = r")
    case True
    then have "?i < length m" by (simp add: order.not_eq_order_implies_strict)
    then have "m ! ?i \<in> set m" by simp
    with True have right: "(r, snd (m ! ?i)) \<in> set m" by (metis prod.collapse)
    from True assms(4) have eqs: "r' = snd (m ! ?i)" "m' = omap_erase r m" "i \<le> length m'"
      by (auto simp: merge_right_def Let_def)
    have rr: "r < r'" using segs_lt [OF assms(1) right] eqs(1) by simp
    have pm: "ports m' = ports m - {r..<r'}" "{r..<r'} \<subseteq> ports m"
      using assms(1) right eqs by (auto simp: ports_erase dest: seg_in_ports)
    have "{p..<r'} = {p..<r} \<union> {r..<r'}" using assms(2) rr by (auto simp: ivl_disj_un)
    with pm assms(3) rr assms(2) eqs show ?thesis
      by (auto simp: segs_erase [OF assms(1)])
  next
    case False
    with assms show ?thesis by (auto simp: merge_right_def)
  qed
  then show "segs m'" "p < r'" "{p..<r'} \<inter> ports m' = {}"
    "ports m' \<union> {p..<r'} = ports m \<union> {p..<r}" "i \<le> length m'" by auto
qed

lemma merge_left_ok:
  assumes "segs m" "p < r" "{p..<r} \<inter> ports m = {}" "i \<le> length m"
  shows "segs (merge_left p r i m)" "ports (merge_left p r i m) = ports m \<union> {p..<r}"
proof -
  let ?f = "fst (m ! (i - 1))"
  have "segs (merge_left p r i m) \<and> ports (merge_left p r i m) = ports m \<union> {p..<r}"
  proof (cases "i \<noteq> 0 \<and> snd (m ! (i - 1)) = p")
    case True
    with assms(4) have "i - 1 < length m" by (cases i) auto
    then have "m ! (i - 1) \<in> set m" by (rule nth_mem)
    with True have left: "(?f, p) \<in> set m" by (metis prod.collapse)
    then have "?f < p" using segs_lt [OF assms(1)] by fastforce
    moreover from this have un: "{?f..<r} = {?f..<p} \<union> {p..<r}"
      using assms(2) by (auto simp: ivl_disj_un)
    ultimately have "?f < r" "{?f..<r} \<inter> (ports m - {?f..<p}) = {}"
      using assms(2,3) by (auto dest: order_less_trans)
    note resize = segs_resize [OF assms(1) left this]
    have "{?f..<r} \<union> (ports m - {?f..<p}) = ports m \<union> {p..<r}"
      using un seg_in_ports [OF left] by auto
    with True resize show ?thesis by (simp add: merge_left_def)
  next
    case False
    then have "merge_left p r i m = omap_put p r m" by (auto simp: merge_left_def)
    with assms show ?thesis
      by (auto simp: segs_put_fresh ports_put_fresh segs_okeys fresh_key)
  qed
  then show "segs (merge_left p r i m)" "ports (merge_left p r i m) = ports m \<union> {p..<r}" by auto
qed

lemma deallocate_ok:
  assumes "pm_inv s" "deallocate p s = Inr s'"
  shows "pm_inv s'" and "\<exists>r. gave s p r s'"
proof -
  have inv: "segs (free_map s)" "segs (allocated s)"
    "ports (free_map s) \<inter> ports (allocated s) = {}"
    "ports (free_map s) \<union> ports (allocated s) = {port_low s..<port_high s}"
    using assms(1) by (auto simp: pm_inv_def)
  from assms(2) obtain r r' m i where r: "map_of (allocated s) p = Some r"
    and mr: "merge_right r (upper_bound p (free_map s)) (free_map s) = (r', m, i)"
    and s': "s' = s\<lparr>free_map := merge_left p r' i m, allocated := omap_erase p (allocated s)\<rparr>"
    by (auto simp: deallocate_def split: option.splits prod.splits)
  have pr: "(p, r) \<in> set (allocated s)" using r by (rule map_of_SomeD)
  then have "p < r" using segs_lt [OF inv(2)] by fastforce
  have sub: "{p..<r} \<subseteq> ports (allocated s)" using pr by (rule seg_in_ports)
  then have "{p..<r} \<inter> ports (free_map s) = {}" using inv(3) by blast
  note mro = merge_right_ok [OF inv(1) \<open>p < r\<close> this mr]
  note mlo = merge_left_ok [OF mro(1,2,3,5)]
  have alloc: "ports (allocated s') = ports (allocated s) - {p..<r}" "segs (allocated s')"
    using s' inv(2) pr by (auto simp: ports_erase segs_erase)
  have free: "ports (free_map s') = ports (free_map s) \<union> {p..<r}" "segs (free_map s')"
    using s' mlo mro(4) by auto
  from alloc free inv sub s' show "pm_inv s'" unfolding pm_inv_def by auto
  have "set (allocated s') = set (allocated s) - {(p, r)}"
    using s' inv(2) pr okeys_unique [OF segs_okeys [OF inv(2)]]
    by (auto simp: set_omap_erase segs_okeys)
  with free pr s' show "\<exists>r. gave s p r s'" by (auto simp: gave_def)
qed

lemma deallocate_fails:
  "(\<exists>e. deallocate p s = Inl e) \<longleftrightarrow> p \<notin> fst ` set (allocated s)"
proof (cases "map_of (allocated s) p")
  case None
  then have "p \<notin> fst ` set (allocated s)" by (simp add: map_of_eq_None_iff)
  with None show ?thesis by (simp add: deallocate_def)
next
  case (Some r)
  then have "p \<in> fst ` set (allocated s)" by (force dest: map_of_SomeD)
  with Some show ?thesis by (auto simp: deallocate_def split: prod.splits)
qed

section \<open>Coalescing\<close>

text \<open>
  \<open>find_fit(lo, hi)\<close> relies on free segments that touch being merged.  Allocation keeps
  them merged; release does so unless it merged to the right with a segment that has
  another free segment above it.
\<close>

lemma coalesced_iff:
  assumes "segs m"
  shows "coalesced m \<longleftrightarrow> (\<forall>p \<in> set m. \<forall>q \<in> set m. snd p \<noteq> fst q)"
  using assms
proof (induction m)
  case (Cons a m)
  have "fst a < snd q" if "q \<in> set m" for q
    using Cons.prems that segs_lt [of m q] by (auto dest: order_less_le_trans order_le_less_trans)
  then have ends: "snd a \<noteq> fst a" "\<forall>q \<in> set m. snd q \<noteq> fst a"
    using Cons.prems by fastforce+
  have "(\<forall>q \<in> set m. snd a < fst q) \<longleftrightarrow> (\<forall>q \<in> set m. snd a \<noteq> fst q)"
    using Cons.prems by (auto simp: order.order_iff_strict)
  with Cons ends show ?case by auto
qed simp

lemma find_fit_range_total:
  assumes "segs m" "coalesced m" "lo < hi" "{lo..<hi} \<subseteq> ports m"
  shows "\<exists>p. find_fit_range lo hi m = Inr p"
proof -
  have lo: "lo \<in> ports m" using assms(3,4) by auto
  then have ub: "upper_bound lo m \<noteq> 0" using assms(1) below_first by blast
  let ?e = "m ! (upper_bound lo m - 1)"
  have e: "?e \<in> set m" "lo < snd ?e"
    using upper_bound_prev(1) [OF segs_okeys [OF assms(1)] ub] prev_covers [OF assms(1) ub] lo
    by auto
  have "\<not> snd ?e < hi"
  proof
    assume "snd ?e < hi"
    with e(2) assms(4) have "snd ?e \<in> ports m" by auto
    then obtain q where q: "q \<in> set m" "fst q \<le> snd ?e" "snd ?e < snd q" by (elim in_portsE)
    have "fst q \<noteq> snd ?e" using assms(1,2) q(1) e(1) by (force simp: coalesced_iff)
    with q(2) have less: "fst q < snd ?e" by simp
    have "fst ?e \<noteq> fst q"
      using q e(1) okeys_unique [OF segs_okeys [OF assms(1)]] by (metis less_irrefl prod.collapse)
    then consider "fst q < fst ?e" | "fst ?e < fst q" by fastforce
    then show False
    proof cases
      case 1
      with assms(1) q(1) e(1) have "snd q \<le> fst ?e" by (intro segs_before)
      with q(3) segs_lt [OF assms(1) e(1)] show False by simp
    next
      case 2
      with assms(1) q(1) e(1) have "snd ?e \<le> fst q" by (intro segs_before)
      with less show False by simp
    qed
  qed
  with ub show ?thesis by (simp add: find_fit_range_def Let_def)
qed

lemma pieces_coalesced:
  assumes m: "segs m" "coalesced m" "(f, g) \<in> set m" and m': "segs m'"
    and cover: "\<And>q. q \<in> set m' \<Longrightarrow> q \<in> set m \<and> q \<noteq> (f, g) \<or> f \<le> fst q \<and> snd q \<le> g"
    and inner: "\<And>p q. p \<in> set m' \<Longrightarrow> q \<in> set m' \<Longrightarrow> f \<le> fst p \<Longrightarrow> snd p \<le> g
      \<Longrightarrow> f \<le> fst q \<Longrightarrow> snd q \<le> g \<Longrightarrow> snd p \<noteq> fst q"
  shows "coalesced m'"
proof -
  have sep: "snd p \<noteq> fst q" if "p \<in> set m" "q \<in> set m" for p q
    using that m(1,2) by (simp add: coalesced_iff)
  have side: "snd q < f \<or> g < fst q" if "q \<in> set m" "q \<noteq> (f, g)" for q
  proof -
    have "fst q \<noteq> f" using that m okeys_unique [OF segs_okeys [OF m(1)]] by (metis prod.collapse)
    then have "snd q \<le> f \<or> g \<le> fst q"
      using segs_before [OF m(1) that(1) m(3)] segs_before [OF m(1) m(3) that(1)] by fastforce
    moreover have "snd q \<noteq> f" "g \<noteq> fst q" using sep [OF that(1) m(3)] sep [OF m(3) that(1)] by auto
    ultimately show ?thesis by auto
  qed
  have "snd p \<noteq> fst q" if pq: "p \<in> set m'" "q \<in> set m'" for p q
  proof -
    have lt: "fst p < snd p" "fst q < snd q" using pq m' segs_lt by auto
    from cover [OF pq(1)] cover [OF pq(2)] show ?thesis
    proof (elim disjE conjE)
      assume "p \<in> set m" "q \<in> set m"
      then show ?thesis by (rule sep)
    next
      assume "p \<in> set m" "p \<noteq> (f, g)" "f \<le> fst q" "snd q \<le> g"
      with side [of p] lt show ?thesis by auto
    next
      assume "q \<in> set m" "q \<noteq> (f, g)" "f \<le> fst p" "snd p \<le> g"
      with side [of q] lt show ?thesis by auto
    next
      assume "f \<le> fst p" "snd p \<le> g" "f \<le> fst q" "snd q \<le> g"
      then show ?thesis using inner [OF pq] by blast
    qed
  qed
  with m' show ?thesis by (simp add: coalesced_iff)
qed

lemma merge_left_coalesced:
  assumes m: "segs m" "coalesced m" and pr: "p < r" "{p..<r} \<inter> ports m = {}" and i: "i \<le> length m"
    and right: "r \<notin> fst ` set m"
    and left: "\<And>q. q \<in> set m \<Longrightarrow> snd q = p \<Longrightarrow> i \<noteq> 0 \<and> m ! (i - 1) = q"
  shows "coalesced (merge_left p r i m)"
proof -
  have ok: "okeys m" using m(1) by (rule segs_okeys)
  have sep: "snd a \<noteq> fst b" if "a \<in> set m" "b \<in> set m" for a b
    using that m by (simp add: coalesced_iff)
  then have sepA: "\<forall>a \<in> set m. \<forall>b \<in> set m. snd a \<noteq> fst b" by blast
  have "segs (merge_left p r i m)" using merge_left_ok(1) [OF m(1) pr i] .
  moreover have "snd a \<noteq> fst b"
    if "a \<in> set (merge_left p r i m)" "b \<in> set (merge_left p r i m)" for a b
  proof (cases "i \<noteq> 0 \<and> snd (m ! (i - 1)) = p")
    case True
    let ?f = "fst (m ! (i - 1))"
    from True i have "i - 1 < length m" by (cases i) auto
    then have mem: "m ! (i - 1) \<in> set m" by (rule nth_mem)
    have "?f < p" using segs_lt [OF m(1) mem] True by simp
    with pr(1) have "?f < r" by simp
    have set: "set (merge_left p r i m) = insert (?f, r) {q \<in> set m. fst q \<noteq> ?f}"
      using True ok by (auto simp: merge_left_def set_omap_put)
    have "\<forall>q \<in> set m. snd q \<noteq> ?f" using sep [OF _ mem] by blast
    with that sepA right \<open>?f < r\<close> show ?thesis unfolding set by auto
  next
    case False
    then have set: "set (merge_left p r i m) = insert (p, r) {q \<in> set m. fst q \<noteq> p}"
      using ok by (auto simp: merge_left_def set_omap_put)
    have "\<forall>q \<in> set m. snd q \<noteq> p" using left False by blast
    with that sepA right pr(1) show ?thesis unfolding set by auto
  qed
  ultimately show ?thesis by (simp add: coalesced_iff)
qed

lemma allocate_cnt_coalesced:
  assumes "pm_inv s" "0 < cnt" "coalesced (free_map s)" "allocate_cnt cnt s = Inr (s', p)"
  shows "coalesced (free_map s')"
proof -
  obtain l r where lr: "(l, r) \<in> set (free_map s)" "l < r" "cnt \<le> r - l"
    and eq: "s' = s\<lparr>free_map := if l < r - cnt then omap_put l (r - cnt) (free_map s)
                         else omap_erase l (free_map s),
            allocated := omap_put (r - cnt) r (allocated s)\<rparr>"
    by (rule allocate_cnt_cases [OF assms(1,2,4)])
  have s': "free_map s' = (if l < r - cnt then omap_put l (r - cnt) (free_map s)
                         else omap_erase l (free_map s))"
    unfolding eq by simp
  have free: "segs (free_map s)" "okeys (free_map s)" using assms(1) by (auto simp: pm_inv_def segs_okeys)
  have segs': "segs (free_map s')" using allocate_cnt_ok(1) [OF assms(1,2,4)] by (simp add: pm_inv_def)
  have set': "set (free_map s') \<subseteq> {q \<in> set (free_map s). fst q \<noteq> l} \<union> {(l, r - cnt)}"
    using s' free(2) by (auto simp: set_omap_put set_omap_erase split: if_splits)
  have "r - cnt < r" using top_cut(2) [OF lr(2) assms(2) lr(3)] .
  have away: "\<not> (l \<le> fst q \<and> snd q \<le> r)" if "q \<in> set (free_map s)" "fst q \<noteq> l" for q
    using that segs_before [OF free(1) lr(1) that(1)] segs_lt [OF free(1) that(1)] by fastforce
  show ?thesis
  proof (rule pieces_coalesced [OF free(1) assms(3) lr(1) segs'])
    fix q assume "q \<in> set (free_map s')"
    with set' \<open>r - cnt < r\<close>
    show "q \<in> set (free_map s) \<and> q \<noteq> (l, r) \<or> l \<le> fst q \<and> snd q \<le> r" by auto
  next
    fix p q assume "p \<in> set (free_map s')" "q \<in> set (free_map s')"
      "l \<le> fst p" "snd p \<le> r" "l \<le> fst q" "snd q \<le> r"
    then have "p = (l, r - cnt)" "q = (l, r - cnt)" "p \<in> set (free_map s')" using set' away by blast+
    then show "snd p \<noteq> fst q" using segs_lt [OF segs'] by fastforce
  qed
qed

lemma allocate_range_coalesced:
  assumes "pm_inv s" "lo < hi" "coalesced (free_map s)" "allocate_range lo hi s = Inr (s', p)"
  shows "coalesced (free_map s')"
proof -
  have free: "segs (free_map s)" "okeys (free_map s)" using assms(1) by (auto simp: pm_inv_def segs_okeys)
  from assms(4) obtain f g where fg: "find_fit_range lo hi (free_map s) = Inr (f, g)"
    and s': "free_map s' = (if hi < g
        then omap_put hi g (if f < lo then omap_put f lo (free_map s) else omap_erase f (free_map s))
        else (if f < lo then omap_put f lo (free_map s) else omap_erase f (free_map s)))"
    by (auto simp: allocate_range_def Let_def split: if_splits sum.splits)
  note found = find_fit_range_found [OF free(1) fg, simplified]
  have segs': "segs (free_map s')" using allocate_range_ok(1) [OF assms(1,2,4)] by (simp add: pm_inv_def)
  have set': "set (free_map s') \<subseteq> {q \<in> set (free_map s). fst q \<noteq> f} \<union> {(f, lo), (hi, g)}"
    using s' free(2) by (auto simp: set_omap_put set_omap_erase split: if_splits)
  have away: "\<not> (f \<le> fst q \<and> snd q \<le> g)" if "q \<in> set (free_map s)" "fst q \<noteq> f" for q
    using that segs_before [OF free(1) found(1) that(1)] segs_lt [OF free(1) that(1)] by fastforce
  show ?thesis
  proof (rule pieces_coalesced [OF free(1) assms(3) found(1) segs'])
    fix q assume "q \<in> set (free_map s')"
    with set' found(2,3) assms(2)
    show "q \<in> set (free_map s) \<and> q \<noteq> (f, g) \<or> f \<le> fst q \<and> snd q \<le> g" by auto
  next
    fix p q assume pq: "p \<in> set (free_map s')" "q \<in> set (free_map s')"
      "f \<le> fst p" "snd p \<le> g" "f \<le> fst q" "snd q \<le> g"
    then have "p \<in> {(f, lo), (hi, g)}" "q \<in> {(f, lo), (hi, g)}" using set' away by blast+
    moreover have "fst p < snd p" "fst q < snd q" using pq segs_lt [OF segs'] by auto
    ultimately show "snd p \<noteq> fst q" using found(2,3) assms(2) by auto
  qed
qed

text \<open>
  A release that does not merge to the right, or merges with the topmost free segment,
  keeps the free map coalesced.
\<close>

lemma left_neighbour:
  assumes "segs m" "p \<notin> ports m" "q \<in> set m" "snd q = p"
  shows "upper_bound p m \<noteq> 0 \<and> m ! (upper_bound p m - 1) = q"
proof -
  have ok: "okeys m" using assms(1) by (rule segs_okeys)
  have qp: "fst q < p" using segs_lt [OF assms(1,3)] assms(4) by simp
  then have ub: "upper_bound p m \<noteq> 0" using upper_bound_first [OF ok _ assms(3)] by fastforce
  let ?e = "m ! (upper_bound p m - 1)"
  note e = upper_bound_prev [OF ok ub]
  have "fst q \<le> fst ?e" using e(3) [OF assms(3)] qp by simp
  moreover have "\<not> fst q < fst ?e"
  proof
    assume "fst q < fst ?e"
    then have "p \<le> fst ?e" using segs_before [OF assms(1,3) e(1)] assms(4) by simp
    with e(2) have "fst ?e = p" by simp
    with assms(1,2) e(1) show False using seg_start_in_ports by metis
  qed
  ultimately have "fst ?e = fst q" by simp
  then have "?e = q" using okeys_unique [OF ok] e(1) assms(3) by (metis prod.collapse)
  with ub show ?thesis by simp
qed

lemma no_right_neighbour:
  assumes "segs m" "p < r" "{p..<r} \<inter> ports m = {}" "r \<in> fst ` set m"
  shows "upper_bound p m \<noteq> length m \<and> fst (m ! upper_bound p m) = r"
proof -
  have ok: "okeys m" using assms(1) by (rule segs_okeys)
  obtain q where q: "q \<in> set m" "fst q = r" using assms(4) by auto
  have ne: "upper_bound p m \<noteq> length m"
    using upper_bound_end [OF ok _ q(1)] q(2) assms(2) by fastforce
  then have i: "upper_bound p m < length m" by (simp add: order.not_eq_order_implies_strict)
  note n = upper_bound_next [OF ok i]
  have "fst (m ! upper_bound p m) \<le> r" using n(3) [OF q(1)] q(2) assms(2) by simp
  moreover have "fst (m ! upper_bound p m) \<notin> {p..<r}"
    using assms(1,3) n(1) seg_start_in_ports by blast
  ultimately show ?thesis using ne n(2) by auto
qed

lemma deallocate_coalesced:
  assumes inv: "pm_inv s" and co: "coalesced (free_map s)" and d: "deallocate p s = Inr s'"
    and seg: "(p, r) \<in> set (allocated s)"
    and edge: "r \<notin> fst ` set (free_map s) \<or> (\<forall>q \<in> set (free_map s). fst q \<le> r)"
  shows "coalesced (free_map s')"
proof -
  let ?m = "free_map s"
  have free: "segs ?m" "segs (allocated s)" "ports ?m \<inter> ports (allocated s) = {}"
    using inv by (auto simp: pm_inv_def)
  have ok: "okeys ?m" using free(1) by (rule segs_okeys)
  have "p < r" using segs_lt [OF free(2) seg] by simp
  have dis: "{p..<r} \<inter> ports ?m = {}" using seg_in_ports [OF seg] free(3) by blast
  then have np: "p \<notin> ports ?m" using \<open>p < r\<close> by auto
  have "map_of (allocated s) p = Some r"
    using seg by (simp add: okeys_map_of [OF segs_okeys [OF free(2)]])
  with d obtain r' m i where mr: "merge_right r (upper_bound p ?m) ?m = (r', m, i)"
    and s': "free_map s' = merge_left p r' i m"
    by (auto simp: deallocate_def split: prod.splits)
  note mro = merge_right_ok [OF free(1) \<open>p < r\<close> dis mr]
  have sub: "set m \<subseteq> set ?m"
    using mr ok by (auto simp: merge_right_def Let_def set_omap_erase split: if_splits)
  then have com: "coalesced m" using co mro(1) free(1) by (auto simp: coalesced_iff subset_eq)
  have "r' \<notin> fst ` set m \<and> (\<forall>q \<in> set m. snd q = p \<longrightarrow> i \<noteq> 0 \<and> m ! (i - 1) = q)"
  proof (cases "r \<in> fst ` set ?m")
    case False
    then have "merge_right r (upper_bound p ?m) ?m = (r, ?m, upper_bound p ?m)"
      by (auto simp: merge_right_def image_iff dest!: order.not_eq_order_implies_strict [OF _ upper_bound_le]
          intro: nth_mem)
    with mr False left_neighbour [OF free(1) np] show ?thesis by auto
  next
    case True
    with edge have last: "\<forall>q \<in> set ?m. fst q \<le> r" by simp
    from no_right_neighbour [OF free(1) \<open>p < r\<close> dis True]
    have nr: "upper_bound p ?m \<noteq> length ?m" "fst (?m ! upper_bound p ?m) = r" by auto
    then have m: "m = omap_erase r ?m" "i = length m" "r' = snd (?m ! upper_bound p ?m)"
      using mr ok by (auto simp: merge_right_def Let_def set_omap_erase intro!: omap_find_absent)
    have "?m ! upper_bound p ?m \<in> set ?m"
      using nr(1) by (simp add: order.not_eq_order_implies_strict)
    then have r': "r < r'" using segs_lt [OF free(1)] nr(2) m(3) by metis
    have low: "fst q < p" if "q \<in> set m" for q
    proof -
      have "fst q \<in> ports ?m" "fst q < r"
        using that m(1) last free(1) ok by (auto simp: set_omap_erase seg_start_in_ports order.order_iff_strict)
      moreover from this dis have "fst q \<notin> {p..<r}" by blast
      ultimately show ?thesis by auto
    qed
    then have "upper_bound p m = length m"
      using upper_bound_next(2) [OF segs_okeys [OF mro(1)], of p] upper_bound_next(1) [OF segs_okeys [OF mro(1)], of p]
      by (meson le_neq_implies_less less_asym upper_bound_le)
    moreover have "p \<notin> ports m" using mro(2,3) by auto
    ultimately have "\<forall>q \<in> set m. snd q = p \<longrightarrow> i \<noteq> 0 \<and> m ! (i - 1) = q"
      using left_neighbour [OF mro(1)] m(2) by metis
    moreover have "r' \<notin> fst ` set m" using last r' sub by fastforce
    ultimately show ?thesis by blast
  qed
  then show ?thesis
    unfolding s' using merge_left_coalesced [OF mro(1) com mro(2,3,5)] by blast
qed

end
