(* ===== verification/Port_Lease.thy ===== *)
theory Port_Lease
  imports Port_Manager
begin

text \<open>
  The port manager seen by its callers: the contract of a service that leases port ranges
  (locale \<open>lease_service\<close>), its interpretation on \<open>PortManager\<close>, the reachable states of a
  manager, and the properties of include/port_manager.h.
\<close>

section \<open>Definitions\<close>

text \<open>A call of one of the two overloads of \<open>allocate\<close>.\<close>

datatype port_req = Any_range u32 | Exact_range u32 u32

fun valid_req :: "port_req \<Rightarrow> bool" where
  "valid_req (Any_range cnt) \<longleftrightarrow> 0 < cnt"
| "valid_req (Exact_range lo hi) \<longleftrightarrow> lo < hi"

fun pm_grant :: "port_req \<Rightarrow> port_manager \<Rightarrow> fault + (port_manager \<times> port_pair)" where
  "pm_grant (Any_range cnt) s = allocate_cnt cnt s"
| "pm_grant (Exact_range lo hi) s = allocate_range lo hi s"

definition leases :: "port_manager \<Rightarrow> port_pair set" where
  "leases s = set (allocated s)"

text \<open>
  The states a manager for \<open>[low, high)\<close> goes through.  A call that throws leaves the
  state as it is, so only the successful calls are steps.
\<close>

inductive pm_reachable :: "u32 \<Rightarrow> u32 \<Rightarrow> port_manager \<Rightarrow> bool" for low high where
  start: "pm_reachable low high (pm_new low high)"
| grant: "pm_reachable low high s \<Longrightarrow> valid_req q \<Longrightarrow> pm_grant q s = Inr (s', p)
    \<Longrightarrow> pm_reachable low high s'"
| release: "pm_reachable low high s \<Longrightarrow> deallocate p s = Inr s' \<Longrightarrow> pm_reachable low high s'"

section \<open>The contract of a range leasing service\<close>

locale lease_service =
  fixes inv :: "'s \<Rightarrow> bool"
    and held :: "'s \<Rightarrow> port_pair set"
    and grant :: "'q \<Rightarrow> 's \<Rightarrow> fault + ('s \<times> port_pair)"
    and valid :: "'q \<Rightarrow> bool"
    and release :: "u32 \<Rightarrow> 's \<Rightarrow> fault + 's"
  assumes grant_keeps: "inv s \<Longrightarrow> valid q \<Longrightarrow> grant q s = Inr (s', p)
      \<Longrightarrow> inv s' \<and> held s' = insert p (held s) \<and> p \<notin> held s"
    and release_keeps: "inv s \<Longrightarrow> release k s = Inr s'
      \<Longrightarrow> inv s' \<and> (\<exists>r. (k, r) \<in> held s \<and> held s' = held s - {(k, r)})"
    and release_total: "inv s \<Longrightarrow> (k, r) \<in> held s \<Longrightarrow> \<exists>s'. release k s = Inr s'"
    and held_disjoint: "inv s \<Longrightarrow> p \<in> held s \<Longrightarrow> p' \<in> held s \<Longrightarrow> p \<noteq> p'
      \<Longrightarrow> {fst p..<snd p} \<inter> {fst p'..<snd p'} = {}"
    and held_nonempty: "inv s \<Longrightarrow> p \<in> held s \<Longrightarrow> fst p < snd p"
begin

lemma grant_disjoint:
  assumes "inv s" "valid q" "grant q s = Inr (s', p)" "p' \<in> held s"
  shows "{fst p..<snd p} \<inter> {fst p'..<snd p'} = {}"
  using grant_keeps [OF assms(1-3)] assms(4) held_disjoint [of s' p p'] by auto

lemma held_start_unique:
  assumes "inv s" "(k, r) \<in> held s" "(k, r') \<in> held s"
  shows "r = r'"
proof (rule ccontr)
  assume "r \<noteq> r'"
  then have "{k..<r} \<inter> {k..<r'} = {}" using held_disjoint [OF assms] by simp
  moreover have "k < r" "k < r'" using assms held_nonempty by fastforce+
  ultimately show False by fastforce
qed

lemma grant_then_release:
  assumes "inv s" "valid q" "grant q s = Inr (s', p)"
  shows "\<exists>s''. release (fst p) s' = Inr s'' \<and> inv s'' \<and> held s'' = held s"
proof -
  note g = grant_keeps [OF assms]
  then obtain s'' where s'': "release (fst p) s' = Inr s''"
    using release_total [of s' "fst p" "snd p"] by auto
  then obtain r where r: "inv s''" "(fst p, r) \<in> held s'" "held s'' = held s' - {(fst p, r)}"
    using release_keeps g by blast
  have "r = snd p" using held_start_unique [of s' "fst p" r "snd p"] g r(2) by simp
  with r(3) g have "held s'' = held s" by auto
  with s'' r(1) show ?thesis by blast
qed

lemma release_twice_fails:
  assumes "inv s" "release k s = Inr s'"
  shows "\<exists>e. release k s' = Inl e"
proof -
  obtain r where r: "inv s'" "(k, r) \<in> held s" "held s' = held s - {(k, r)}"
    using release_keeps [OF assms] by blast
  have "(k, r') \<notin> held s'" for r'
    using held_start_unique [OF assms(1) r(2)] r(3) by blast
  then have "release k s' \<noteq> Inr s''" for s''
    using release_keeps [OF r(1)] by blast
  then show ?thesis by (cases "release k s'") auto
qed

end

lemma took_fresh:
  assumes "pm_inv s" "took s p s'"
  shows "p \<notin> leases s"
proof
  assume "p \<in> leases s"
  then have "fst p \<in> ports (allocated s)"
    using assms(1) by (auto simp: leases_def pm_inv_def intro: seg_start_in_ports)
  moreover have "fst p \<in> ports (free_map s)" using assms(2) by (auto simp: took_def)
  ultimately show False using assms(1) by (auto simp: pm_inv_def)
qed

lemma pm_grant_ok:
  assumes "pm_inv s" "valid_req q" "pm_grant q s = Inr (s', p)"
  shows "pm_inv s'" "took s p s'"
proof -
  have "pm_inv s' \<and> took s p s'"
  proof (cases q)
    case (Any_range cnt)
    with assms show ?thesis using allocate_cnt_ok(1,2) [of s cnt s' p] by simp
  next
    case (Exact_range lo hi)
    with assms show ?thesis using allocate_range_ok(1,2) [of s lo hi s' p] by simp
  qed
  then show "pm_inv s'" "took s p s'" by auto
qed

lemma lease_disjoint:
  assumes "segs m" "p \<in> set m" "q \<in> set m" "p \<noteq> q"
  shows "{fst p..<snd p} \<inter> {fst q..<snd q} = {}"
proof -
  have "x \<notin> {fst q..<snd q}" if "x \<in> {fst p..<snd p}" for x
    using that segs_same [OF assms(1-3), of x] assms(4) by auto
  then show ?thesis by blast
qed

interpretation pm: lease_service pm_inv leases pm_grant valid_req deallocate
proof
  fix s q s' p
  assume g: "pm_inv s" "valid_req q" "pm_grant q s = Inr (s', p)"
  note ok = pm_grant_ok [OF this]
  show "pm_inv s' \<and> leases s' = insert p (leases s) \<and> p \<notin> leases s"
    using ok took_fresh [OF g(1) ok(2)] by (auto simp: took_def leases_def)
next
  fix s k s' assume "pm_inv s" "deallocate k s = Inr s'"
  then show "pm_inv s' \<and> (\<exists>r. (k, r) \<in> leases s \<and> leases s' = leases s - {(k, r)})"
    using deallocate_ok [of s k s'] by (auto simp: gave_def leases_def)
next
  fix s k r assume "pm_inv s" "(k, r) \<in> leases s"
  then show "\<exists>s'. deallocate k s = Inr s'"
    using deallocate_fails [of k s] by (cases "deallocate k s") (force simp: leases_def)+
next
  fix s p q assume "pm_inv s" "p \<in> leases s" "q \<in> leases s" "p \<noteq> q"
  then show "{fst p..<snd p} \<inter> {fst q..<snd q} = {}"
    unfolding pm_inv_def leases_def by (intro lease_disjoint) auto
next
  fix s p assume "pm_inv s" "p \<in> leases s"
  then show "fst p < snd p" by (auto simp: pm_inv_def leases_def intro: segs_lt)
qed

lemma pm_reachable_inv: "pm_reachable low high s \<Longrightarrow> low < high \<Longrightarrow> pm_inv s"
  by (induction rule: pm_reachable.induct) (auto simp: pm_inv_new dest: pm_grant_ok pm.release_keeps)

lemma pm_reachable_bounds:
  "pm_reachable low high s \<Longrightarrow> low < high \<Longrightarrow> port_low s = low \<and> port_high s = high"
proof (induction rule: pm_reachable.induct)
  case start
  then show ?case by (simp add: pm_new_def)
next
  case (grant s q s' p)
  then show ?case using pm_grant_ok(2) [of s q s' p] pm_reachable_inv by (simp add: took_def)
next
  case (release s p s')
  then show ?case using deallocate_ok(2) [of s p s'] pm_reachable_inv by (auto simp: gave_def)
qed

section \<open>Properties\<close>



text \<open>
  C2.  \<open>allocate(cnt)\<close> for a positive count throws exactly when every free segment is
  shorter than \<open>cnt\<close>; otherwise it returns a segment of exactly \<open>cnt\<close> ports, all of them
  free before, which moves from the free to the allocated side while every other lease
  and every other free port stays as it was.
\<close>

theorem allocate_cnt_correct:
  assumes "pm_inv s" "0 < cnt"
  shows "case allocate_cnt cnt s of
      Inl e \<Rightarrow> e = throw_full \<and> (\<forall>p \<in> set (free_map s). snd p - fst p < cnt)
    | Inr (s', p) \<Rightarrow> snd p - fst p = cnt \<and> fst p < snd p
        \<and> (\<exists>q \<in> set (free_map s). cnt \<le> snd q - fst q)
        \<and> {fst p..<snd p} \<subseteq> ports (free_map s)
        \<and> ports (free_map s') = ports (free_map s) - {fst p..<snd p}
        \<and> leases s' = insert p (leases s) \<and> pm_inv s'"
proof (cases "allocate_cnt cnt s")
  case (Inl e)
  then have "e = throw_full" by (auto simp: allocate_cnt_def Let_def split: if_splits)
  with Inl allocate_cnt_full [OF assms(1), of cnt] show ?thesis by auto
next
  case (Inr b)
  obtain s' p where b: "b = (s', p)" by (rule prod.exhaust)
  with Inr have "allocate_cnt cnt s = Inr (s', p)" by simp
  note ok = allocate_cnt_ok [OF assms this]
  have "\<not> (\<forall>q \<in> set (free_map s). snd q - fst q < cnt)"
    using Inr allocate_cnt_full [OF assms(1), of cnt] by simp
  then show ?thesis
    using Inr b ok by (auto simp: took_def leases_def not_less)
qed

theorem allocate_cnt_correct_witness:
  "allocate_cnt 100 pm_default
     = Inr (\<lparr>port_low = 1, port_high = 65535, free_map = [(1, 65435)], allocated = [(65435, 65535)]\<rparr>,
            (65435, 65535))
   \<and> pm_inv \<lparr>port_low = 1, port_high = 65535, free_map = [(1, 65435)], allocated = [(65435, 65535)]\<rparr>"
proof -
  have ev: "allocate_cnt 100 pm_default
     = Inr (\<lparr>port_low = 1, port_high = 65535, free_map = [(1, 65435)], allocated = [(65435, 65535)]\<rparr>,
            (65435, 65535))"
    by (simp add: allocate_cnt_def pm_default_def pm_new_def Let_def)
  moreover have "pm_inv pm_default" by (simp add: pm_default_def pm_inv_new)
  ultimately show ?thesis using allocate_cnt_correct [of pm_default 100] by simp
qed





text \<open>
  C29.  The two queries answer what their comments promise: \<open>is_allocated(p)\<close> holds for
  exactly the ports of allocated segments, and \<open>is_allocated(l, h)\<close> for exactly the
  non-empty ranges that share a port with one.
\<close>

theorem is_allocated_correct:
  assumes "pm_inv s"
  shows "(is_allocated_port p s \<longleftrightarrow> (\<exists>q \<in> leases s. fst q \<le> p \<and> p < snd q))
    \<and> (l < h \<longrightarrow> (is_allocated_range l h s \<longleftrightarrow> {l..<h} \<inter> (\<Union>q \<in> leases s. {fst q..<snd q}) \<noteq> {}))"
proof -
  have segs: "segs (allocated s)" using assms by (simp add: pm_inv_def)
  have un: "(\<Union>q \<in> leases s. {fst q..<snd q}) = ports (allocated s)"
    by (simp add: ports_def leases_def)
  have "p \<in> ports (allocated s) \<longleftrightarrow> (\<exists>q \<in> leases s. fst q \<le> p \<and> p < snd q)"
    by (auto simp: ports_def leases_def)
  then show ?thesis
    unfolding un using is_allocated_port_iff [OF segs] is_allocated_range_iff [OF segs] by blast
qed

theorem is_allocated_correct_witness:
  "\<not> is_allocated_port 7 (pm_new 1 100) \<and> \<not> is_allocated_range 7 9 (pm_new 1 100)"
  using is_allocated_correct [of "pm_new 1 100" 7 7 9, OF pm_inv_new]
  by (simp add: leases_def pm_new_def)



text \<open>
  A release keeps the free segments coalesced when the freed segment has no free
  right neighbour, or that neighbour is the topmost free segment.
\<close>

theorem release_coalesced:
  assumes "pm_inv s" "coalesced (free_map s)" "deallocate p s = Inr s'" "(p, r) \<in> leases s"
    and "r \<notin> fst ` set (free_map s) \<or> (\<forall>q \<in> set (free_map s). fst q \<le> r)"
  shows "coalesced (free_map s')"
  using assms by (intro deallocate_coalesced [of s p s' r]) (auto simp: leases_def)

theorem release_coalesced_witness:
  "deallocate 10 \<lparr>port_low = 1, port_high = 101, free_map = [(1, 10), (20, 101)], allocated = [(10, 20)]\<rparr>
     = Inr \<lparr>port_low = 1, port_high = 101, free_map = [(1, 101)], allocated = []\<rparr>
   \<and> coalesced (free_map \<lparr>port_low = 1, port_high = 101, free_map = [(1, 101)], allocated = []\<rparr>)"
proof -
  let ?s = "\<lparr>port_low = 1, port_high = 101, free_map = [(1, 10), (20, 101)], allocated = [(10, 20)]\<rparr>"
  let ?t = "\<lparr>port_low = 1, port_high = 101, free_map = [(1, 101)], allocated = []\<rparr>"
  have ev: "deallocate 10 ?s = Inr ?t"
    by (simp add: deallocate_def merge_right_def merge_left_def)
  have "allocate_range 10 20 (pm_new 1 101) = Inr (?s, (10, 20))"
    by (simp add: allocate_range_def pm_new_def find_fit_range_def is_allocated_range_def)
  then have "pm_inv ?s" using allocate_range_ok(1) [OF pm_inv_new, of 1 101 10 20] by simp
  then show ?thesis using ev release_coalesced [OF _ _ ev, of 20] by (simp add: leases_def)
qed

text \<open>
  The condition of the previous property is needed.  Freeing \<open>[10, 20)\<close> between the
  free segments \<open>[1, 10)\<close> and \<open>[20, 30)\<close> while \<open>[40, 101)\<close> is free merges to the right,
  looks the erased key up again, and takes the topmost free segment for the left neighbour:
  \<open>[1, 10)\<close> and \<open>[10, 30)\<close> stay apart.  The range \<open>[5, 15)\<close> is then free and inside the
  managed range, but allocating it raises the internal consistency error.
\<close>

theorem release_misses_left_merge:
  "\<exists>s. pm_reachable 1 101 s
     \<and> \<not> is_allocated_range 5 15 s \<and> {5..<15} \<subseteq> ports (free_map s)
     \<and> allocate_range 5 15 s
         = Inl (throw_bug ''consistency broken: target segment must include given range'')"
proof -
  let ?s1 = "\<lparr>port_low = 1, port_high = 101, free_map = [(1, 10), (20, 101)], allocated = [(10, 20)]\<rparr>"
  let ?s2 = "\<lparr>port_low = 1, port_high = 101, free_map = [(1, 10), (20, 30), (40, 101)],
    allocated = [(10, 20), (30, 40)]\<rparr>"
  let ?s3 = "\<lparr>port_low = 1, port_high = 101, free_map = [(1, 10), (10, 30), (40, 101)],
    allocated = [(30, 40)]\<rparr>"
  have 1: "pm_grant (Exact_range 10 20) (pm_new 1 101) = Inr (?s1, (10, 20))"
    by (simp add: allocate_range_def pm_new_def find_fit_range_def is_allocated_range_def)
  have 2: "pm_grant (Exact_range 30 40) ?s1 = Inr (?s2, (30, 40))"
    by (simp add: allocate_range_def find_fit_range_def is_allocated_range_def)
  have 3: "deallocate 10 ?s2 = Inr ?s3"
    by (simp add: deallocate_def merge_right_def merge_left_def)
  have "pm_reachable 1 101 ?s1" by (rule pm_reachable.grant [OF pm_reachable.start _ 1]) simp
  then have "pm_reachable 1 101 ?s2" by (rule pm_reachable.grant [OF _ _ 2]) simp
  then have "pm_reachable 1 101 ?s3" using 3 by (rule pm_reachable.release)
  moreover have "{5..<15} \<subseteq> ports (free_map ?s3)"
  proof
    fix x :: u32 assume "x \<in> {5..<15}"
    then have "5 \<le> x" "x < 15" by auto
    then have "1 \<le> x" "x < 30" using order_trans [of 1 5 x] less_trans [of x 15 30] by auto
    then show "x \<in> ports (free_map ?s3)" by auto
  qed
  moreover have "\<not> is_allocated_range 5 15 ?s3" by (simp add: is_allocated_range_def)
  moreover have "allocate_range 5 15 ?s3
      = Inl (throw_bug ''consistency broken: target segment must include given range'')"
    by (simp add: allocate_range_def is_allocated_range_def find_fit_range_def)
  ultimately show ?thesis by blast
qed

text \<open>
  The arguments the guards of the other properties exclude do break the allocator:
  \<open>allocate(0)\<close> overwrites the allocated segment above the free one it finds, so its ports
  are neither free nor allocated any more, and \<open>allocate(50, 20)\<close> makes the free segments
  overlap, after which two calls of \<open>allocate\<close> hand out common ports.
\<close>

theorem allocate_unguarded_arguments:
  "(\<exists>s s'. pm_reachable 1 101 s \<and> is_allocated_port 95 s
      \<and> allocate_cnt 0 s = Inr (s', (91, 91))
      \<and> \<not> is_allocated_port 95 s' \<and> 95 \<notin> ports (free_map s'))
   \<and> (\<exists>s1 s2 s3. allocate_range 50 20 (pm_new 1 101) = Inr (s1, (50, 20))
      \<and> allocate_cnt 81 s1 = Inr (s2, (20, 101))
      \<and> allocate_cnt 49 s2 = Inr (s3, (1, 50)))"
proof
  let ?s = "\<lparr>port_low = 1, port_high = 101, free_map = [(1, 91)], allocated = [(91, 101)]\<rparr>"
  let ?t = "\<lparr>port_low = 1, port_high = 101, free_map = [(1, 91)], allocated = [(91, 91)]\<rparr>"
  have 1: "pm_grant (Any_range 10) (pm_new 1 101) = Inr (?s, (91, 101))"
    by (simp add: allocate_cnt_def pm_new_def)
  have "pm_reachable 1 101 ?s" by (rule pm_reachable.grant [OF pm_reachable.start _ 1]) simp
  moreover have "is_allocated_port 95 ?s" "\<not> is_allocated_port 95 ?t"
    by (simp_all add: is_allocated_port_def)
  moreover have "allocate_cnt 0 ?s = Inr (?t, (91, 91))" by (simp add: allocate_cnt_def)
  moreover have "95 \<notin> ports (free_map ?t)" by simp
  ultimately show "\<exists>s s'. pm_reachable 1 101 s \<and> is_allocated_port 95 s
      \<and> allocate_cnt 0 s = Inr (s', (91, 91))
      \<and> \<not> is_allocated_port 95 s' \<and> 95 \<notin> ports (free_map s')" by blast
next
  let ?s1 = "\<lparr>port_low = 1, port_high = 101, free_map = [(1, 50), (20, 101)], allocated = [(50, 20)]\<rparr>"
  let ?s2 = "\<lparr>port_low = 1, port_high = 101, free_map = [(1, 50)], allocated = [(20, 101), (50, 20)]\<rparr>"
  let ?s3 = "\<lparr>port_low = 1, port_high = 101, free_map = [], allocated = [(1, 50), (20, 101), (50, 20)]\<rparr>"
  have "allocate_range 50 20 (pm_new 1 101) = Inr (?s1, (50, 20))"
    by (simp add: allocate_range_def pm_new_def find_fit_range_def is_allocated_range_def)
  moreover have "allocate_cnt 81 ?s1 = Inr (?s2, (20, 101))" by (simp add: allocate_cnt_def Let_def)
  moreover have "allocate_cnt 49 ?s2 = Inr (?s3, (1, 50))" by (simp add: allocate_cnt_def Let_def)
  ultimately show "\<exists>s1 s2 s3. allocate_range 50 20 (pm_new 1 101) = Inr (s1, (50, 20))
      \<and> allocate_cnt 81 s1 = Inr (s2, (20, 101))
      \<and> allocate_cnt 49 s2 = Inr (s3, (1, 50))" by blast
qed

end
