(* ===== verification/Serialization.thy ===== *)
theory Serialization
  imports Prelude
begin

text \<open>
  The JSON forms of server/serialization.cc for principals, images and access-controlled
  objects (include/principal.h, include/image.h, include/accessor_object.h), and the number
  conversions \<open>itoa\<close> and \<open>atoi\<close> of include/utils.h they use.  The JSON library contributes its
  value type; the text parser is an argument.
\<close>

section \<open>Numbers as text\<close>

definition nibble :: "nat \<Rightarrow> char" where
  "nibble d = (if d < 10 then char_of (48 + d) else char_of (87 + d))"

definition hex_val :: "char \<Rightarrow> nat option" where
  "hex_val c =
     (let k = of_char c :: nat in
      if 48 \<le> k \<and> k < 58 then Some (k - 48)
      else if 97 \<le> k \<and> k < 103 then Some (k - 87)
      else if 65 \<le> k \<and> k < 71 then Some (k - 55)
      else None)"

definition digit_in :: "nat \<Rightarrow> char \<Rightarrow> bool" where
  "digit_in b c = (case hex_val c of Some d \<Rightarrow> d < b | None \<Rightarrow> False)"

fun show_base :: "nat \<Rightarrow> nat \<Rightarrow> string" where
  "show_base b n =
     (if b < 2 \<or> n < b then [nibble (n mod 16)] else show_base b (n div b) @ [nibble (n mod b)])"

declare show_base.simps [simp del]

definition value_of :: "nat \<Rightarrow> string \<Rightarrow> nat" where
  "value_of b s = foldl (\<lambda>a c. b * a + (case hex_val c of Some d \<Rightarrow> d | None \<Rightarrow> 0)) 0 s"

text \<open>\<open>itoa\<close> with \<open>showbase\<close>: hexadecimal output has the prefix 0x, except for zero.\<close>

definition itoa_dec :: "nat \<Rightarrow> string" where
  "itoa_dec n = show_base 10 n"

definition itoa_hex :: "nat \<Rightarrow> string" where
  "itoa_hex n = (if n = 0 then ''0'' else ''0x'' @ show_base 16 n)"

definition format_principal_id :: "64 word \<Rightarrow> string" where
  "format_principal_id pid = itoa_hex (unat pid)"

text \<open>
  \<open>atoi\<close>: stream extraction of an unsigned number of \<open>bits\<close> bits with \<open>setbase(0)\<close>, where the
  prefix selects the base and what follows the digits is left unread; a missing digit or an
  overflow sets \<open>failbit\<close>, which throws.
\<close>

definition split_sign :: "string \<Rightarrow> bool \<times> string" where
  "split_sign s =
     (case s of
        [] \<Rightarrow> (False, s)
      | c # r \<Rightarrow> if c = CHR ''-'' then (True, r) else if c = CHR ''+'' then (False, r) else (False, s))"

definition split_base :: "string \<Rightarrow> nat \<times> string" where
  "split_base s =
     (case s of
        [] \<Rightarrow> (10, s)
      | z # r \<Rightarrow>
          if z \<noteq> CHR ''0'' then (10, s)
          else (case r of
                  x # r' \<Rightarrow> if x = CHR ''x'' \<or> x = CHR ''X'' then (16, r') else (8, s)
                | [] \<Rightarrow> (8, s)))"

definition atoi :: "nat \<Rightarrow> string \<Rightarrow> fault + nat" where
  "atoi bits s =
     (let (neg, s1) = split_sign (dropWhile is_space s);
          (b, s2) = split_base s1;
          ds = takeWhile (digit_in b) s2;
          v = value_of b ds
      in if ds = [] then Inl Ios_failure
         else if v \<ge> 2 ^ bits then Inl Ios_failure
         else Inr (if neg then (2 ^ bits - v) mod 2 ^ bits else v))"

section \<open>JSON values\<close>

text \<open>
  \<open>p["k"]\<close> on an object gives the member, or null when there is none; on a value that is
  neither null nor an object it throws, and so does \<open>as_string\<close> on anything but a string.
\<close>

datatype json = J_null | J_string string | J_array "json list" | J_object "(string \<times> json) list" | J_other

definition member :: "json \<Rightarrow> string \<Rightarrow> fault + json" where
  "member v k =
     (case v of
        J_object fs \<Rightarrow> Inr (case map_of fs k of Some x \<Rightarrow> x | None \<Rightarrow> J_null)
      | J_null \<Rightarrow> Inr J_null
      | _ \<Rightarrow> Inl (Json_exception ''not an object''))"

definition as_string :: "json \<Rightarrow> fault + string" where
  "as_string v = (case v of J_string s \<Rightarrow> Inr s | _ \<Rightarrow> Inl (Json_exception ''not a string''))"

definition as_array :: "json \<Rightarrow> fault + json list" where
  "as_array v = (case v of J_array xs \<Rightarrow> Inr xs | _ \<Rightarrow> Inl (Json_exception ''not an array''))"

definition bind_result :: "fault + 'a \<Rightarrow> ('a \<Rightarrow> fault + 'b) \<Rightarrow> fault + 'b" where
  "bind_result r f = (case r of Inl e \<Rightarrow> Inl e | Inr a \<Rightarrow> f a)"

lemma bind_result_simps [simp]: "bind_result (Inr a) f = f a" "bind_result (Inl e) f = Inl e"
  by (simp_all add: bind_result_def)

definition string_member :: "json \<Rightarrow> string \<Rightarrow> fault + string" where
  "string_member v k = bind_result (member v k) as_string"

section \<open>Principal\<close>

record legacy_principal =
  lp_id :: u64
  lp_lo :: u32
  lp_hi :: u32
  lp_image :: string
  lp_configs :: string
  lp_bearer :: string

text \<open>The constructor takes the ports as \<open>int\<close> and stores them as 32-bit words.\<close>

definition principal_new :: "u64 \<Rightarrow> int \<Rightarrow> int \<Rightarrow> string \<Rightarrow> string \<Rightarrow> string \<Rightarrow> legacy_principal" where
  "principal_new ident lo hi img configs bearer =
     \<lparr>lp_id = ident, lp_lo = word_of_int lo, lp_hi = word_of_int hi, lp_image = img,
      lp_configs = configs, lp_bearer = bearer\<rparr>"

lemma principal_new_ports [simp]:
  "principal_new ident (sint lo) (sint hi) img configs bearer =
     \<lparr>lp_id = ident, lp_lo = lo, lp_hi = hi, lp_image = img, lp_configs = configs, lp_bearer = bearer\<rparr>"
  by (simp add: principal_new_def)

text \<open>
  The move constructor and assignment: the new object, and the object moved from, which keeps its
  numbers and whose strings have whatever values the string library leaves.
\<close>

definition principal_move :: "(string \<Rightarrow> string) \<Rightarrow> legacy_principal \<Rightarrow> legacy_principal \<times> legacy_principal" where
  "principal_move moved other =
     (\<lparr>lp_id = lp_id other, lp_lo = lp_lo other, lp_hi = lp_hi other, lp_image = lp_image other,
       lp_configs = lp_configs other, lp_bearer = lp_bearer other\<rparr>,
      other\<lparr>lp_image := moved (lp_image other), lp_configs := moved (lp_configs other),
        lp_bearer := moved (lp_bearer other)\<rparr>)"

definition set_bearer :: "string \<Rightarrow> legacy_principal \<Rightarrow> legacy_principal" where
  "set_bearer bearer p = p\<lparr>lp_bearer := bearer\<rparr>"

definition set_local :: "u32 \<Rightarrow> u32 \<Rightarrow> legacy_principal \<Rightarrow> legacy_principal" where
  "set_local lo hi p =
     (let p1 = (if lo > lp_lo p then p\<lparr>lp_lo := lo\<rparr> else p)
      in if hi < lp_hi p1 then p1\<lparr>lp_hi := hi\<rparr> else p1)"

definition principal_to_json :: "legacy_principal \<Rightarrow> json" where
  "principal_to_json p =
     J_object [(''id'', J_string (itoa_hex (unat (lp_id p)))),
       (''lo'', J_string (itoa_dec (unat (lp_lo p)))),
       (''hi'', J_string (itoa_dec (unat (lp_hi p)))),
       (''image'', J_string (lp_image p)), (''configs'', J_string (lp_configs p)),
       (''bearer'', J_string (lp_bearer p))]"

definition principal_from_json :: "json \<Rightarrow> fault + legacy_principal" where
  "principal_from_json p =
     bind_result (bind_result (string_member p ''id'') (atoi 64)) (\<lambda>i.
     bind_result (bind_result (string_member p ''lo'') (atoi 32)) (\<lambda>lo.
     bind_result (bind_result (string_member p ''hi'') (atoi 32)) (\<lambda>hi.
     bind_result (string_member p ''image'') (\<lambda>img.
     bind_result (string_member p ''configs'') (\<lambda>configs.
     bind_result (string_member p ''bearer'') (\<lambda>bearer.
       Inr (principal_new (of_nat i) (sint (of_nat lo :: u32)) (sint (of_nat hi :: u32)) img configs bearer)))))))"

definition principal_parse :: "(string \<Rightarrow> fault + json) \<Rightarrow> string \<Rightarrow> fault + legacy_principal" where
  "principal_parse json_parse data = bind_result (json_parse data) principal_from_json"

section \<open>Image\<close>

record Image =
  hash :: string
  url :: string
  revision :: string
  image_configs :: string

definition image_new :: "string \<Rightarrow> string \<Rightarrow> string \<Rightarrow> string \<Rightarrow> Image" where
  "image_new h u r configs = \<lparr>hash = h, url = u, revision = r, image_configs = configs\<rparr>"

definition image_move :: "(string \<Rightarrow> string) \<Rightarrow> Image \<Rightarrow> Image \<times> Image" where
  "image_move moved other =
     (\<lparr>hash = hash other, url = url other, revision = revision other, image_configs = image_configs other\<rparr>,
      \<lparr>hash = moved (hash other), url = moved (url other), revision = moved (revision other),
       image_configs = moved (image_configs other)\<rparr>)"

definition image_to_json :: "Image \<Rightarrow> json" where
  "image_to_json i =
     J_object [(''hash'', J_string (hash i)), (''url'', J_string (url i)),
       (''revision'', J_string (revision i)), (''configs'', J_string (image_configs i))]"

definition image_from_json :: "json \<Rightarrow> fault + Image" where
  "image_from_json p =
     bind_result (string_member p ''hash'') (\<lambda>h.
     bind_result (string_member p ''url'') (\<lambda>u.
     bind_result (string_member p ''revision'') (\<lambda>r.
     bind_result (string_member p ''configs'') (\<lambda>c.
       Inr (image_new h u r c)))))"

definition image_parse :: "(string \<Rightarrow> fault + json) \<Rightarrow> string \<Rightarrow> fault + Image" where
  "image_parse json_parse data = bind_result (json_parse data) image_from_json"

section \<open>AccessorObject\<close>

text \<open>The hash set of the ACLs is the list of its elements in iteration order.\<close>

record AccessorObject =
  obj_name :: string
  acls :: "string list"

definition object_new :: "string \<Rightarrow> AccessorObject" where
  "object_new name = \<lparr>obj_name = name, acls = []\<rparr>"

definition object_move ::
  "(string \<Rightarrow> string) \<Rightarrow> (string list \<Rightarrow> string list) \<Rightarrow> AccessorObject \<Rightarrow> AccessorObject \<times> AccessorObject" where
  "object_move moved moved_set other =
     (\<lparr>obj_name = obj_name other, acls = acls other\<rparr>,
      \<lparr>obj_name = moved (obj_name other), acls = moved_set (acls other)\<rparr>)"

definition add_acl :: "string \<Rightarrow> AccessorObject \<Rightarrow> AccessorObject" where
  "add_acl acl ob = (if acl \<in> set (acls ob) then ob else ob\<lparr>acls := acls ob @ [acl]\<rparr>)"

definition del_acl :: "string \<Rightarrow> AccessorObject \<Rightarrow> AccessorObject" where
  "del_acl acl ob = ob\<lparr>acls := filter (\<lambda>x. x \<noteq> acl) (acls ob)\<rparr>"

definition has_acl :: "string \<Rightarrow> AccessorObject \<Rightarrow> bool" where
  "has_acl acl ob \<longleftrightarrow> acl \<in> set (acls ob)"

definition object_to_json :: "AccessorObject \<Rightarrow> json" where
  "object_to_json ob = J_object [(''name'', J_string (obj_name ob)), (''acls'', J_array (map J_string (acls ob)))]"

fun add_acls :: "json list \<Rightarrow> AccessorObject \<Rightarrow> fault + AccessorObject" where
  "add_acls [] ob = Inr ob"
| "add_acls (a # rest) ob = bind_result (as_string a) (\<lambda>s. add_acls rest (add_acl s ob))"

definition object_from_json :: "json \<Rightarrow> fault + AccessorObject" where
  "object_from_json p =
     bind_result (bind_result (member p ''acls'') as_array) (\<lambda>xs.
     bind_result (string_member p ''name'') (\<lambda>n. add_acls xs (object_new n)))"

definition object_parse :: "(string \<Rightarrow> fault + json) \<Rightarrow> string \<Rightarrow> fault + AccessorObject" where
  "object_parse json_parse data = bind_result (json_parse data) object_from_json"

section \<open>Reading what was written\<close>

lemma hex_val_nibble: "d < 16 \<Longrightarrow> hex_val (nibble d) = Some d"
  by (auto simp: hex_val_def nibble_def Let_def)

text \<open>Positional notation in a base that the digits cover; the sources use ten and sixteen.\<close>

locale radix =
  fixes b :: nat
  assumes base: "2 \<le> b" "b \<le> 16"
begin

lemma show_small: "n < b \<Longrightarrow> show_base b n = [nibble n]"
  using base by (simp add: show_base.simps)

lemma show_large: "b \<le> n \<Longrightarrow> show_base b n = show_base b (n div b) @ [nibble (n mod b)]"
  using base by (subst show_base.simps) simp

lemma digits: "c \<in> set (show_base b n) \<Longrightarrow> digit_in b c"
proof (induction n rule: less_induct)
  case (less n)
  have d: "digit_in b (nibble d)" if "d < b" for d
    using that base by (simp add: digit_in_def hex_val_nibble)
  show ?case
  proof (cases "n < b")
    case True
    with less.prems d show ?thesis by (simp add: show_small)
  next
    case False
    with base have "n div b < n" "n mod b < b" by auto
    with less False d show ?thesis by (auto simp: show_large)
  qed
qed

lemma value_show: "value_of b (show_base b n) = n"
proof (induction n rule: less_induct)
  case (less n)
  show ?case
  proof (cases "n < b")
    case True
    with base show ?thesis by (simp add: show_small value_of_def hex_val_nibble)
  next
    case False
    with base have "n div b < n" "n mod b < 16" by (auto intro: less_le_trans [OF mod_less_divisor])
    with less.IH [OF \<open>n div b < n\<close>] False show ?thesis
      by (simp add: show_large value_of_def hex_val_nibble)
  qed
qed

lemma show_nonempty: "show_base b n \<noteq> []"
  by (subst show_base.simps) simp

lemma takeWhile_show: "takeWhile (digit_in b) (show_base b n) = show_base b n"
  using digits by simp

lemma leading_digit: "0 < n \<Longrightarrow> hd (show_base b n) \<noteq> CHR ''0''"
proof (induction n rule: less_induct)
  case (less n)
  show ?case
  proof (cases "n < b")
    case True
    have "nibble n \<noteq> CHR ''0''"
    proof
      assume "nibble n = CHR ''0''"
      then have "hex_val (nibble n) = Some 0" by (simp add: hex_val_def)
      with True base less.prems show False by (simp add: hex_val_nibble)
    qed
    with True show ?thesis by (simp add: show_small)
  next
    case False
    with base have "n div b < n" "0 < n div b" by (auto simp: div_greater_zero_iff)
    with less.IH [of "n div b"] False show ?thesis by (simp add: show_large show_nonempty)
  qed
qed

end

interpretation dec: radix 10
  by unfold_locales simp_all

interpretation hex: radix 16
  by unfold_locales simp_all

lemma digit_start:
  assumes "digit_in b c" shows "\<not> is_space c" "c \<noteq> CHR ''-''" "c \<noteq> CHR ''+''"
  using assms by (auto simp: digit_in_def hex_val_def is_space_def Let_def split: if_splits option.splits)

lemma hd_digit: "s \<noteq> [] \<Longrightarrow> (\<And>c. c \<in> set s \<Longrightarrow> digit_in b c) \<Longrightarrow>
    split_sign (dropWhile is_space s) = (False, s)"
  using digit_start [of b "hd s"] by (cases s) (simp_all add: split_sign_def)

lemma atoi_zero: "atoi bits ''0'' = Inr 0"
  by (simp add: atoi_def is_space_def split_sign_def split_base_def digit_in_def hex_val_def value_of_def)

lemma atoi_itoa_dec:
  assumes "n < 2 ^ bits" shows "atoi bits (itoa_dec n) = Inr n"
proof (cases "n = 0")
  case True
  have "show_base 10 0 = ''0''" by code_simp
  with True atoi_zero show ?thesis by (simp add: itoa_dec_def)
next
  case False
  have "split_base (show_base 10 n) = (10, show_base 10 n)"
    using dec.leading_digit [of n] dec.show_nonempty [of n] False
    by (cases "show_base 10 n") (auto simp: split_base_def)
  with assms hd_digit [OF dec.show_nonempty dec.digits, of n] show ?thesis
    by (simp add: atoi_def itoa_dec_def dec.takeWhile_show dec.value_show dec.show_nonempty)
qed

lemma atoi_itoa_hex:
  assumes "n < 2 ^ bits" shows "atoi bits (itoa_hex n) = Inr n"
proof (cases "n = 0")
  case False
  have "split_sign (dropWhile is_space (''0x'' @ s)) = (False, ''0x'' @ s)" for s
    by (simp add: split_sign_def is_space_def)
  moreover have "split_base (''0x'' @ s) = (16, s)" for s by (simp add: split_base_def)
  ultimately show ?thesis
    using assms False by (simp add: atoi_def itoa_hex_def hex.takeWhile_show hex.value_show hex.show_nonempty)
qed (simp add: itoa_hex_def atoi_zero)

lemma add_acls_strings:
  "distinct (acls ob @ xs) \<Longrightarrow> add_acls (map J_string xs) ob = Inr (ob\<lparr>acls := acls ob @ xs\<rparr>)"
  by (induction xs arbitrary: ob) (auto simp: as_string_def add_acl_def)

section \<open>Properties\<close>

text \<open>
  \<open>atoi\<close> inverts \<open>itoa\<close>: a number that fits the type is read back from its decimal and
  from its hexadecimal form, for every width.
\<close>

theorem atoi_itoa:
  assumes "n < 2 ^ bits"
  shows "atoi bits (itoa_dec n) = Inr n \<and> atoi bits (itoa_hex n) = Inr n"
  using assms atoi_itoa_dec atoi_itoa_hex by blast

theorem atoi_itoa_witness: "atoi 32 (itoa_dec 65535) = Inr 65535 \<and> atoi 32 (itoa_hex 65535) = Inr 65535"
  by (rule atoi_itoa) simp

text \<open>
  \<open>set_local\<close> can only narrow the range of a principal: the ports it leaves are the ones that
  are in the old range and in the new one.
\<close>

lemma set_local_intersects:
  "{lp_lo (set_local lo hi p) .. lp_hi (set_local lo hi p)} = {lp_lo p .. lp_hi p} \<inter> {lo .. hi}"
  by (auto simp: set_local_def Let_def)

text \<open>What is moved arrives whole, and a principal moved from keeps its identity and its ports.\<close>

lemma move_keeps:
  "fst (principal_move moved p) = p" "fst (image_move moved i) = i" "fst (object_move moved moved_set ob) = ob"
  "lp_id (snd (principal_move moved p)) = lp_id p"
  "lp_lo (snd (principal_move moved p)) = lp_lo p \<and> lp_hi (snd (principal_move moved p)) = lp_hi p"
  by (simp_all add: principal_move_def image_move_def object_move_def)

text \<open>
  C34.  Every principal, image and access-controlled object is read back from its JSON form
  exactly as it was written.
\<close>

theorem json_round_trips:
  assumes "distinct (acls ob)"
  shows "principal_from_json (principal_to_json p) = Inr p
    \<and> image_from_json (image_to_json i) = Inr i
    \<and> object_from_json (object_to_json ob) = Inr ob"
proof -
  have n: "unat (lp_id p) < 2 ^ 64" "unat (lp_lo p) < 2 ^ 32" "unat (lp_hi p) < 2 ^ 32"
    using unsigned_less [of "lp_id p"] unsigned_less [of "lp_lo p"] unsigned_less [of "lp_hi p"] by simp_all
  have "principal_from_json (principal_to_json p) = Inr p"
    using n by (simp add: principal_from_json_def principal_to_json_def string_member_def member_def as_string_def
        atoi_itoa_dec atoi_itoa_hex)
  moreover have "image_from_json (image_to_json i) = Inr i"
    by (simp add: image_from_json_def image_new_def image_to_json_def string_member_def member_def as_string_def)
  moreover have "object_from_json (object_to_json ob) = Inr ob"
    using assms by (simp add: object_from_json_def object_new_def object_to_json_def string_member_def member_def as_string_def
        as_array_def add_acls_strings)
  ultimately show ?thesis by blast
qed

theorem json_round_trips_witness:
  "object_from_json (object_to_json \<lparr>obj_name = ''test2'', acls = [''I am good'', ''ha'']\<rparr>)
     = Inr \<lparr>obj_name = ''test2'', acls = [''I am good'', ''ha'']\<rparr>"
  using json_round_trips [of "\<lparr>obj_name = ''test2'', acls = [''I am good'', ''ha'']\<rparr>"] by simp

end
