(* ===== verification/Unit_Tests.thy ===== *)
theory Unit_Tests
  imports Port_Lease Serialization Registry
begin

text \<open>
  The scenarios of the repository's own unit tests, tests/legacy-tests and tests/test-manager.cc,
  run on the model: every check of the C++ test is an equation here.
\<close>

section \<open>test_port_manager.cc\<close>

datatype port_op = Call_allocate u32 | Call_allocate_at u32 u32 | Call_deallocate u32

text \<open>The range a call returned, or \<open>None\<close> when it threw, which leaves the manager as it was.\<close>

fun port_call :: "port_op \<Rightarrow> port_manager \<Rightarrow> port_pair option \<times> port_manager" where
  "port_call (Call_allocate cnt) s =
     (case allocate_cnt cnt s of Inl _ \<Rightarrow> (None, s) | Inr (s', p) \<Rightarrow> (Some p, s'))"
| "port_call (Call_allocate_at lo hi) s =
     (case allocate_range lo hi s of Inl _ \<Rightarrow> (None, s) | Inr (s', p) \<Rightarrow> (Some p, s'))"
| "port_call (Call_deallocate p) s =
     (case deallocate p s of Inl _ \<Rightarrow> (None, s) | Inr s' \<Rightarrow> (Some (p, p), s'))"

fun port_calls :: "port_op list \<Rightarrow> port_manager \<Rightarrow> port_pair option list \<times> port_manager" where
  "port_calls [] s = ([], s)"
| "port_calls (c # cs) s =
     (case port_call c s of (r, s1) \<Rightarrow> (case port_calls cs s1 of (rs, s2) \<Rightarrow> (r # rs, s2)))"

lemma manager_init:
  "port_low pm_default = 1 \<and> port_high pm_default = 65535
   \<and> port_low (pm_new 5 1000) = 5 \<and> port_high (pm_new 5 1000) = 1000"
  by code_simp

lemma manager_allocate:
  "fst (port_calls [Call_allocate 1000, Call_allocate 1000, Call_allocate 100] (pm_new 1 2001)) =
     [Some (1001, 2001), Some (1, 1001), None]"
  by code_simp

text \<open>The size of the range, 0 for a deallocation.\<close>

abbreviation sizes :: "port_pair option list \<Rightarrow> u32 option list" where
  "sizes \<equiv> map (map_option (\<lambda>p. snd p - fst p))"

lemma manager_deallocate:
  "sizes (fst (port_calls
      ([Call_allocate 1000, Call_allocate 1000, Call_deallocate 1002, Call_deallocate 2002,
        Call_allocate 100, Call_deallocate 1001, Call_allocate 100, Call_deallocate 1]
       @ replicate 20 (Call_allocate 100)) (pm_new 1 2001))) =
     [Some 1000, Some 1000, None, None, None, Some 0, Some 100, Some 0] @ replicate 19 (Some 100) @ [None]"
  by code_simp

lemma manager_check_allocated:
  "(let (rs, m) = port_calls [Call_allocate 200, Call_allocate 200, Call_allocate 20,
                              Call_deallocate 1801, Call_deallocate 1601] (pm_new 1 2001)
    in rs ! 2 = Some (1581, 1601)
       \<and> list_all (\<lambda>i. is_allocated_port i m
            \<and> list_all (\<lambda>j. is_allocated_range i j m) [1601, 1602, 1605, 1611]
            \<and> list_all (\<lambda>j. is_allocated_range (i - j) 1601 m) [1, 2, 3, 4, 5, 6, 7, 8, 9, 10])
          [1581, 1585, 1590, 1600])"
  by code_simp

lemma manager_allocate_exact:
  "(let (rs, m) = port_calls [Call_allocate_at 1 10, Call_allocate_at 10 20, Call_allocate_at 20 30,
          Call_allocate_at 30 31, Call_allocate_at 31 32, Call_allocate_at 10 11, Call_allocate_at 31 35] (pm_new 1 2001)
    in rs = [Some (1, 10), Some (10, 20), Some (20, 30), Some (30, 31), Some (31, 32), None, None]
       \<and> is_allocated_port 1 m \<and> is_allocated_range 1 5 m \<and> is_allocated_range 1 20 m
       \<and> is_allocated_range 10 15 m \<and> is_allocated_range 10 35 m \<and> is_allocated_range 0 35 m)"
  by code_simp

lemma manager_allocate_exact_gap:
  "(let m1 = snd (port_calls [Call_allocate_at 10 20, Call_allocate_at 30 40] (pm_new 1 2001))
    in \<not> is_allocated_range 20 30 m1 \<and> is_allocated_range 20 31 m1 \<and> is_allocated_range 19 30 m1
       \<and> is_allocated_range 20 41 m1 \<and> is_allocated_range 1 15 m1 \<and> is_allocated_range 34 41 m1
       \<and> is_allocated_range 19 29 m1)"
  by code_simp

section \<open>test_serialization.cc\<close>

lemma serialize_object:
  "object_to_json (fold add_acl [''acl1'', ''acl2'', ''acl3'', ''acl1''] \<lparr>obj_name = ''test1'', acls = []\<rparr>) =
     J_object [(''name'', J_string ''test1''),
       (''acls'', J_array [J_string ''acl1'', J_string ''acl2'', J_string ''acl3''])]"
  by code_simp

lemma deserialize_object:
  "object_from_json (J_object [(''name'', J_string ''test1''), (''acls'', J_array [])])
     = Inr \<lparr>obj_name = ''test1'', acls = []\<rparr>"
  "object_from_json (J_object [(''name'', J_string ''test3''), (''acls'', J_array [J_string ''ha'', J_string ''ha''])])
     = Inr \<lparr>obj_name = ''test3'', acls = [''ha'']\<rparr>"
  by code_simp+

fun throws_json :: "fault + 'a \<Rightarrow> bool" where
  "throws_json (Inl (Json_exception _)) = True"
| "throws_json _ = False"

lemma deserialize_object_bad:
  "list_all (\<lambda>v. throws_json (object_from_json v))
     [J_object [(''name'', J_string ''test_bad1''), (''acls'', J_string '''')],
      J_object [(''name'', J_string ''test_bad2''), (''acls'', J_object [])],
      J_object [(''name'', J_string ''test_bad3'')],
      J_object [(''acls'', J_array [])]]"
  by code_simp

abbreviation image_json :: "json \<Rightarrow> json" where
  "image_json h \<equiv> J_object [(''hash'', h), (''url'', J_string ''2''), (''revision'', J_string ''3''),
     (''configs'', J_string ''4'')]"

lemma deserialize_image:
  "image_from_json (image_json (J_string ''1'')) =
     Inr \<lparr>hash = ''1'', url = ''2'', revision = ''3'', image_configs = ''4''\<rparr>"
  "list_all (\<lambda>v. throws_json (image_from_json v))
     [image_json J_other, J_object [(''url'', J_string ''2''), (''revision'', J_string ''3''), (''configs'', J_string ''4'')],
      image_json (J_array []), image_json (J_object [])]"
  by code_simp+

abbreviation principal_json :: "json \<Rightarrow> json" where
  "principal_json i \<equiv> J_object [(''id'', i), (''lo'', J_string ''100''), (''hi'', J_string ''200''),
     (''image'', J_string ''image_hash''), (''configs'', J_string ''misc''), (''bearer'', J_string ''b1'')]"

lemma serialize_principal:
  "principal_to_json (principal_new 0x123 100 200 ''image_hash'' ''config'' '''') =
     J_object [(''id'', J_string ''0x123''), (''lo'', J_string ''100''), (''hi'', J_string ''200''),
       (''image'', J_string ''image_hash''), (''configs'', J_string ''config''), (''bearer'', J_string '''')]"
  by code_simp

lemma deserialize_principal:
  "map_sum id lp_id (principal_from_json (principal_json (J_string ''123''))) = Inr 123"
  "map_sum id lp_id (principal_from_json (principal_json (J_string ''0x123''))) = Inr 0x123"
  "principal_from_json (principal_json (J_string ''bad'')) = Inl Ios_failure"
  "throws_json (principal_from_json (principal_json (J_array [])))"
  "throws_json (principal_from_json (principal_json (J_object [])))"
  by (simp_all add: principal_from_json_def string_member_def member_def as_string_def atoi_def
      split_sign_def split_base_def digit_in_def hex_val_def value_of_def is_space_def Let_def)


section \<open>test-manager.cc\<close>

abbreviation deletions :: "manager \<Rightarrow> http_request list" where
  "deletions m \<equiv> filter (\<lambda>r. uri r = ''/lazyDeleteInstance'') (posted m)"

abbreviation create_cmd :: "u64 \<Rightarrow> Command" where "create_cmd \<equiv> demo_cmd CREATE_PRINCIPAL 100 1"
abbreviation delete_cmd :: "u64 \<Rightarrow> u64 \<Rightarrow> u64 \<Rightarrow> Command" where "delete_cmd \<equiv> demo_cmd DELETE_PRINCIPAL"

text \<open>What a creation and a deletion answer and leave behind when the service confirms everything.\<close>

definition after :: "Command \<Rightarrow> manager \<Rightarrow> manager" where
  "after c m = snd (dispatch (demo_env 200) c m)"

lemma answers_step:
  "answers (demo_env 200) (c # cs) m =
     (fst (dispatch (demo_env 200) c m) # fst (answers (demo_env 200) cs (after c m)),
      snd (answers (demo_env 200) cs (after c m)))"
  by (simp add: after_def split_beta)

lemma create_step:
  "fst (dispatch (demo_env 200) (create_cmd i) m) = Inr (make_status_response True '''')"
  "next_gn (after (create_cmd i) m) = next_gn m + 1"
  "principals (after (create_cmd i) m) =
     principals m @ [(i, default_Principal\<lparr>p_id := i, p_gn := next_gn m, p_speaker := 100\<rparr>)]"
  "deletions (after (create_cmd i) m) = deletions m"
  by (simp_all add: after_def demo_eval registered_def add_principal_def format_request_def)

lemma delete_step:
  "fst (dispatch (demo_env 200) (delete_cmd pid uid i) m) =
     (case find_latest i (principals m) of
        None \<Rightarrow> Inr (make_status_response False ''latest principal not found'')
      | Some q \<Rightarrow> if p_speaker q \<noteq> pid \<and> uid \<noteq> 0
                  then Inr (make_status_response False ''privilege not matching'')
                  else Inr (make_status_response True ''''))"
  "next_gn (after (delete_cmd pid uid i) m) = next_gn m"
  "principals (after (delete_cmd pid uid i) m) =
     (case find_latest i (principals m) of
        None \<Rightarrow> principals m
      | Some q \<Rightarrow> if p_speaker q \<noteq> pid \<and> uid \<noteq> 0 then principals m else erase_range i (principals m))"
  "length (deletions (after (delete_cmd pid uid i) m)) =
     (case find_latest i (principals m) of
        None \<Rightarrow> length (deletions m)
      | Some q \<Rightarrow> if p_speaker q \<noteq> pid \<and> uid \<noteq> 0 then length (deletions m) else Suc (length (deletions m)))"
  by (simp_all add: after_def demo_eval delete_principal_def call_metadata_eq md_delete_instance_def
      erase_range_absent format_request_def split: option.split)

lemmas manager_eval =
  answers_step create_step delete_step find_latest_def erase_range_def default_Principal_def init_manager_def

lemma test_remove_principal_no_gc:
  "(let (rs, m) = answers (demo_env 200)
        [create_cmd 0, create_cmd 1, create_cmd 2, delete_cmd 101 2 0, delete_cmd 100 1 0,
         delete_cmd 101 0 1, delete_cmd 100 1 2, delete_cmd 100 1 0] init_manager
    in map (map_sum id status_int) rs = map Inr [1, 1, 1, 0, 1, 1, 1, 0] \<and> length (deletions m) = 3)"
  by (simp add: manager_eval del: answers.simps(2))

lemma test_remove_principal_gc:
  "(let (rs, m) = answers (demo_env 200)
        [create_cmd 0, create_cmd 1, create_cmd 0, create_cmd 0, delete_cmd 100 1 0,
         delete_cmd 100 1 1, delete_cmd 100 1 0, delete_cmd 100 1 0] init_manager
    in map (map_sum id status_int) rs = map Inr [1, 1, 1, 1, 1, 1, 0, 0] \<and> length (deletions m) = 2)"
  by (simp add: manager_eval del: answers.simps(2))

text \<open>
  The handlers that need a policy or an endorsement refuse a statement without one before the
  service sees anything, and pass the first one on.
\<close>

abbreviation send :: "command_type \<Rightarrow> any_msg \<Rightarrow> Command" where
  "send t stmt \<equiv> (demo_cmd t 100 1 0)\<lparr>statement := stmt\<rparr>"

abbreviation one_address :: Principal where
  "one_address \<equiv> default_Principal\<lparr>p_gn := 10010,
     p_auth := default_AuthID\<lparr>auth_ip := ''1.1.1.1'', port_lo := 100\<rparr>,
     p_code := default_CodeID\<lparr>code_config := [(LEGACY_CONFIG_KEY, ''*'')]\<rparr>\<rparr>"

lemmas handler_eval =
  demo_eval post_acl_def endorse_membership_def extract_post_acl_def extract_endorse_principal_def
  call_metadata_eq with_legacy_config_def post_object_acl_def md_endorse_membership_def format_request_def
  init_manager_def default_CodeID_def default_Principal_def default_AuthID_def

lemma test_post_object_acl:
  "(let (rs, m) = answers (demo_env 200)
        [send POST_ACL (Any_PostACL \<lparr>acl_name = ''obj'', acl_policies = []\<rparr>),
         send POST_ACL (Any_PostACL \<lparr>acl_name = ''obj'', acl_policies = [''property'']\<rparr>)] init_manager
    in map (map_sum id status_int) rs = map Inr [0, 1] \<and> map uri (posted m) = [''/postObjectAcl''])"
  by (simp add: handler_eval)

lemma test_endorse_membership:
  "(let (rs, m) = answers (demo_env 200)
        [send ENDORSE_MEMBERSHIP (Any_EndorsePrincipal \<lparr>ep_principal = one_address, ep_endorsements = []\<rparr>),
         send ENDORSE_MEMBERSHIP (Any_EndorsePrincipal \<lparr>ep_principal = one_address,
           ep_endorsements = [default_Endorsement\<lparr>endorsement_type := MEMBERSHIP, property := ''membership''\<rparr>]\<rparr>)] init_manager
    in map (map_sum id status_int) rs = map Inr [0, 1] \<and> map uri (posted m) = [''/postWorkerSet''])"
  by (simp add: handler_eval)

end
