(* ===== verification/Spec2Isabelle.thy ===== *)
theory Spec2Isabelle
  imports End_to_End Store Concurrency Unit_Tests
begin

text \<open>
  The attestation guard of libport (src/libport-core/src/main/native): a daemon that keeps a
  registry of principals and speaks for them to a metadata service, and the client library
  \<open>liblatte\<close> through which processes reach it.  Paths below are relative to that directory.

  \<^bold>\<open>The program.\<close>  A process links \<open>liblatte\<close> (client/client.cc).  A library function checks its
  arguments, turns them into a statement, wraps it in a \<open>Command\<close> and sends it over a Unix
  socket (include/comm.h, common/utils.cc).  In the daemon a \<open>Server\<close> accepts connections and
  starts a \<open>Session\<close> for each (server/server.cc, server/session.cc); the session asks the kernel
  who its peer is, reads frames, stamps the peer's credentials on each command, and hands it to
  \<open>LatteAttestationManager\<close> (server/manager.cc).  The manager looks the handler up in its table;
  handlers change the registry and call \<open>MetadataServiceClient\<close> (server/metadata.cc), which
  posts statements over HTTP.  The response goes back the same way.  Ports for new principals
  come from the modified kernel through \<open>SyscallProxyImpl\<close> (include/port-syscall.h);
  \<open>PortManager\<close> (include/port_manager.h) is the allocator the library had for that and keeps.

  \<^bold>\<open>Theories, in the order of their imports.\<close>
  \<^item> \<open>Prelude\<close>: machine integers, the faults a C++ function can end in (exceptions of the three
    families \<open>dispatch\<close> catches, other exceptions, undefined behaviour), \<open>std::map\<close> as a sorted
    association list with positions for iterators, strings and decimal output.
  \<^item> \<open>Port_Manager\<close>, \<open>Port_Lease\<close>: include/port_manager.h.  The record \<open>port_manager\<close> has the
    class's four fields; each overload and each merge step of \<open>deallocate\<close> is a definition.
    \<open>Port_Lease\<close> states what a lease service promises (locale \<open>lease_service\<close>) and interprets it
    on the class; shown are the partition invariant, the exact effect of both overloads of
    \<open>allocate\<close> and of \<open>deallocate\<close>, and the agreement of the queries with the set of leased ports.
  \<^item> \<open>Utils\<close>: common/utils.cc and include/utils.h.  \<open>reliable_send\<close> and \<open>reliable_recv\<close> consume a
    schedule of system call results; \<open>None\<close> means that the schedule ended while the loop was
    still waiting.  They are shown to return on every schedule that delivers enough bytes.  A
    \<open>Buffer\<close> is a list of bytes that may be uninitialised, a store outside it a fault; \<open>Guards\<close>
    runs its function when the scope of the object ends.
  \<^item> \<open>Log\<close>, \<open>Config\<close>: common/log.cc, common/configs.cc and include/config.h.
  \<^item> \<open>Proto\<close>, \<open>Comm\<close>: proto/statement.proto, proto/utils.h, proto/traits.h and the framing of
    include/comm.h.  \<open>Comm\<close> states what a transport promises (locale \<open>message_transport\<close>), interprets
    it on the framing, and shows that messages sent back to back are received in order, however
    they are cut up, and that no two sequences of messages have the same bytes.
  \<^item> \<open>Metadata\<close>: server/metadata.cc, every operation as the requests it sends and the result it
    makes of the answers; the checks fail closed, the sink operations ignore the status.
  \<^item> \<open>Manager\<close>, \<open>Registry\<close>, \<open>Dispatch\<close>: server/manager.cc.  \<open>Manager\<close> has the state, a definition
    per handler and \<open>dispatch\<close>.  \<open>Registry\<close> states the interface of a registry of generations
    (locale \<open>generation_registry\<close>) and of an authorised dispatcher (\<open>authorised_dispatcher\<close>),
    interprets both on the handlers, and shows the refinement of a map, the invariant of every
    reachable manager and who can remove what.  \<open>Dispatch\<close> classifies the commands that end the
    daemon.
  \<^item> \<open>Concurrency\<close>: the handlers as threads over one manager.  \<open>task_step\<close> cuts them at the points
    where another thread can come between.  A thread left alone computes \<open>dispatch\<close>; in any
    interleaving each step acts on the registry as one operation of an abstract map or not at all,
    and a command has its answer after five steps of its thread; generations and names are unique
    as long as no two threads are inside \<open>gn()\<close> at once, and can collide otherwise.
  \<^item> \<open>Session\<close>: server/session.cc, server/server.cc, server/main.cc and server/main-daemon.cc, the
    daemon as a state machine whose
    transitions are the callbacks; the kernel and the peer choose the completions.  Shown are the
    invariant of the daemon, that a peer cannot forge its identity, and that no store of the
    framing code, here and in \<open>Comm\<close>, leaves its buffer.
  \<^item> \<open>Client\<close>, \<open>Syscall\<close>, \<open>Api\<close>: client/client.cc, include/port-syscall.h and include/libport.h, down
    to the bytes on the socket, with null arguments and the state of the library.
  \<^item> \<open>End_to_End\<close>: clients whose sockets end in sessions of the daemon.  A library call is a
    dispatch under the credentials of the caller; any sequence of calls by several processes
    refines the abstract map of the registry, from the bytes on the sockets up, and leaves alone
    what other processes registered.  A call whose receive fails leaves its response on the
    socket, and the next call returns it.
  \<^item> \<open>Serialization\<close>, \<open>Store\<close>: server/serialization.cc with the classes of include/principal.h,
    include/image.h and include/accessor_object.h (locale \<open>radix\<close> for the two bases \<open>itoa\<close> and
    \<open>atoi\<close> use), and store/store.cc.
  \<^item> \<open>Unit_Tests\<close>: the scenarios of tests/legacy-tests and tests/test-manager.cc run on the model.

  \<^bold>\<open>Parameters.\<close>  Code outside the repository is an argument: the HTTP service and the JSON library
  (\<open>web\<close>), the protobuf library (\<open>proto_lib\<close>, with \<open>proto_lib_ok\<close> for what its documentation
  promises), the kernel (schedules of system calls, peer credentials, \<open>kernel\<close> for the port
  calls), the parsed configuration file, the hash of the store, the iteration order of hash
  maps.  Hypotheses about them are named definitions, and every property that has one is applied
  to a concrete instance.

  \<^bold>\<open>Bounds.\<close>  Counters and sizes have the width of the source.  The generation counter wraps at
  2^64, so the properties of the registry are about fewer than 2^64 commands, or steps in
  \<open>Concurrency\<close>; the frame size is a 32-bit word that is read as an \<open>int\<close> on the way to \<open>recv\<close>.
  No model has fuel: the loops over system calls are structural in the schedule, the others in
  the list they run over.

  \<^bold>\<open>Simplifications.\<close>  Outside \<open>Concurrency\<close> callbacks and handlers run one at a time.  Calls of the
  log functions inside other functions are left out, since they change nothing those read.
  What a program that has
  dereferenced a null pointer or read freed memory does next is not modelled: the operation
  returns the fault and the properties say when.

  \<^bold>\<open>Not modelled.\<close>  include/core_manager.h declares a class whose implementation is not in the
  repository and whose move constructor does not compile.  The mocks of the tests
  (test-include), the Java binding and the Go stand-in for the metadata service are not part of
  the program.  The engine behind \<open>gen_rand_uint64\<close> is an argument, and a client has its message
  id as a field: the daemon never reads it.
\<close>

end
